theory Spec2Isabelle
  imports Complex_Main "HOL-Library.Word"
begin

unbundle bit_operations_syntax

section \<open>Bytes, buffers and errors\<close>

text \<open>
  The reader works on C character buffers. A buffer is modelled by the list of the bytes
  that belong to it; \<open>p + k\<close> is \<open>drop k p\<close>. Reading \<open>p[i]\<close> outside the
  buffer is undefined behaviour in C++; here it is the error \<open>OutOfBounds\<close>, so every
  read of the source is a checked \<open>peek\<close>. Following a null or dangling pointer is
  the error \<open>NullPointer\<close>. \<open>gemmi::fail(msg)\<close> throws; here it is
  the error \<open>Failure msg\<close>.

  \<open>char\<close> is signed and eight bits wide (as on x86): \<open>schar\<close> is the value a
  comparison or an arithmetic expression of the source sees.

  \<open>double\<close> is modelled by \<open>real\<close>: additions, multiplications, divisions and square
  roots are exact. Theorems below that speak about doubles are statements about this
  exact arithmetic.
\<close>

datatype error = OutOfBounds | NullPointer | Failure string

definition ebind :: "error + 'a \<Rightarrow> ('a \<Rightarrow> error + 'b) \<Rightarrow> error + 'b" where
  "ebind m f = (case m of Inl e \<Rightarrow> Inl e | Inr v \<Rightarrow> f v)"

definition schar :: "char \<Rightarrow> int" where
  "schar c = (if of_char c < (128::int) then of_char c else of_char c - 256)"

definition peek :: "string \<Rightarrow> nat \<Rightarrow> error + char" where
  "peek p i = (if i < length p then Inr (p ! i) else Inl OutOfBounds)"

definition NUL :: char where
  "NUL = CHR 0x00"

definition LF :: char where
  "LF = CHR 0x0A"

definition CR :: char where
  "CR = CHR 0x0D"

text \<open>\<open>std::isspace\<close> in the C locale: space, and the control characters 9 to 13.\<close>

definition isspace :: "char \<Rightarrow> bool" where
  "isspace c = (schar c = 32 \<or> (9 \<le> schar c \<and> schar c \<le> 13))"

text \<open>The test \<open>c >= '0' && c <= '9'\<close> of the source.\<close>

definition is_digit :: "char \<Rightarrow> bool" where
  "is_digit c = (48 \<le> schar c \<and> schar c \<le> 57)"

section \<open>Field scanners (pdb.hpp)\<close>

subsection \<open>read_int\<close>

text \<open>The loop \<open>while (i < field_length && std::isspace(p[i])) ++i;\<close>\<close>

function skip_spaces :: "string \<Rightarrow> nat \<Rightarrow> nat \<Rightarrow> error + nat" where
  "skip_spaces p field_length i =
     (if i < field_length then
        (case peek p i of
           Inl e \<Rightarrow> Inl e
         | Inr c \<Rightarrow> if isspace c then skip_spaces p field_length (i + 1) else Inr i)
      else Inr i)"
  by pat_completeness auto
termination
  by (relation "measure (\<lambda>(p, field_length, i). field_length - i)") auto

text \<open>
  \<open>if (p[i] == '-') { ++i; sign = -1; } else if (p[i] == '+') { ++i; }\<close>: the source
  reads \<open>p[i]\<close> here without comparing \<open>i\<close> with \<open>field_length\<close>.
\<close>

definition read_sign :: "string \<Rightarrow> nat \<Rightarrow> error + (nat \<times> int)" where
  "read_sign p i =
     (case peek p i of
        Inl e \<Rightarrow> Inl e
      | Inr c \<Rightarrow>
          if c = CHR ''-'' then Inr (i + 1, - 1)
          else if c = CHR ''+'' then Inr (i + 1, 1)
          else Inr (i, 1))"

text \<open>
  \<open>for (; i < field_length && p[i] >= '0' && p[i] <= '9'; ++i) n = n * 10 + (p[i] - '0');\<close>
  The source's \<open>int\<close> is modelled by \<open>int\<close>: the fields read with \<open>read_int\<close> are at
  most seven columns wide, so \<open>n\<close> stays below \<open>10^7\<close>.
\<close>

function read_digits :: "string \<Rightarrow> nat \<Rightarrow> nat \<Rightarrow> int \<Rightarrow> error + (nat \<times> int)" where
  "read_digits p field_length i n =
     (if i < field_length then
        (case peek p i of
           Inl e \<Rightarrow> Inl e
         | Inr c \<Rightarrow>
             if is_digit c then read_digits p field_length (i + 1) (n * 10 + (schar c - 48))
             else Inr (i, n))
      else Inr (i, n))"
  by pat_completeness auto
termination
  by (relation "measure (\<lambda>(p, field_length, i, n). field_length - i)") auto

definition read_int :: "string \<Rightarrow> nat \<Rightarrow> error + int" where
  "read_int p field_length =
     ebind (skip_spaces p field_length 0) (\<lambda>i.
     ebind (read_sign p i) (\<lambda>(i, sign).
     ebind (read_digits p field_length i 0) (\<lambda>(i, n).
     Inr (sign * n))))"

subsection \<open>read_base36\<close>

text \<open>
  \<open>std::strtol(zstr, NULL, 36)\<close> on the NUL-terminated copy of \<open>N\<close> bytes: leading
  white space, an optional sign, then digits \<open>0-9\<close>, \<open>a-z\<close>, \<open>A-Z\<close> (letters of
  either case count 10 to 35) up to the first other byte. With \<open>N = 4\<close> the value is
  below \<open>36^4\<close>, so neither \<open>long\<close> nor \<open>int\<close> overflows.
\<close>

definition digit36 :: "char \<Rightarrow> int option" where
  "digit36 c =
     (if 48 \<le> schar c \<and> schar c \<le> 57 then Some (schar c - 48)
      else if 97 \<le> schar c \<and> schar c \<le> 122 then Some (schar c - 97 + 10)
      else if 65 \<le> schar c \<and> schar c \<le> 90 then Some (schar c - 65 + 10)
      else None)"

fun strtol_digits :: "string \<Rightarrow> int \<Rightarrow> int" where
  "strtol_digits [] acc = acc"
| "strtol_digits (c # cs) acc =
     (case digit36 c of None \<Rightarrow> acc | Some d \<Rightarrow> strtol_digits cs (acc * 36 + d))"

definition strtol36 :: "string \<Rightarrow> int" where
  "strtol36 zstr =
     (case dropWhile isspace zstr of
        [] \<Rightarrow> 0
      | c # cs \<Rightarrow>
          if c = CHR ''-'' then - strtol_digits cs 0
          else if c = CHR ''+'' then strtol_digits cs 0
          else strtol_digits (c # cs) 0)"

text \<open>\<open>std::memcpy(zstr, p, N)\<close> reads the \<open>N\<close> bytes \<open>p[0..N-1]\<close>.\<close>

definition read_base36 :: "nat \<Rightarrow> string \<Rightarrow> error + int" where
  "read_base36 N p = (if N \<le> length p then Inr (strtol36 (take N p)) else Inl OutOfBounds)"

subsection \<open>read_double\<close>

function read_digits_d :: "string \<Rightarrow> nat \<Rightarrow> nat \<Rightarrow> real \<Rightarrow> error + (nat \<times> real)" where
  "read_digits_d p field_length i d =
     (if i < field_length then
        (case peek p i of
           Inl e \<Rightarrow> Inl e
         | Inr c \<Rightarrow>
             if is_digit c
             then read_digits_d p field_length (i + 1) (d * 10 + real_of_int (schar c - 48))
             else Inr (i, d))
      else Inr (i, d))"
  by pat_completeness auto
termination
  by (relation "measure (\<lambda>(p, field_length, i, d). field_length - i)") auto

text \<open>
  The loop over the digits after the decimal point:
  \<open>for (++i; i < field_length && p[i] >= '0' && p[i] <= '9'; ++i, mult *= 0.1)
     d += mult * (p[i] - '0');\<close> (the \<open>++i\<close> is done by the caller below).
\<close>

function read_fraction :: "string \<Rightarrow> nat \<Rightarrow> nat \<Rightarrow> real \<Rightarrow> real \<Rightarrow> error + real" where
  "read_fraction p field_length i d mult =
     (if i < field_length then
        (case peek p i of
           Inl e \<Rightarrow> Inl e
         | Inr c \<Rightarrow>
             if is_digit c
             then read_fraction p field_length (i + 1)
                    (d + mult * real_of_int (schar c - 48)) (mult * (1 / 10))
             else Inr d)
      else Inr d)"
  by pat_completeness auto
termination
  by (relation "measure (\<lambda>(p, field_length, i, d, mult). field_length - i)") auto

definition read_double :: "string \<Rightarrow> nat \<Rightarrow> error + real" where
  "read_double p field_length =
     ebind (skip_spaces p field_length 0) (\<lambda>i.
     ebind (read_sign p i) (\<lambda>(i, sign).
     ebind (read_digits_d p field_length i 0) (\<lambda>(i, d).
     ebind (if i < field_length
            then ebind (peek p i) (\<lambda>c.
                   if c = CHR ''.'' then read_fraction p field_length (i + 1) d (1 / 10)
                   else Inr d)
            else Inr d) (\<lambda>d.
     Inr (real_of_int sign * d)))))"

subsection \<open>read_string\<close>

text \<open>\<open>while (field_length != 0 && std::isspace(*p)) { ++p; --field_length; }\<close>\<close>

function ltrim :: "string \<Rightarrow> nat \<Rightarrow> error + (string \<times> nat)" where
  "ltrim p field_length =
     (if field_length \<noteq> 0 then
        (case peek p 0 of
           Inl e \<Rightarrow> Inl e
         | Inr c \<Rightarrow> if isspace c then ltrim (drop 1 p) (field_length - 1) else Inr (p, field_length))
      else Inr (p, field_length))"
  by pat_completeness auto
termination
  by (relation "measure (\<lambda>(p, field_length). field_length)") auto

text \<open>The loop that ends the string at the first \<open>'\n'\<close>, \<open>'\r'\<close> or \<open>'\0'\<close>.\<close>

function find_eol :: "string \<Rightarrow> nat \<Rightarrow> nat \<Rightarrow> error + nat" where
  "find_eol p field_length i =
     (if i < field_length then
        (case peek p i of
           Inl e \<Rightarrow> Inl e
         | Inr c \<Rightarrow>
             if c = LF \<or> c = CR \<or> c = NUL then Inr i
             else find_eol p field_length (i + 1))
      else Inr field_length)"
  by pat_completeness auto
termination
  by (relation "measure (\<lambda>(p, field_length, i). field_length - i)") auto

text \<open>\<open>while (field_length != 0 && std::isspace(p[field_length-1])) --field_length;\<close>\<close>

function rtrim :: "string \<Rightarrow> nat \<Rightarrow> error + nat" where
  "rtrim p field_length =
     (if field_length \<noteq> 0 then
        (case peek p (field_length - 1) of
           Inl e \<Rightarrow> Inl e
         | Inr c \<Rightarrow> if isspace c then rtrim p (field_length - 1) else Inr field_length)
      else Inr field_length)"
  by pat_completeness auto
termination
  by (relation "measure (\<lambda>(p, field_length). field_length)") auto

definition read_string :: "string \<Rightarrow> nat \<Rightarrow> error + string" where
  "read_string p field_length =
     ebind (ltrim p field_length) (\<lambda>(p, field_length).
     ebind (find_eol p field_length 0) (\<lambda>field_length.
     ebind (rtrim p field_length) (\<lambda>field_length.
     Inr (take field_length p))))"

text \<open>
  The loops are unfolded by hand in the proofs: their equations are unconditional.
\<close>

declare skip_spaces.simps [simp del] read_digits.simps [simp del] read_digits_d.simps [simp del]
  read_fraction.simps [simp del] ltrim.simps [simp del] find_eol.simps [simp del]
  rtrim.simps [simp del]

subsection \<open>read_charge and read_snic\<close>

text \<open>
  The source returns a \<open>signed char\<close>; the value is a digit times \<open>1\<close> or \<open>-1\<close>,
  so nothing is lost.
\<close>

definition read_charge :: "char \<Rightarrow> char \<Rightarrow> error + int" where
  "read_charge digit sign =
     (if sign = CHR '' '' \<and> digit = CHR '' '' then Inr 0
      else
        let (digit', sign') = (if is_digit sign then (sign, digit) else (digit, sign))
        in if is_digit digit' then
             (if sign' \<noteq> CHR ''+'' \<and> sign' \<noteq> CHR ''-'' \<and> sign' \<noteq> NUL \<and> \<not> isspace sign'
              then Inl (Failure (''Wrong format for charge: '' @ [digit'] @ [sign']))
              else Inr ((schar digit' - 48) * (if sign' = CHR ''-'' then - 1 else 1)))
           else Inr 0)"

text \<open>
  \<open>c == ' ' ? '\0' : c\<close>, the expression the source uses for the insertion code and
  for the alternate-location byte.
\<close>

definition blank_to_nul :: "char \<Rightarrow> char" where
  "blank_to_nul c = (if c = CHR '' '' then NUL else c)"

text \<open>
  \<open>ResidueId::SNIC\<close> is the pair of the sequence number and the insertion code.
\<close>

definition read_snic :: "string \<Rightarrow> error + (int \<times> char)" where
  "read_snic s =
     ebind (peek s 0) (\<lambda>c0.
     ebind (if schar c0 < 65 then read_int s 4
            else ebind (read_base36 4 s) (\<lambda>v. Inr (v - 466560 + 10000))) (\<lambda>num.
     ebind (peek s 4) (\<lambda>c4.
     Inr (num, blank_to_nul c4))))"

subsection \<open>The hybrid-36 encoding of a sequence number\<close>

text \<open>
  Modelled from the spec: the encoder of hybrid-36 sequence numbers, which is not in the
  sources (the reader only decodes). The spec's glossary: "base-10 in the low range,
  base-36 starting with 'A000' for values >= 10000, used to fit larger residue numbers
  in 4 columns"; the decimal numbers are right-justified in the four columns, as PDB
  files write them. Four base-36 digits starting at \<open>A000\<close> end at \<open>ZZZZ\<close>; beyond
  it the first digit below is no letter any more.
\<close>

definition dec_digit :: "nat \<Rightarrow> char" where
  "dec_digit d = char_of (48 + d)"

definition b36_digit :: "nat \<Rightarrow> char" where
  "b36_digit d = (if d < 10 then char_of (48 + d) else char_of (65 + (d - 10)))"

definition hy36encode4 :: "nat \<Rightarrow> string" where
  "hy36encode4 n =
     (if n < 10 then [CHR '' '', CHR '' '', CHR '' '', dec_digit n]
      else if n < 100 then [CHR '' '', CHR '' '', dec_digit (n div 10), dec_digit (n mod 10)]
      else if n < 1000
        then [CHR '' '', dec_digit (n div 100), dec_digit (n div 10 mod 10), dec_digit (n mod 10)]
      else if n < 10000
        then [dec_digit (n div 1000), dec_digit (n div 100 mod 10), dec_digit (n div 10 mod 10),
              dec_digit (n mod 10)]
      else let v = n - 10000 + 466560
           in [b36_digit (v div 46656), b36_digit (v div 1296 mod 36),
               b36_digit (v div 36 mod 36), b36_digit (v mod 36)])"

section \<open>Vectors, matrices and transforms (math.hpp)\<close>

text \<open>
  Modelled from the spec: \<open>math.hpp\<close> is not among the sources. \<open>Vec3\<close> is a
  triple of doubles, \<open>Mat33\<close> a 3x3 matrix given by its rows (\<open>mat[i][j]\<close> is row
  \<open>i\<close>, column \<open>j\<close>, as the source's \<open>orth.mat = {...}\<close> lists it row by row), and a
  \<open>Transform\<close> the affine map \<open>v \<mapsto> mat v + vec\<close>: the spec calls
  \<open>orthogonalize\<close> and \<open>fractionalize\<close> the "affine application of the stored
  transforms". \<open>approx\<close> compares component by component ("agrees within 5e-6 on the
  matrix and 1e-6 on the vector"), \<open>inverse\<close> is the inverse affine map, and
  \<open>iround\<close> rounds to the nearest integer, halves away from zero as \<open>std::round\<close>
  does.
\<close>

type_synonym Vec3 = "real \<times> real \<times> real"

type_synonym Mat33 = "Vec3 \<times> Vec3 \<times> Vec3"

record Transform =
  mat :: Mat33
  vec :: Vec3

fun vec_sub :: "Vec3 \<Rightarrow> Vec3 \<Rightarrow> Vec3" where
  "vec_sub (x1, y1, z1) (x2, y2, z2) = (x1 - x2, y1 - y2, z1 - z2)"

fun vec_add :: "Vec3 \<Rightarrow> Vec3 \<Rightarrow> Vec3" where
  "vec_add (x1, y1, z1) (x2, y2, z2) = (x1 + x2, y1 + y2, z1 + z2)"

fun length_sq :: "Vec3 \<Rightarrow> real" where
  "length_sq (x, y, z) = x * x + y * y + z * z"

definition dist_sq_vec :: "Vec3 \<Rightarrow> Vec3 \<Rightarrow> real" where
  "dist_sq_vec p q = length_sq (vec_sub p q)"

fun mat_vec :: "Mat33 \<Rightarrow> Vec3 \<Rightarrow> Vec3" where
  "mat_vec ((m00, m01, m02), (m10, m11, m12), (m20, m21, m22)) (x, y, z) =
     (m00 * x + m01 * y + m02 * z,
      m10 * x + m11 * y + m12 * z,
      m20 * x + m21 * y + m22 * z)"

fun mat_mul :: "Mat33 \<Rightarrow> Mat33 \<Rightarrow> Mat33" where
  "mat_mul ((a00, a01, a02), (a10, a11, a12), (a20, a21, a22))
           ((b00, b01, b02), (b10, b11, b12), (b20, b21, b22)) =
     ((a00 * b00 + a01 * b10 + a02 * b20,
       a00 * b01 + a01 * b11 + a02 * b21,
       a00 * b02 + a01 * b12 + a02 * b22),
      (a10 * b00 + a11 * b10 + a12 * b20,
       a10 * b01 + a11 * b11 + a12 * b21,
       a10 * b02 + a11 * b12 + a12 * b22),
      (a20 * b00 + a21 * b10 + a22 * b20,
       a20 * b01 + a21 * b11 + a22 * b21,
       a20 * b02 + a21 * b12 + a22 * b22))"

definition identity33 :: Mat33 where
  "identity33 = ((1, 0, 0), (0, 1, 0), (0, 0, 1))"

fun mat00 :: "Mat33 \<Rightarrow> real" where
  "mat00 ((m00, m01, m02), r1, r2) = m00"

fun vec_approx :: "Vec3 \<Rightarrow> Vec3 \<Rightarrow> real \<Rightarrow> bool" where
  "vec_approx (x1, y1, z1) (x2, y2, z2) epsilon =
     (\<bar>x1 - x2\<bar> \<le> epsilon \<and> \<bar>y1 - y2\<bar> \<le> epsilon \<and> \<bar>z1 - z2\<bar> \<le> epsilon)"

fun mat_approx :: "Mat33 \<Rightarrow> Mat33 \<Rightarrow> real \<Rightarrow> bool" where
  "mat_approx (r0, r1, r2) (s0, s1, s2) epsilon =
     (vec_approx r0 s0 epsilon \<and> vec_approx r1 s1 epsilon \<and> vec_approx r2 s2 epsilon)"

fun determinant :: "Mat33 \<Rightarrow> real" where
  "determinant ((m00, m01, m02), (m10, m11, m12), (m20, m21, m22)) =
     m00 * (m11 * m22 - m21 * m12) + m01 * (m12 * m20 - m22 * m10)
       + m02 * (m10 * m21 - m20 * m11)"

fun mat_inverse :: "Mat33 \<Rightarrow> Mat33" where
  "mat_inverse ((m00, m01, m02), (m10, m11, m12), (m20, m21, m22)) =
     (let d = 1 / determinant ((m00, m01, m02), (m10, m11, m12), (m20, m21, m22))
      in ((d * (m11 * m22 - m21 * m12), d * (m02 * m21 - m01 * m22), d * (m01 * m12 - m02 * m11)),
          (d * (m12 * m20 - m10 * m22), d * (m00 * m22 - m02 * m20), d * (m10 * m02 - m00 * m12)),
          (d * (m10 * m21 - m20 * m11), d * (m20 * m01 - m00 * m21), d * (m00 * m11 - m10 * m01))))"

definition Transform_apply :: "Transform \<Rightarrow> Vec3 \<Rightarrow> Vec3" where
  "Transform_apply t v = vec_add (mat_vec (mat t) v) (vec t)"

definition Transform_inverse :: "Transform \<Rightarrow> Transform" where
  "Transform_inverse t =
     (let minv = mat_inverse (mat t)
      in \<lparr>mat = minv, vec = vec_sub (0, 0, 0) (mat_vec minv (vec t))\<rparr>)"

definition iround :: "real \<Rightarrow> int" where
  "iround d = (if 0 \<le> d then \<lfloor>d + 1 / 2\<rfloor> else - \<lfloor>- d + 1 / 2\<rfloor>)"

section \<open>The unit cell (unitcell.hpp)\<close>

text \<open>
  The fields \<open>a\<close>, \<open>b\<close>, \<open>c\<close>, \<open>orth\<close> and \<open>frac\<close> of the source are
  \<open>cell_a\<close>, \<open>cell_b\<close>, \<open>cell_c\<close>, \<open>cell_orth\<close> and \<open>cell_frac\<close> here.

  \<open>std::sin\<close> and \<open>std::cos\<close> of a double are not the mathematical sine and
  cosine (in double arithmetic the sine of \<open>deg2rad * 180\<close> is not zero), so the two
  functions are parameters of the model, \<open>fsin\<close> and \<open>fcos\<close>: whatever is proved below
  holds for every library. What is divided by zero is zero in HOL, where the source
  gets an infinity or a NaN; the theorems about the transforms have hypotheses that
  keep every divisor away from zero.
\<close>

record NearbyImage =
  dist_sq :: "real option"
  box :: "int \<times> int \<times> int"
  sym_id :: int

datatype SymmetryImage = Same | Different | Unspecified

record UnitCell =
  cell_a :: real
  cell_b :: real
  cell_c :: real
  alpha :: real
  beta :: real
  gamma :: real
  cell_orth :: Transform
  cell_frac :: Transform
  volume :: real
  ar :: real
  br :: real
  cr :: real
  cos_alphar :: real
  cos_betar :: real
  cos_gammar :: real
  explicit_matrices :: bool
  images :: "Transform list"

text \<open>
  The member initialisers of the source. The default of a \<open>Transform\<close> is part of
  \<open>math.hpp\<close>; it is taken to be the identity (\<open>is_crystal\<close> reads \<open>frac.mat[0][0]\<close>
  of a cell that was never set and expects 1 there).
\<close>

definition UnitCell_default :: UnitCell where
  "UnitCell_default =
     \<lparr>cell_a = 1, cell_b = 1, cell_c = 1, alpha = 90, beta = 90, gamma = 90,
      cell_orth = \<lparr>mat = identity33, vec = (0, 0, 0)\<rparr>,
      cell_frac = \<lparr>mat = identity33, vec = (0, 0, 0)\<rparr>,
      volume = 1, ar = 1, br = 1, cr = 1,
      cos_alphar = 0, cos_betar = 0, cos_gammar = 0,
      explicit_matrices = False, images = []\<rparr>"

definition is_crystal :: "UnitCell \<Rightarrow> bool" where
  "is_crystal cell = (cell_a cell \<noteq> 1 \<and> mat00 (mat (cell_frac cell)) \<noteq> 1)"

text \<open>
  \<open>calculate_properties\<close> and \<open>set\<close> return the cell as the call leaves it, and the
  exception if one was thrown: \<open>set\<close> has stored the six parameters before
  \<open>calculate_properties\<close> fails.
\<close>

text \<open>
  \<open>alpha == 90. ? 0. : std::cos(deg2rad * alpha)\<close> and
  \<open>alpha == 90. ? 1. : std::sin(deg2rad * alpha)\<close>, which the source writes out for
  each of the three angles ("ensure exact values for right angles").
\<close>

definition cos_deg :: "(real \<Rightarrow> real) \<Rightarrow> real \<Rightarrow> real" where
  "cos_deg fcos angle = (if angle = 90 then 0 else fcos (pi / 180 * angle))"

definition sin_deg :: "(real \<Rightarrow> real) \<Rightarrow> real \<Rightarrow> real" where
  "sin_deg fsin angle = (if angle = 90 then 1 else fsin (pi / 180 * angle))"

definition calculate_properties ::
  "(real \<Rightarrow> real) \<Rightarrow> (real \<Rightarrow> real) \<Rightarrow> UnitCell \<Rightarrow> UnitCell \<times> error option" where
  "calculate_properties fsin fcos cell =
     (let a = cell_a cell; b = cell_b cell; c = cell_c cell;
          cos_alpha = cos_deg fcos (alpha cell);
          cos_beta = cos_deg fcos (beta cell);
          cos_gamma = cos_deg fcos (gamma cell);
          sin_alpha = sin_deg fsin (alpha cell);
          sin_beta = sin_deg fsin (beta cell);
          sin_gamma = sin_deg fsin (gamma cell)
      in if sin_alpha = 0 \<or> sin_beta = 0 \<or> sin_gamma = 0
         then (cell, Some (Failure ''Impossible angle - N*180deg.''))
         else
           let vol = a * b * c * sqrt (1 - cos_alpha * cos_alpha - cos_beta * cos_beta
                                       - cos_gamma * cos_gamma
                                       + 2 * cos_alpha * cos_beta * cos_gamma);
               cos_alphar_sin_beta = (cos_beta * cos_gamma - cos_alpha) / sin_gamma;
               cos_alphar' = cos_alphar_sin_beta / sin_beta;
               cell1 = cell\<lparr>volume := vol,
                             ar := b * c * sin_alpha / vol,
                             br := a * c * sin_beta / vol,
                             cr := a * b * sin_gamma / vol,
                             cos_alphar := cos_alphar',
                             cos_betar := (cos_alpha * cos_gamma - cos_beta) / (sin_alpha * sin_gamma),
                             cos_gammar := (cos_alpha * cos_beta - cos_gamma) / (sin_alpha * sin_beta)\<rparr>
           in if explicit_matrices cell then (cell1, None)
              else
                let sin_alphar = sqrt (1 - cos_alphar' * cos_alphar');
                    orth11 = b * sin_gamma;
                    orth22 = c * sin_beta * sin_alphar;
                    o12 = - cos_gamma / (sin_gamma * a);
                    o13 = - (cos_gamma * cos_alphar_sin_beta + cos_beta * sin_gamma)
                            / (sin_alphar * sin_beta * sin_gamma * a);
                    o23 = cos_alphar' / (sin_alphar * sin_gamma * b)
                in (cell1\<lparr>cell_orth := \<lparr>mat = ((a, b * cos_gamma, c * cos_beta),
                                            (0, orth11, - c * cos_alphar_sin_beta),
                                            (0, 0, orth22)),
                                     vec = (0, 0, 0)\<rparr>,
                           cell_frac := \<lparr>mat = ((1 / a, o12, o13),
                                            (0, 1 / orth11, o23),
                                            (0, 0, 1 / orth22)),
                                     vec = (0, 0, 0)\<rparr>\<rparr>,
                    None))"

definition set_matrices_from_fract :: "UnitCell \<Rightarrow> Transform \<Rightarrow> UnitCell" where
  "set_matrices_from_fract cell f =
     (if mat_approx (mat f) (mat (cell_frac cell)) (5 / 1000000)
           \<and> vec_approx (vec f) (vec (cell_frac cell)) (1 / 1000000)
      then cell
      else if mat00 (mat (cell_frac cell)) = 1 \<and> (mat00 (mat f) = 0 \<or> mat00 (mat f) > 1)
      then cell
      else cell\<lparr>cell_frac := f, cell_orth := Transform_inverse f, explicit_matrices := True\<rparr>)"

definition UnitCell_set ::
  "(real \<Rightarrow> real) \<Rightarrow> (real \<Rightarrow> real) \<Rightarrow> UnitCell \<Rightarrow>
     real \<Rightarrow> real \<Rightarrow> real \<Rightarrow> real \<Rightarrow> real \<Rightarrow> real \<Rightarrow> UnitCell \<times> error option" where
  "UnitCell_set fsin fcos cell a' b' c' alpha' beta' gamma' =
     (if gamma' = 0 then (cell, None)
      else calculate_properties fsin fcos
             (cell\<lparr>cell_a := a', cell_b := b', cell_c := c',
                    alpha := alpha', beta := beta', gamma := gamma'\<rparr>))"

definition orthogonalize :: "UnitCell \<Rightarrow> Vec3 \<Rightarrow> Vec3" where
  "orthogonalize cell f = Transform_apply (cell_orth cell) f"

definition fractionalize :: "UnitCell \<Rightarrow> Vec3 \<Rightarrow> Vec3" where
  "fractionalize cell p = Transform_apply (cell_frac cell) p"

text \<open>
  \<open>dist_sq\<close> of a \<open>NearbyImage\<close> is a double that the source sets to \<open>INFINITY\<close>
  in some cases: \<open>None\<close> stands for it, and \<open>dsq < image.dist_sq\<close> is true then.
\<close>

definition below :: "real \<Rightarrow> real option \<Rightarrow> bool" where
  "below dsq bound = (case bound of None \<Rightarrow> True | Some d \<Rightarrow> dsq < d)"

fun search_pbc_images :: "UnitCell \<Rightarrow> Vec3 \<Rightarrow> NearbyImage \<Rightarrow> bool \<times> NearbyImage" where
  "search_pbc_images cell (dx, dy, dz) img =
     (let box0 = iround dx; box1 = iround dy; box2 = iround dz;
          diff = (dx - real_of_int box0, dy - real_of_int box1, dz - real_of_int box2);
          orth_diff = orthogonalize cell diff;
          dsq = length_sq orth_diff
      in if below dsq (dist_sq img)
         then (True, img\<lparr>dist_sq := Some dsq, box := (box0, box1, box2)\<rparr>)
         else (False, img))"

text \<open>
  The loop \<open>for (int n = 0; n != images.size(); ++n)\<close> of \<open>find_nearest_image\<close>, over
  the images from index \<open>n\<close> on.
\<close>

fun search_images ::
  "UnitCell \<Rightarrow> Vec3 \<Rightarrow> Vec3 \<Rightarrow> Transform list \<Rightarrow> int \<Rightarrow> NearbyImage \<Rightarrow> NearbyImage" where
  "search_images cell fpos fref [] n img = img"
| "search_images cell fpos fref (im # ims) n img =
     (case search_pbc_images cell (vec_sub (Transform_apply im fpos) fref) img of
        (True, img') \<Rightarrow> search_images cell fpos fref ims (n + 1) (img'\<lparr>sym_id := n + 1\<rparr>)
      | (False, img') \<Rightarrow> search_images cell fpos fref ims (n + 1) img')"

definition box_is_zero :: "NearbyImage \<Rightarrow> bool" where
  "box_is_zero img = (box img = (0, 0, 0))"

definition find_nearest_image :: "UnitCell \<Rightarrow> Vec3 \<Rightarrow> Vec3 \<Rightarrow> SymmetryImage \<Rightarrow> NearbyImage" where
  "find_nearest_image cell ref pos sym_image =
     (let img = \<lparr>dist_sq = Some (dist_sq_vec ref pos), box = (0, 0, 0), sym_id = 0\<rparr>
      in if sym_image = Same \<or> \<not> is_crystal cell
         then (if sym_image = Different \<or> dist_sq img = Some 0
               then img\<lparr>dist_sq := None\<rparr> else img)
         else
           let fpos = fractionalize cell pos;
               fref = fractionalize cell ref;
               img1 = snd (search_pbc_images cell (vec_sub fpos fref) img);
               img2 = (if (sym_image = Different \<or> dist_sq img1 = Some 0) \<and> box_is_zero img1
                         then img1\<lparr>dist_sq := None\<rparr> else img1)
           in search_images cell fpos fref (images cell) 0 img2)"

text \<open>\<open>NearbyImage::dist\<close>: the square root of \<open>dist_sq\<close>.\<close>

definition image_dist :: "NearbyImage \<Rightarrow> real option" where
  "image_dist img = map_option sqrt (dist_sq img)"

text \<open>
  The test of \<open>calculate_properties\<close> that no sine is zero, as a predicate of the cell.
\<close>

definition no_sine_zero :: "(real \<Rightarrow> real) \<Rightarrow> UnitCell \<Rightarrow> bool" where
  "no_sine_zero fsin cell =
     (sin_deg fsin (alpha cell) \<noteq> 0 \<and> sin_deg fsin (beta cell) \<noteq> 0 \<and>
      sin_deg fsin (gamma cell) \<noteq> 0)"

text \<open>
  \<open>later_calls fsin fcos cell cell'\<close>: the cell \<open>cell\<close> has become \<open>cell'\<close> after
  any number of calls to \<open>set\<close> and \<open>calculate_properties\<close>, failed ones included (a
  caller that catches the exception keeps the cell).
\<close>

inductive later_calls :: "(real \<Rightarrow> real) \<Rightarrow> (real \<Rightarrow> real) \<Rightarrow> UnitCell \<Rightarrow> UnitCell \<Rightarrow> bool"
  for fsin fcos where
  no_call: "later_calls fsin fcos cell cell"
| call_set: "later_calls fsin fcos cell cell1 \<Longrightarrow>
     UnitCell_set fsin fcos cell1 a b c alpha' beta' gamma' = (cell2, err) \<Longrightarrow>
     later_calls fsin fcos cell cell2"
| call_calculate_properties: "later_calls fsin fcos cell cell1 \<Longrightarrow>
     calculate_properties fsin fcos cell1 = (cell2, err) \<Longrightarrow>
     later_calls fsin fcos cell cell2"

text \<open>A cell with an adopted fractionalization matrix, for the examples below.\<close>

definition adopted_example :: UnitCell where
  "adopted_example =
     set_matrices_from_fract (fst (UnitCell_set sin cos UnitCell_default 10 10 10 90 90 90))
       \<lparr>mat = ((1 / 20, 0, 0), (0, 1 / 20, 0), (0, 0, 1 / 20)), vec = (0, 0, 0)\<rparr>"

section \<open>The structure tree (model.hpp)\<close>

text \<open>
  Modelled from the spec: \<open>model.hpp\<close> is not among the sources. The spec's data model
  gives the tree (Structure, Model, Chain, Residue, Atom, Entity) and the rule that a
  residue is found by its \<open>snic\<close>, segment and name; \<open>find_or_add_model\<close>,
  \<open>find_or_add_chain\<close> and \<open>find_or_add_residue\<close> return the first element with the
  given name (or id) and append a new one when there is none.

  Only what the reader's control flow touches is kept. The fields \<open>name\<close>, \<open>info\<close>
  and \<open>sg_hm\<close> of the Structure, the polymer type of an Entity (always
  \<open>PolymerType::NA\<close> here) and the connection lists are left out; the chemical element
  of an atom is kept as the two bytes it is built from. Fields called \<open>name\<close> in the
  source carry the name of their struct here.

  The reader's pointers \<open>model\<close>, \<open>chain\<close> and \<open>resi\<close> are indices into the lists
  they point into, \<open>None\<close> for \<open>nullptr\<close>. An \<open>Entity*\<close> is an address: the
  Structure owns the entities as a list of pairs of an address and an Entity, and
  \<open>new Entity\<close> takes an address that no entity of the list has.
\<close>

datatype EntityType = Polymer | NonPolymer | Water | Unknown

record Entity =
  entity_id :: string
  entity_type :: EntityType
  sequence :: "string list"

record Atom =
  atom_name :: string
  altloc :: char
  atom_group :: char
  charge :: int
  element :: string
  pos :: Vec3
  occ :: real
  b_iso :: real
  u11 :: real
  u22 :: real
  u33 :: real
  u12 :: real
  u13 :: real
  u23 :: real

record ResidueId =
  snic :: "int \<times> char"
  segment :: string
  res_name :: string

record Residue = ResidueId +
  atoms :: "Atom list"

record Chain =
  chain_name :: string
  auth_name :: string
  residues :: "Residue list"
  entity :: "nat option"

record Model =
  model_name :: string
  chains :: "Chain list"

text \<open>
  \<open>Mat4x4\<close> is \<open>linalg::mat<double,4,4>\<close>: four columns \<open>x\<close>, \<open>y\<close>, \<open>z\<close>, \<open>w\<close> of
  four doubles each, \<open>matrix.x[i]\<close> being row \<open>i\<close> of the first column.
\<close>

record Mat4x4 =
  col_x :: "real list"
  col_y :: "real list"
  col_z :: "real list"
  col_w :: "real list"

definition identity44 :: Mat4x4 where
  "identity44 = \<lparr>col_x = [1, 0, 0, 0], col_y = [0, 1, 0, 0], col_z = [0, 0, 1, 0],
                  col_w = [0, 0, 0, 1]\<rparr>"

text \<open>
  The conversion of a \<open>Mat4x4\<close> into the \<open>Transform\<close> that
  \<open>set_matrices_from_fract\<close> takes: the upper left 3x3 block and the first three rows
  of the last column ("each row stores 3 doubles ... and 1 double for translation").
\<close>

definition Transform_of_Mat4x4 :: "Mat4x4 \<Rightarrow> Transform" where
  "Transform_of_Mat4x4 m =
     \<lparr>mat = ((col_x m ! 0, col_y m ! 0, col_z m ! 0),
             (col_x m ! 1, col_y m ! 1, col_z m ! 1),
             (col_x m ! 2, col_y m ! 2, col_z m ! 2)),
      vec = (col_w m ! 0, col_w m ! 1, col_w m ! 2)\<rparr>"

record NcsOp =
  ncs_id :: string
  given :: bool
  ncs_transform :: Mat4x4

record Structure =
  models :: "Model list"
  entities :: "(nat \<times> Entity) list"
  st_cell :: UnitCell
  origx :: Mat4x4
  ncs :: "NcsOp list"

text \<open>The index of the first element that satisfies \<open>P\<close> (\<open>std::find_if\<close>).\<close>

fun find_first :: "('a \<Rightarrow> bool) \<Rightarrow> 'a list \<Rightarrow> nat option" where
  "find_first P [] = None"
| "find_first P (x # xs) =
     (if P x then Some 0 else map_option Suc (find_first P xs))"

definition find_or_add_model :: "Structure \<Rightarrow> string \<Rightarrow> nat \<times> Structure" where
  "find_or_add_model s name =
     (case find_first (\<lambda>m. model_name m = name) (models s) of
        Some i \<Rightarrow> (i, s)
      | None \<Rightarrow> (length (models s),
                 s\<lparr>models := models s @ [\<lparr>model_name = name, chains = []\<rparr>]\<rparr>))"

definition find_or_add_chain :: "Model \<Rightarrow> string \<Rightarrow> nat \<times> Model" where
  "find_or_add_chain m name =
     (case find_first (\<lambda>c. chain_name c = name) (chains m) of
        Some i \<Rightarrow> (i, m)
      | None \<Rightarrow> (length (chains m),
                 m\<lparr>chains := chains m @
                      [\<lparr>chain_name = name, auth_name = [], residues = [], entity = None\<rparr>]\<rparr>))"

definition matches :: "Residue \<Rightarrow> ResidueId \<Rightarrow> bool" where
  "matches r rid = (snic r = snic rid \<and> segment r = segment rid \<and> res_name r = res_name rid)"

definition find_or_add_residue :: "Chain \<Rightarrow> ResidueId \<Rightarrow> nat \<times> Chain" where
  "find_or_add_residue c rid =
     (case find_first (\<lambda>r. matches r rid) (residues c) of
        Some i \<Rightarrow> (i, c)
      | None \<Rightarrow> (length (residues c),
                 c\<lparr>residues := residues c @
                      [\<lparr>snic = snic rid, segment = segment rid, res_name = res_name rid,
                        atoms = []\<rparr>]\<rparr>))"

text \<open>\<open>std::to_string\<close> of an \<open>int\<close>.\<close>

fun nat_digits :: "nat \<Rightarrow> string" where
  "nat_digits n =
     (if n < 10 then [char_of (48 + n)]
      else nat_digits (n div 10) @ [char_of (48 + n mod 10)])"

declare nat_digits.simps [simp del]

definition to_string :: "int \<Rightarrow> string" where
  "to_string i = (if i < 0 then CHR ''-'' # nat_digits (nat (- i)) else nat_digits (nat i))"

section \<open>The entity setter (pdb.hpp)\<close>

text \<open>
  \<open>EntitySetter\<close> holds a reference to the Structure and the map \<open>chain_to_ent_\<close>;
  its functions take and return both.
\<close>

type_synonym EntitySetter = "string \<Rightarrow> nat option"

definition new_address :: "(nat \<times> Entity) list \<Rightarrow> nat" where
  "new_address ents = Suc (fold max (map fst ents) 0)"

definition set_for_chain ::
  "Structure \<Rightarrow> EntitySetter \<Rightarrow> string \<Rightarrow> EntityType \<Rightarrow> nat \<times> Structure \<times> EntitySetter" where
  "set_for_chain s chain_to_ent name type =
     (case chain_to_ent name of
        Some ent \<Rightarrow> (ent, s, chain_to_ent)
      | None \<Rightarrow>
          let ent = new_address (entities s)
          in (ent,
              s\<lparr>entities := entities s @
                   [(ent, \<lparr>entity_id = [], entity_type = type, sequence = []\<rparr>)]\<rparr>,
              chain_to_ent(name \<mapsto> ent)))"

text \<open>The loop of \<open>same_entity\<close> over the positions of two sequences of equal length.\<close>

fun mons_equal :: "string list \<Rightarrow> string list \<Rightarrow> bool" where
  "mons_equal (x # xs) (y # ys) = (if x \<noteq> y then False else mons_equal xs ys)"
| "mons_equal xs ys = True"

definition same_entity :: "string list \<Rightarrow> string list \<Rightarrow> bool" where
  "same_entity a b = (if a = [] \<or> length a \<noteq> length b then False else mons_equal a b)"

text \<open>
  \<open>for (auto& ce : chain_to_ent_) if (ce.second == j->get()) ce.second = i->get();\<close>
\<close>

definition redirect :: "nat \<Rightarrow> nat \<Rightarrow> EntitySetter \<Rightarrow> EntitySetter" where
  "redirect from to chain_to_ent =
     (\<lambda>name. case chain_to_ent name of
                None \<Rightarrow> None
              | Some ent \<Rightarrow> if ent = from then Some to else Some ent)"

definition erase :: "nat \<Rightarrow> 'a list \<Rightarrow> 'a list" where
  "erase j xs = take j xs @ drop (Suc j) xs"

text \<open>
  The inner loop of \<open>finalize\<close>, \<open>for (auto j = i + 1; j != end; ++j)\<close>. After
  \<open>j = erase(j) - 1\<close> and the loop's \<open>++j\<close> the iterator is at the element that followed
  the erased one: the index \<open>j\<close> stays.
\<close>

function finalize_inner ::
  "nat \<Rightarrow> nat \<Rightarrow> (nat \<times> Entity) list \<times> EntitySetter \<Rightarrow> (nat \<times> Entity) list \<times> EntitySetter" where
  "finalize_inner i j (ents, chain_to_ent) =
     (if j < length ents then
        (if same_entity (sequence (snd (ents ! j))) (sequence (snd (ents ! i)))
         then finalize_inner i j
                (erase j ents, redirect (fst (ents ! j)) (fst (ents ! i)) chain_to_ent)
         else finalize_inner i (j + 1) (ents, chain_to_ent))
      else (ents, chain_to_ent))"
  by pat_completeness auto
termination
  by (relation "measure (\<lambda>(i, j, ents, chain_to_ent). length ents - j)")
    (auto simp add: erase_def)

declare finalize_inner.simps [simp del]

lemma length_finalize_inner:
  "j \<le> length (fst s) \<Longrightarrow> j \<le> length (fst (finalize_inner i j s)) \<and>
     length (fst (finalize_inner i j s)) \<le> length (fst s)"
proof (induction i j s rule: finalize_inner.induct)
  case (1 i j ents chain_to_ent)
  show ?case
  proof (cases "j < length ents")
    case False
    then show ?thesis using 1(3) by (simp add: finalize_inner.simps)
  next
    case True
    show ?thesis
    proof (cases "same_entity (sequence (snd (ents ! j))) (sequence (snd (ents ! i)))")
      case same: True
      have eq: "finalize_inner i j (ents, chain_to_ent) =
          finalize_inner i j
            (erase j ents, redirect (fst (ents ! j)) (fst (ents ! i)) chain_to_ent)"
        using True same by (subst finalize_inner.simps) simp
      have len: "length (erase j ents) = length ents - 1"
        using True by (simp add: erase_def)
      then have "j \<le> length (fst (erase j ents,
          redirect (fst (ents ! j)) (fst (ents ! i)) chain_to_ent))"
        using True by simp
      from 1(1) [OF True same this] len show ?thesis
        unfolding eq by auto
    next
      case differ: False
      have eq: "finalize_inner i j (ents, chain_to_ent) =
          finalize_inner i (j + 1) (ents, chain_to_ent)"
        using True differ by (subst finalize_inner.simps) simp
      from 1(2) [OF True differ] True show ?thesis
        unfolding eq by simp
    qed
  qed
qed

text \<open>The outer loop, \<open>for (auto i = begin; i != end; ++i)\<close>.\<close>

function finalize_outer ::
  "nat \<Rightarrow> (nat \<times> Entity) list \<times> EntitySetter \<Rightarrow> (nat \<times> Entity) list \<times> EntitySetter" where
  "finalize_outer i s =
     (if i < length (fst s) then finalize_outer (i + 1) (finalize_inner i (i + 1) s) else s)"
  by pat_completeness auto
termination
proof (relation "measure (\<lambda>(i, s). length (fst s) - i)")
  show "wf (measure (\<lambda>(i, s). length (fst s) - i))"
    by simp
next
  fix i :: nat and s :: "(nat \<times> Entity) list \<times> EntitySetter"
  assume "i < length (fst s)"
  then show "((i + 1, finalize_inner i (i + 1) s), i, s) \<in> measure (\<lambda>(i, s). length (fst s) - i)"
    using length_finalize_inner [of "i + 1" s i] by auto
qed

declare finalize_outer.simps [simp del]

text \<open>
  \<open>for (Model& mod : st_.models) for (Chain& ch : mod.chains)
     ch.entity = set_for_chain(ch.name, EntityType::Unknown);\<close>
\<close>

fun set_chain_entities ::
  "Chain list \<Rightarrow> Structure \<Rightarrow> EntitySetter \<Rightarrow> Chain list \<times> Structure \<times> EntitySetter" where
  "set_chain_entities [] s chain_to_ent = ([], s, chain_to_ent)"
| "set_chain_entities (ch # chs) s chain_to_ent =
     (case set_for_chain s chain_to_ent (chain_name ch) Unknown of
        (ent, s1, chain_to_ent1) \<Rightarrow>
          (case set_chain_entities chs s1 chain_to_ent1 of
             (chs', s2, chain_to_ent2) \<Rightarrow> (ch\<lparr>entity := Some ent\<rparr> # chs', s2, chain_to_ent2)))"

text \<open>
  The models are taken out of the Structure while their chains are updated
  (\<open>set_for_chain\<close> changes only the entities of the Structure) and put back at the end.
\<close>

fun set_model_entities ::
  "Model list \<Rightarrow> Structure \<Rightarrow> EntitySetter \<Rightarrow> Model list \<times> Structure \<times> EntitySetter" where
  "set_model_entities [] s chain_to_ent = ([], s, chain_to_ent)"
| "set_model_entities (m # ms) s chain_to_ent =
     (case set_chain_entities (chains m) s chain_to_ent of
        (chs', s1, chain_to_ent1) \<Rightarrow>
          (case set_model_entities ms s1 chain_to_ent1 of
             (ms', s2, chain_to_ent2) \<Rightarrow> (m\<lparr>chains := chs'\<rparr> # ms', s2, chain_to_ent2)))"

text \<open>\<open>int serial = 1; for (auto& ent : st_.entities) ent->id = std::to_string(serial++);\<close>\<close>

fun set_ids :: "int \<Rightarrow> (nat \<times> Entity) list \<Rightarrow> (nat \<times> Entity) list" where
  "set_ids serial [] = []"
| "set_ids serial ((a, ent) # ents) =
     (a, ent\<lparr>entity_id := to_string serial\<rparr>) # set_ids (serial + 1) ents"

definition finalize :: "Structure \<Rightarrow> EntitySetter \<Rightarrow> Structure \<times> EntitySetter" where
  "finalize s chain_to_ent =
     (case finalize_outer 0 (entities s, chain_to_ent) of
        (ents1, chain_to_ent1) \<Rightarrow>
          (case set_model_entities (models s) (s\<lparr>entities := ents1\<rparr>) chain_to_ent1 of
             (ms, s2, chain_to_ent2) \<Rightarrow>
               (s2\<lparr>models := ms, entities := set_ids 1 (entities s2)\<rparr>, chain_to_ent2)))"

section \<open>The reader (pdb.hpp)\<close>

subsection \<open>Record types and lines\<close>

text \<open>
  \<open>is_record_type\<close>: the four bytes are promoted to \<open>int\<close> (32 bits, a signed
  \<open>char\<close> sign-extended), shifted and or-ed; the mask \<open>~0x20202020\<close> clears the case
  bit of each. A string literal of three characters has its terminating NUL as fourth
  byte (\<open>cstr\<close>).
\<close>

definition c_int :: "char \<Rightarrow> 32 word" where
  "c_int c = scast (of_char c :: 8 word)"

definition record_key :: "char \<Rightarrow> char \<Rightarrow> char \<Rightarrow> char \<Rightarrow> 32 word" where
  "record_key c0 c1 c2 c3 =
     push_bit 24 (c_int c0) OR push_bit 16 (c_int c1) OR push_bit 8 (c_int c2) OR c_int c3"

definition cstr :: "string \<Rightarrow> nat \<Rightarrow> char" where
  "cstr lit i = (if i < length lit then lit ! i else NUL)"

definition is_record_type :: "string \<Rightarrow> string \<Rightarrow> error + bool" where
  "is_record_type s record =
     ebind (peek s 0) (\<lambda>s0.
     ebind (peek s 1) (\<lambda>s1.
     ebind (peek s 2) (\<lambda>s2.
     ebind (peek s 3) (\<lambda>s3.
     Inr ((record_key s0 s1 s2 s3 AND NOT 0x20202020)
          = record_key (cstr record 0) (cstr record 1) (cstr record 2) (cstr record 3))))))"

text \<open>
  The branches of the reader test \<open>is_record_type(line, ...)\<close> on its buffer
  \<open>char line[88]\<close>, where the four reads cannot fail.
\<close>

definition is_rec :: "string \<Rightarrow> string \<Rightarrow> bool" where
  "is_rec line record = (is_record_type line record = Inr True)"

text \<open>\<open>std::string(line)\<close>: the bytes before the first NUL.\<close>

definition c_string :: "string \<Rightarrow> string" where
  "c_string line = takeWhile (\<lambda>c. c \<noteq> NUL) line"

text \<open>
  The input is the list of the bytes not yet read. \<open>fgets(line, size, f)\<close> reads at
  most \<open>size - 1\<close> bytes and stops behind a newline; \<open>fgets_bytes\<close> gives the bytes it
  reads and the rest of the input.
\<close>

fun fgets_bytes :: "nat \<Rightarrow> string \<Rightarrow> string \<times> string" where
  "fgets_bytes 0 input = ([], input)"
| "fgets_bytes (Suc n) [] = ([], [])"
| "fgets_bytes (Suc n) (c # input) =
     (if c = LF then ([c], input)
      else case fgets_bytes n input of (cs, rest) \<Rightarrow> (c # cs, rest))"

text \<open>
  \<open>for (int c = in.getc(); c != 0 && c != EOF && c != '\n'; c = in.getc()) continue;\<close>:
  the byte that ends the loop is consumed too.
\<close>

fun discard_rest :: "string \<Rightarrow> string" where
  "discard_rest [] = []"
| "discard_rest (c # input) = (if c = NUL \<or> c = LF then input else discard_rest input)"

text \<open>
  \<open>copy_line_from_stream\<close> returns the new contents of the buffer, the length it
  reports and the rest of the input. The buffer keeps its old bytes behind the NUL that
  \<open>fgets\<close> writes.
\<close>

definition copy_line_from_stream :: "string \<Rightarrow> nat \<Rightarrow> string \<Rightarrow> string \<times> nat \<times> string" where
  "copy_line_from_stream line sz input =
     (case fgets_bytes (sz - 1) input of
        (cs, rest) \<Rightarrow>
          if cs = [] then (line, 0, rest)
          else
            let line' = cs @ [NUL] @ drop (length cs + 1) line;
                len = length (c_string line')
            in if len > 0 \<and> line' ! (len - 1) \<noteq> LF
               then (line', len, discard_rest rest)
               else (line', len, rest))"

subsection \<open>The reader's state\<close>

text \<open>
  The local variables of \<open>read_pdb_from_line_input\<close>. A pointer to a chain is the pair
  of the indices of its model and of the chain in it, a pointer to a residue has the
  index of the residue as well.
\<close>

record Reader =
  st :: Structure
  has_ter :: "string list"
  conn_records :: "string list"
  model_ptr :: "nat option"
  chain_ptr :: "(nat \<times> nat) option"
  resi_ptr :: "(nat \<times> nat \<times> nat) option"
  ent_setter :: EntitySetter
  line_num :: int
  matrix :: Mat4x4

definition wrong :: "Reader \<Rightarrow> string \<Rightarrow> error + 'a" where
  "wrong r msg = Inl (Failure (''Problem in line '' @ to_string (line_num r) @ '': '' @ msg))"

definition get_model :: "Reader \<Rightarrow> nat \<Rightarrow> error + Model" where
  "get_model r mi =
     (if mi < length (models (st r)) then Inr (models (st r) ! mi) else Inl NullPointer)"

definition get_chain :: "Reader \<Rightarrow> nat \<times> nat \<Rightarrow> error + Chain" where
  "get_chain r p =
     (case p of (mi, ci) \<Rightarrow>
        ebind (get_model r mi) (\<lambda>m.
        if ci < length (chains m) then Inr (chains m ! ci) else Inl NullPointer))"

definition get_residue :: "Reader \<Rightarrow> nat \<times> nat \<times> nat \<Rightarrow> error + Residue" where
  "get_residue r p =
     (case p of (mi, ci, ri) \<Rightarrow>
        ebind (get_chain r (mi, ci)) (\<lambda>c.
        if ri < length (residues c) then Inr (residues c ! ri) else Inl NullPointer))"

definition put_model :: "Reader \<Rightarrow> nat \<Rightarrow> Model \<Rightarrow> Reader" where
  "put_model r mi m = r\<lparr>st := (st r)\<lparr>models := (models (st r))[mi := m]\<rparr>\<rparr>"

definition put_chain :: "Reader \<Rightarrow> nat \<times> nat \<Rightarrow> Chain \<Rightarrow> Reader" where
  "put_chain r p c =
     (case p of (mi, ci) \<Rightarrow>
        let m = models (st r) ! mi
        in put_model r mi (m\<lparr>chains := (chains m)[ci := c]\<rparr>))"

definition put_residue :: "Reader \<Rightarrow> nat \<times> nat \<times> nat \<Rightarrow> Residue \<Rightarrow> Reader" where
  "put_residue r p res =
     (case p of (mi, ci, ri) \<Rightarrow>
        let c = chains (models (st r) ! mi) ! ci
        in put_chain r (mi, ci) (c\<lparr>residues := (residues c)[ri := res]\<rparr>))"

subsection \<open>ATOM and HETATM\<close>

text \<open>
  The block \<open>if (!chain || chain_name != chain->auth_name) { ... }\<close>.
\<close>

definition open_chain :: "Reader \<Rightarrow> string \<Rightarrow> error + Reader" where
  "open_chain r name =
     ebind (case chain_ptr r of
              None \<Rightarrow> Inr True
            | Some p \<Rightarrow> ebind (get_chain r p) (\<lambda>c. Inr (name \<noteq> auth_name c))) (\<lambda>other.
     if other then
       (case model_ptr r of
          None \<Rightarrow> wrong r ''ATOM/HETATM between models''
        | Some mi \<Rightarrow>
            ebind (get_model r mi) (\<lambda>m.
            let ter = (model_name m @ ''/'' @ name) \<in> set (has_ter r)
            in case find_or_add_chain m (name @ (if ter then ''_H'' else [])) of
                 (ci, m') \<Rightarrow>
                   let c = chains m' ! ci;
                       m'' = m'\<lparr>chains := (chains m')[ci := c\<lparr>auth_name := name\<rparr>]\<rparr>
                   in Inr ((put_model r mi m'')\<lparr>chain_ptr := Some (mi, ci), resi_ptr := None\<rparr>)))
     else Inr r)"

text \<open>\<open>if (!resi || !resi->matches(rid)) resi = chain->find_or_add_residue(rid);\<close>\<close>

definition select_residue :: "Reader \<Rightarrow> ResidueId \<Rightarrow> error + Reader" where
  "select_residue r rid =
     ebind (case resi_ptr r of
              None \<Rightarrow> Inr True
            | Some p \<Rightarrow> ebind (get_residue r p) (\<lambda>res. Inr (\<not> matches res rid))) (\<lambda>other.
     if other then
       (case chain_ptr r of
          None \<Rightarrow> Inl NullPointer
        | Some (mi, ci) \<Rightarrow>
            ebind (get_chain r (mi, ci)) (\<lambda>c.
            case find_or_add_residue c rid of
              (ri, c') \<Rightarrow> Inr ((put_chain r (mi, ci) c')\<lparr>resi_ptr := Some (mi, ci, ri)\<rparr>)))
     else Inr r)"

text \<open>
  The fields of the atom. \<open>line[0] & ~0x20\<close> clears the case bit of the first byte;
  the anisotropic parameters of a new atom are zero.
\<close>

definition clear_case_bit :: "char \<Rightarrow> char" where
  "clear_case_bit c = char_of ((of_char c :: nat) AND 223)"

definition read_atom :: "string \<Rightarrow> nat \<Rightarrow> error + Atom" where
  "read_atom line len =
     ebind (read_string (drop 12 line) 4) (\<lambda>name.
     ebind (peek line 0) (\<lambda>c0.
     ebind (peek line 16) (\<lambda>c16.
     ebind (if len > 78
            then ebind (peek line 78) (\<lambda>c78. ebind (peek line 79) (\<lambda>c79. read_charge c78 c79))
            else Inr 0) (\<lambda>q.
     ebind (peek line 76) (\<lambda>c76.
     ebind (peek line 77) (\<lambda>c77.
     ebind (read_double (drop 30 line) 8) (\<lambda>px.
     ebind (read_double (drop 38 line) 8) (\<lambda>py.
     ebind (read_double (drop 46 line) 8) (\<lambda>pz.
     ebind (read_double (drop 54 line) 6) (\<lambda>oc.
     ebind (read_double (drop 60 line) 6) (\<lambda>b.
     Inr \<lparr>atom_name = name, altloc = blank_to_nul c16, atom_group = clear_case_bit c0,
          charge = q, element = [c76, c77], pos = (px, py, pz), occ = oc, b_iso = b,
          u11 = 0, u22 = 0, u33 = 0, u12 = 0, u13 = 0, u23 = 0\<rparr>)))))))))))"

definition append_atom :: "Reader \<Rightarrow> Atom \<Rightarrow> error + Reader" where
  "append_atom r atom =
     (case resi_ptr r of
        None \<Rightarrow> Inl NullPointer
      | Some p \<Rightarrow>
          ebind (get_residue r p) (\<lambda>res.
          Inr (put_residue r p (res\<lparr>atoms := atoms res @ [atom]\<rparr>))))"

definition on_atom :: "Reader \<Rightarrow> string \<Rightarrow> nat \<Rightarrow> error + Reader" where
  "on_atom r line len =
     (if len < 77
      then wrong r (''The line is too short to be correct:'' @ [LF] @ c_string line)
      else
        ebind (read_string (drop 20 line) 2) (\<lambda>name.
        ebind (open_chain r name) (\<lambda>r1.
        ebind (read_snic (drop 22 line)) (\<lambda>sn.
        ebind (read_string (drop 17 line) 3) (\<lambda>rname.
        ebind (read_string (drop 72 line) 4) (\<lambda>seg.
        ebind (select_residue r1 \<lparr>snic = sn, segment = seg, res_name = rname\<rparr>) (\<lambda>r2.
        ebind (read_atom line len) (\<lambda>atom.
        append_atom r2 atom))))))))"

subsection \<open>ANISOU\<close>

definition read_u :: "string \<Rightarrow> error + real" where
  "read_u p = ebind (read_int p 7) (\<lambda>n. Inr (real_of_int n * (1 / 10000)))"

definition on_anisou :: "Reader \<Rightarrow> string \<Rightarrow> error + Reader" where
  "on_anisou r line =
     (case (model_ptr r, chain_ptr r, resi_ptr r) of
        (Some mi, Some cp, Some p) \<Rightarrow>
          ebind (get_residue r p) (\<lambda>res.
          if atoms res = []
          then wrong r ''ANISOU record not directly after ATOM/HETATM.''
          else
            let atom = last (atoms res)
            in if u11 atom \<noteq> 0
               then wrong r ''Duplicated ANISOU record or not directly after ATOM/HETATM.''
               else
                 ebind (read_u (drop 28 line)) (\<lambda>v11.
                 ebind (read_u (drop 35 line)) (\<lambda>v22.
                 ebind (read_u (drop 42 line)) (\<lambda>v33.
                 ebind (read_u (drop 49 line)) (\<lambda>v12.
                 ebind (read_u (drop 56 line)) (\<lambda>v13.
                 ebind (read_u (drop 63 line)) (\<lambda>v23.
                 Inr (put_residue r p
                        (res\<lparr>atoms := butlast (atoms res) @
                               [atom\<lparr>u11 := v11, u22 := v22, u33 := v33,
                                     u12 := v12, u13 := v13, u23 := v23\<rparr>]\<rparr>)))))))))
      | _ \<Rightarrow> wrong r ''ANISOU record not directly after ATOM/HETATM.'')"

subsection \<open>SEQRES\<close>

text \<open>\<open>ent->sequence.emplace_back(res_name)\<close> through the pointer \<open>ent\<close>.\<close>

definition push_monomer :: "nat \<Rightarrow> string \<Rightarrow> (nat \<times> Entity) list \<Rightarrow> (nat \<times> Entity) list" where
  "push_monomer ent mon ents =
     map (\<lambda>(a, e). if a = ent then (a, e\<lparr>sequence := sequence e @ [mon]\<rparr>) else (a, e)) ents"

text \<open>The loop \<open>for (int i = 19; i < 68; i += 4)\<close>.\<close>

function seqres_loop :: "string \<Rightarrow> nat \<Rightarrow> nat \<Rightarrow> (nat \<times> Entity) list \<Rightarrow> error + (nat \<times> Entity) list" where
  "seqres_loop line i ent ents =
     (if i < 68 then
        (case read_string (drop i line) 3 of
           Inl e \<Rightarrow> Inl e
         | Inr mon \<Rightarrow>
             seqres_loop line (i + 4) ent (if mon \<noteq> [] then push_monomer ent mon ents else ents))
      else Inr ents)"
  by pat_completeness auto
termination
  by (relation "measure (\<lambda>(line, i, ent, ents). 68 - i)") auto

declare seqres_loop.simps [simp del]

definition on_seqres :: "Reader \<Rightarrow> string \<Rightarrow> error + Reader" where
  "on_seqres r line =
     ebind (read_string (drop 10 line) 2) (\<lambda>name.
     case set_for_chain (st r) (ent_setter r) name Polymer of
       (ent, s1, setter1) \<Rightarrow>
         ebind (seqres_loop line 19 ent (entities s1)) (\<lambda>ents.
         Inr (r\<lparr>st := s1\<lparr>entities := ents\<rparr>, ent_setter := setter1\<rparr>)))"

subsection \<open>CRYST1 and the matrix records\<close>

text \<open>
  Of the CRYST1 record only the call to \<open>cell.set\<close> is modelled (\<open>sg_hm\<close> and \<open>info\<close>
  are not part of the model). A failure of \<open>set\<close> leaves the reader.
\<close>

definition on_cryst1 ::
  "(real \<Rightarrow> real) \<Rightarrow> (real \<Rightarrow> real) \<Rightarrow> Reader \<Rightarrow> string \<Rightarrow> nat \<Rightarrow> error + Reader" where
  "on_cryst1 fsin fcos r line len =
     (if len > 54 then
        ebind (read_double (drop 6 line) 9) (\<lambda>a.
        ebind (read_double (drop 15 line) 9) (\<lambda>b.
        ebind (read_double (drop 24 line) 9) (\<lambda>c.
        ebind (read_double (drop 33 line) 7) (\<lambda>al.
        ebind (read_double (drop 40 line) 7) (\<lambda>be.
        ebind (read_double (drop 47 line) 7) (\<lambda>ga.
        case UnitCell_set fsin fcos (st_cell (st r)) a b c al be ga of
          (cell', Some e) \<Rightarrow> Inl e
        | (cell', None) \<Rightarrow> Inr (r\<lparr>st := (st r)\<lparr>st_cell := cell'\<rparr>\<rparr>)))))))
      else Inr r)"

text \<open>\<open>char n = line[5] - '0'\<close>: the difference, an \<open>int\<close>, is narrowed to a \<open>char\<close>.\<close>

definition to_schar :: "int \<Rightarrow> int" where
  "to_schar v = (v + 128) mod 256 - 128"

definition read_matrix :: "Mat4x4 \<Rightarrow> string \<Rightarrow> nat \<Rightarrow> error + (int \<times> Mat4x4)" where
  "read_matrix m line len =
     (if len < 46 then Inr (0, m)
      else
        ebind (peek line 5) (\<lambda>c5.
        let n = to_schar (schar c5 - 48)
        in if 1 \<le> n \<and> n \<le> 3 then
             ebind (read_double (drop 10 line) 10) (\<lambda>vx.
             ebind (read_double (drop 20 line) 10) (\<lambda>vy.
             ebind (read_double (drop 30 line) 10) (\<lambda>vz.
             ebind (read_double (drop 45 line) 10) (\<lambda>vw.
             Inr (n, m\<lparr>col_x := (col_x m)[nat (n - 1) := vx],
                       col_y := (col_y m)[nat (n - 1) := vy],
                       col_z := (col_z m)[nat (n - 1) := vz],
                       col_w := (col_w m)[nat (n - 1) := vw]\<rparr>)))))
           else Inr (n, m)))"

definition on_mtrix :: "Reader \<Rightarrow> string \<Rightarrow> nat \<Rightarrow> error + Reader" where
  "on_mtrix r line len =
     ebind (read_matrix (matrix r) line len) (\<lambda>(n, m).
     if n = 3 \<and> m \<noteq> identity44 then
       ebind (if len > 59 then ebind (peek line 59) (\<lambda>c. Inr (c = CHR ''1'')) else Inr False)
         (\<lambda>giv.
       ebind (read_string (drop 7 line) 3) (\<lambda>ident.
       Inr (r\<lparr>st := (st r)\<lparr>ncs := ncs (st r) @
                        [\<lparr>ncs_id = ident, given = giv, ncs_transform = m\<rparr>]\<rparr>,
              matrix := identity44\<rparr>)))
     else Inr (r\<lparr>matrix := m\<rparr>))"

definition on_scale :: "Reader \<Rightarrow> string \<Rightarrow> nat \<Rightarrow> error + Reader" where
  "on_scale r line len =
     ebind (read_matrix (matrix r) line len) (\<lambda>(n, m).
     if n = 3 then
       Inr (r\<lparr>st := (st r)\<lparr>st_cell :=
                   set_matrices_from_fract (st_cell (st r)) (Transform_of_Mat4x4 m)\<rparr>,
              matrix := identity44\<rparr>)
     else Inr (r\<lparr>matrix := m\<rparr>))"

definition on_origx :: "Reader \<Rightarrow> string \<Rightarrow> nat \<Rightarrow> error + Reader" where
  "on_origx r line len =
     ebind (read_matrix (matrix r) line len) (\<lambda>(n, m).
     if n = 3 then Inr (r\<lparr>st := (st r)\<lparr>origx := m\<rparr>, matrix := m\<rparr>)
     else Inr (r\<lparr>matrix := m\<rparr>))"

subsection \<open>MODEL, ENDMDL and TER\<close>

definition on_model :: "Reader \<Rightarrow> string \<Rightarrow> error + Reader" where
  "on_model r line =
     (if model_ptr r \<noteq> None \<and> chain_ptr r \<noteq> None then wrong r ''MODEL without ENDMDL?''
      else
        ebind (read_int (drop 10 line) 4) (\<lambda>n.
        let name = to_string n
        in case find_or_add_model (st r) name of
             (mi, s1) \<Rightarrow>
               if chains (models s1 ! mi) \<noteq> []
               then wrong r (''duplicate MODEL number: '' @ name)
               else Inr (r\<lparr>st := s1, model_ptr := Some mi, chain_ptr := None\<rparr>)))"

definition on_endmdl :: "Reader \<Rightarrow> Reader" where
  "on_endmdl r = r\<lparr>model_ptr := None, chain_ptr := None\<rparr>"

definition on_ter :: "Reader \<Rightarrow> error + Reader" where
  "on_ter r =
     (case chain_ptr r of
        None \<Rightarrow> Inr (r\<lparr>chain_ptr := None\<rparr>)
      | Some p \<Rightarrow>
          (case model_ptr r of
             None \<Rightarrow> Inl NullPointer
           | Some mi \<Rightarrow>
               ebind (get_model r mi) (\<lambda>m.
               ebind (get_chain r p) (\<lambda>c.
               Inr (r\<lparr>has_ter := has_ter r @ [model_name m @ ''/'' @ chain_name c],
                      chain_ptr := None\<rparr>)))))"

subsection \<open>The loop\<close>

text \<open>
  One turn of the loop \<open>while (size_t len = copy_line_from_stream(line, 82, infile))\<close>,
  from \<open>++line_num\<close> on; the result says whether the loop was left with \<open>break\<close>.
  REMARK and CONECT are ignored by the source; HEADER, TITLE, KEYWDS and EXPDTA only
  write \<open>st.info\<close>, which is not part of the model, and cannot fail.
\<close>

definition dispatch ::
  "(real \<Rightarrow> real) \<Rightarrow> (real \<Rightarrow> real) \<Rightarrow> Reader \<Rightarrow> string \<Rightarrow> nat \<Rightarrow> error + (Reader \<times> bool)" where
  "dispatch fsin fcos r0 line len =
     (let r = r0\<lparr>line_num := line_num r0 + 1\<rparr>;
          continue = (\<lambda>res. ebind res (\<lambda>r'. Inr (r', False)))
      in if length line \<noteq> 88 then Inl OutOfBounds
         else if is_rec line ''ATOM'' \<or> is_rec line ''HETATM'' then continue (on_atom r line len)
         else if is_rec line ''ANISOU'' then continue (on_anisou r line)
         else if is_rec line ''REMARK'' then Inr (r, False)
         else if is_rec line ''CONECT'' then Inr (r, False)
         else if is_rec line ''SEQRES'' then continue (on_seqres r line)
         else if is_rec line ''HEADER'' then Inr (r, False)
         else if is_rec line ''TITLE'' then Inr (r, False)
         else if is_rec line ''KEYWDS'' then Inr (r, False)
         else if is_rec line ''EXPDTA'' then Inr (r, False)
         else if is_rec line ''CRYST1'' then continue (on_cryst1 fsin fcos r line len)
         else if is_rec line ''MTRIXn'' then continue (on_mtrix r line len)
         else if is_rec line ''MODEL'' then continue (on_model r line)
         else if is_rec line ''ENDMDL'' then Inr (on_endmdl r, False)
         else if is_rec line ''TER'' then continue (on_ter r)
         else if is_rec line ''SCALEn'' then continue (on_scale r line len)
         else if is_rec line ''ORIGX'' then continue (on_origx r line len)
         else if is_rec line ''SSBOND''
           then Inr (if length (c_string line) > 34
                     then r\<lparr>conn_records := conn_records r @ [c_string line]\<rparr> else r, False)
         else if is_rec line ''CISPEP''
           then Inr (if length (c_string line) > 21
                     then r\<lparr>conn_records := conn_records r @ [c_string line]\<rparr> else r, False)
         else if is_rec line ''END'' then Inr (r, True)
         else Inr (r, False))"

lemma fgets_bytes_length:
  "fgets_bytes n input = (cs, rest) \<Longrightarrow> length cs + length rest = length input"
proof (induction n input arbitrary: cs rest rule: fgets_bytes.induct)
  case (1 input)
  then show ?case by simp
next
  case (2 n)
  then show ?case by simp
next
  case (3 n c input)
  show ?case
  proof (cases "c = LF")
    case True
    with 3(2) show ?thesis by auto
  next
    case False
    obtain cs' rest' where r: "fgets_bytes n input = (cs', rest')"
      by (cases "fgets_bytes n input") auto
    from 3(1) [OF False r] 3(2) False r show ?thesis by auto
  qed
qed

lemma discard_rest_length: "length (discard_rest input) \<le> length input"
  by (induction input) auto

lemma copy_line_consumes:
  assumes "copy_line_from_stream line sz input = (line', len, rest)" and "len \<noteq> 0"
  shows "length rest < length input"
proof -
  obtain cs rest0 where f: "fgets_bytes (sz - 1) input = (cs, rest0)"
    by (cases "fgets_bytes (sz - 1) input") auto
  have ne: "cs \<noteq> []"
    using assms f by (auto simp add: copy_line_from_stream_def)
  have "length rest \<le> length rest0"
    using assms f ne discard_rest_length [of rest0]
    by (auto simp add: copy_line_from_stream_def Let_def split: if_splits)
  moreover have "length rest0 < length input"
    using fgets_bytes_length [OF f] ne by (cases cs) auto
  ultimately show ?thesis by simp
qed

function read_records ::
  "(real \<Rightarrow> real) \<Rightarrow> (real \<Rightarrow> real) \<Rightarrow> string \<Rightarrow> string \<Rightarrow> Reader \<Rightarrow> error + Reader" where
  "read_records fsin fcos input line r =
     (case copy_line_from_stream line 82 input of
        (line', len, rest) \<Rightarrow>
          if len = 0 then Inr r
          else (case dispatch fsin fcos r line' len of
                  Inl e \<Rightarrow> Inl e
                | Inr (r', stop) \<Rightarrow>
                    if stop then Inr r' else read_records fsin fcos rest line' r'))"
  by pat_completeness auto
termination
  by (relation "measure (\<lambda>(fsin, fcos, input, line, r). length input)")
    (auto dest: copy_line_consumes [OF sym])

declare read_records.simps [simp del]

text \<open>
  The state before the loop: the Structure with the model \<open>"1"\<close> that
  \<open>find_or_add_model\<close> has added, no chain, the identity in the matrix accumulator.
\<close>

definition Structure_default :: Structure where
  "Structure_default =
     \<lparr>models = [], entities = [], st_cell = UnitCell_default, origx = identity44, ncs = []\<rparr>"

definition Reader_init :: Reader where
  "Reader_init =
     (case find_or_add_model Structure_default ''1'' of
        (mi, s) \<Rightarrow>
          \<lparr>st = s, has_ter = [], conn_records = [], model_ptr = Some mi, chain_ptr = None,
           resi_ptr = None, ent_setter = Map.empty, line_num = 0, matrix = identity44\<rparr>)"

text \<open>
  The loop over the chains after \<open>finalize\<close>:
  \<open>if (in_vector(mod.name + "/" + ch.name, has_ter)) ch.entity->type = EntityType::Polymer;\<close>
\<close>

definition set_type :: "nat \<Rightarrow> EntityType \<Rightarrow> (nat \<times> Entity) list \<Rightarrow> (nat \<times> Entity) list" where
  "set_type ent type ents =
     map (\<lambda>(a, e). if a = ent then (a, e\<lparr>entity_type := type\<rparr>) else (a, e)) ents"

fun mark_chains ::
  "string \<Rightarrow> string list \<Rightarrow> Chain list \<Rightarrow> (nat \<times> Entity) list \<Rightarrow> error + (nat \<times> Entity) list" where
  "mark_chains mname ters [] ents = Inr ents"
| "mark_chains mname ters (ch # chs) ents =
     (if (mname @ ''/'' @ chain_name ch) \<in> set ters
      then (case entity ch of
              None \<Rightarrow> Inl NullPointer
            | Some ent \<Rightarrow> mark_chains mname ters chs (set_type ent Polymer ents))
      else mark_chains mname ters chs ents)"

fun mark_models ::
  "string list \<Rightarrow> Model list \<Rightarrow> (nat \<times> Entity) list \<Rightarrow> error + (nat \<times> Entity) list" where
  "mark_models ters [] ents = Inr ents"
| "mark_models ters (m # ms) ents =
     ebind (mark_chains (model_name m) ters (chains m) ents) (mark_models ters ms)"

text \<open>
  \<open>read_pdb_from_line_input\<close> up to the loop that marks the polymers. What follows in
  the source, \<open>st.finish()\<close> (not among the sources) and \<open>process_conn\<close>, is not
  modelled.
\<close>

definition read_pdb_from_line_input ::
  "(real \<Rightarrow> real) \<Rightarrow> (real \<Rightarrow> real) \<Rightarrow> string \<Rightarrow> error + Structure" where
  "read_pdb_from_line_input fsin fcos input =
     ebind (read_records fsin fcos input (replicate 88 NUL) Reader_init) (\<lambda>r.
     case finalize (st r) (ent_setter r) of
       (s1, setter1) \<Rightarrow>
         ebind (mark_models (has_ter r) (models s1) (entities s1)) (\<lambda>ents.
         Inr (s1\<lparr>entities := ents\<rparr>)))"

section \<open>Notions for the statements about the entity setter\<close>

text \<open>
  These are not functions of the program. \<open>first_occurrences\<close> is what the two nested
  loops of \<open>finalize\<close> compute on the entity list, \<open>live\<close> says that every pointer of
  \<open>chain_to_ent_\<close> is owned by the Structure, and \<open>merge_inv\<close> is the invariant of the
  loops.
\<close>

definition differs :: "nat \<times> Entity \<Rightarrow> nat \<times> Entity \<Rightarrow> bool" where
  "differs e x = (\<not> same_entity (sequence (snd x)) (sequence (snd e)))"

function first_occurrences :: "(nat \<times> Entity) list \<Rightarrow> (nat \<times> Entity) list" where
  "first_occurrences [] = []"
| "first_occurrences (e # es) = e # first_occurrences (filter (differs e) es)"
  by pat_completeness auto
termination
  by (relation "measure length") (auto simp add: le_imp_less_Suc)







section \<open>Notions and inputs for the statements about the reader\<close>

text \<open>
  The names of the chains of the Structure (\<open>skeleton\<close>), the name that
  \<open>find_or_add_chain\<close> is called with for a chain name of the file (\<open>closed_name\<close>),
  the invariant of the reader's pointers (\<open>chain_inv\<close>) and the states that the loop
  goes through from a given state (\<open>reaches\<close>). A record that leaves the names, the
  pointers and \<open>has_ter\<close> as they are leaves the reader \<open>unmoved\<close>.
\<close>

definition chain_names :: "Chain \<Rightarrow> string \<times> string" where
  "chain_names c = (chain_name c, auth_name c)"

definition skeleton :: "Reader \<Rightarrow> (string \<times> (string \<times> string) list) list" where
  "skeleton r = map (\<lambda>m. (model_name m, map chain_names (chains m))) (models (st r))"

definition closed_name :: "string list \<Rightarrow> string \<Rightarrow> string \<Rightarrow> string" where
  "closed_name ters mname auth = auth @ (if (mname @ ''/'' @ auth) \<in> set ters then ''_H'' else [])"

definition chain_inv :: "Reader \<Rightarrow> bool" where
  "chain_inv r =
     (case chain_ptr r of
        None \<Rightarrow> True
      | Some (mi, ci) \<Rightarrow>
          model_ptr r = Some mi \<and> mi < length (skeleton r) \<and>
          ci < length (snd (skeleton r ! mi)) \<and>
          fst (snd (skeleton r ! mi) ! ci) =
            closed_name (has_ter r) (fst (skeleton r ! mi)) (snd (snd (skeleton r ! mi) ! ci)) \<and>
          (case resi_ptr r of None \<Rightarrow> True | Some (mj, cj, ri) \<Rightarrow> mj = mi \<and> cj = ci))"

inductive reaches :: "(real \<Rightarrow> real) \<Rightarrow> (real \<Rightarrow> real) \<Rightarrow> Reader \<Rightarrow> Reader \<Rightarrow> bool"
  for fsin fcos
  where
    start: "reaches fsin fcos r r"
  | turn: "reaches fsin fcos r r1 \<Longrightarrow> dispatch fsin fcos r1 line len = Inr (r2, stop) \<Longrightarrow>
           reaches fsin fcos r r2"

definition unmoved :: "Reader \<Rightarrow> Reader \<Rightarrow> bool" where
  "unmoved r r' =
     (skeleton r' = skeleton r \<and> has_ter r' = has_ter r \<and> model_ptr r' = model_ptr r \<and>
      chain_ptr r' = chain_ptr r \<and> resi_ptr r' = resi_ptr r)"

definition chain_at :: "Reader \<Rightarrow> nat \<Rightarrow> nat \<Rightarrow> Chain" where
  "chain_at r mi ci = chains (models (st r) ! mi) ! ci"

definition valid_chain :: "Reader \<Rightarrow> nat \<Rightarrow> nat \<Rightarrow> bool" where
  "valid_chain r mi ci =
     (mi < length (models (st r)) \<and> ci < length (chains (models (st r) ! mi)))"

text \<open>
  An ATOM record of chain \<open>A\<close>, a TER record, a HETATM record of chain \<open>A\<close>, and the
  states of the reader after each of them.
\<close>

definition atom_line :: string where
  "atom_line = ''ATOM      1  N   ALA A   1       1.000   2.000   3.000  1.00  0.00           N  '' @ [LF] @ replicate 7 NUL"

definition ter_line :: string where
  "ter_line = ''TER                                                                             '' @ [LF] @ replicate 7 NUL"

definition hetatm_line :: string where
  "hetatm_line = ''HETATM    2 ZN    ZN A   2       5.000   5.000   5.000  1.00  0.00          ZN  '' @ [LF] @ replicate 7 NUL"

definition chain_A :: Chain where
  "chain_A =
     \<lparr>chain_name = ''A'', auth_name = ''A'',
      residues = [\<lparr>snic = (1, NUL), segment = [], res_name = ''ALA'',
                   atoms = [\<lparr>atom_name = ''N'', altloc = NUL, atom_group = CHR ''A'', charge = 0,
                   element = '' N'', pos = (1, 2, 3), occ = 1, b_iso = 0,
                   u11 = 0, u22 = 0, u33 = 0, u12 = 0, u13 = 0, u23 = 0\<rparr>]\<rparr>],
      entity = None\<rparr>"

definition chain_A_H :: Chain where
  "chain_A_H =
     \<lparr>chain_name = ''A_H'', auth_name = ''A'',
      residues = [\<lparr>snic = (2, NUL), segment = [], res_name = ''ZN'',
                   atoms = [\<lparr>atom_name = ''ZN'', altloc = NUL, atom_group = CHR ''H'', charge = 0,
                   element = ''ZN'', pos = (5, 5, 5), occ = 1, b_iso = 0,
                   u11 = 0, u22 = 0, u33 = 0, u12 = 0, u13 = 0, u23 = 0\<rparr>]\<rparr>],
      entity = None\<rparr>"

definition after_atom :: Reader where
  "after_atom =
     \<lparr>st = \<lparr>models = [\<lparr>model_name = ''1'', chains = [chain_A]\<rparr>], entities = [],
             st_cell = UnitCell_default, origx = identity44, ncs = []\<rparr>,
      has_ter = [], conn_records = [], model_ptr = Some 0, chain_ptr = Some (0, 0),
      resi_ptr = Some (0, 0, 0), ent_setter = Map.empty, line_num = 1, matrix = identity44\<rparr>"

definition after_ter :: Reader where
  "after_ter = after_atom\<lparr>has_ter := [''1/A''], chain_ptr := None, line_num := 2\<rparr>"

definition after_hetatm :: Reader where
  "after_hetatm =
     \<lparr>st = \<lparr>models = [\<lparr>model_name = ''1'', chains = [chain_A, chain_A_H]\<rparr>], entities = [],
             st_cell = UnitCell_default, origx = identity44, ncs = []\<rparr>,
      has_ter = [''1/A''], conn_records = [], model_ptr = Some 0, chain_ptr = Some (0, 1),
      resi_ptr = Some (0, 1, 0), ent_setter = Map.empty, line_num = 3, matrix = identity44\<rparr>"

text \<open>
  A file of three ORIGX records whose matrix is twice the identity, and the state of
  the reader at the end of this file.
\<close>

definition origx_file :: string where
  "origx_file =
     ''ORIGX1      2.000000  0.000000  0.000000        0.00000                         '' @ [LF] @
     ''ORIGX2      0.000000  2.000000  0.000000        0.00000                         '' @ [LF] @
     ''ORIGX3      0.000000  0.000000  2.000000        0.00000                         '' @ [LF]"

definition origx_final :: Reader where
  "origx_final =
     \<lparr>st = \<lparr>models = [\<lparr>model_name = ''1'', chains = []\<rparr>], entities = [],
             st_cell = UnitCell_default,
             origx = \<lparr>col_x = [2, 0, 0, 0], col_y = [0, 2, 0, 0], col_z = [0, 0, 2, 0],
                      col_w = [0, 0, 0, 1]\<rparr>,
             ncs = []\<rparr>,
      has_ter = [], conn_records = [], model_ptr = Some 0, chain_ptr = None, resi_ptr = None,
      ent_setter = Map.empty, line_num = 3,
      matrix = \<lparr>col_x = [2, 0, 0, 0], col_y = [0, 2, 0, 0], col_z = [0, 0, 2, 0],
                 col_w = [0, 0, 0, 1]\<rparr>\<rparr>"

section \<open>Properties of the field scanners\<close>

subsection \<open>Characters\<close>

lemma schar_char_of: "k < 128 \<Longrightarrow> schar (char_of (k::nat)) = int k"
proof -
  assume k: "k < 128"
  have "(of_char (char_of k) :: int) = int (of_char (char_of k))"
    by (simp only: of_nat_of_char)
  also have "\<dots> = int (k mod 256)" by simp
  also have "\<dots> = int k" using k by simp
  finally have "(of_char (char_of k) :: int) = int k" .
  with k show ?thesis by (simp add: schar_def)
qed

lemma char_of_nat_eval:
  "char_of (n::nat) = Char (odd n) (odd (n div 2)) (odd (n div 4)) (odd (n div 8))
     (odd (n div 16)) (odd (n div 32)) (odd (n div 64)) (odd (n div 128))"
  by (simp add: char_of_def bit_iff_odd)

lemma schar_space: "schar (CHR '' '') = 32"
  by (simp add: schar_def)

lemma schar_minus: "schar (CHR ''-'') = 45"
  by (simp add: schar_def)

lemma schar_plus: "schar (CHR ''+'') = 43"
  by (simp add: schar_def)

lemma space_props: "isspace (CHR '' '')" "schar (CHR '' '') < 65"
  by (simp_all add: isspace_def schar_def)

lemma schar_dec_digit: "d < 10 \<Longrightarrow> schar (dec_digit d) = 48 + int d"
  by (simp add: dec_digit_def schar_char_of)

lemma dec_digit_props:
  assumes "d < 10"
  shows "is_digit (dec_digit d)" "\<not> isspace (dec_digit d)" "dec_digit d \<noteq> CHR ''-''"
    "dec_digit d \<noteq> CHR ''+''" "schar (dec_digit d) < 65"
proof -
  note s = schar_dec_digit [OF assms]
  show "is_digit (dec_digit d)" using assms s by (simp add: is_digit_def)
  show "\<not> isspace (dec_digit d)" using assms s by (simp add: isspace_def)
  show "dec_digit d \<noteq> CHR ''-''" using s schar_minus by auto
  show "dec_digit d \<noteq> CHR ''+''" using s schar_plus by auto
  show "schar (dec_digit d) < 65" using assms s by simp
qed

lemma schar_b36_digit:
  "d < 36 \<Longrightarrow> schar (b36_digit d) = (if d < 10 then 48 + int d else 55 + int d)"
  by (simp add: b36_digit_def schar_char_of)

lemma digit36_b36_digit: "d < 36 \<Longrightarrow> digit36 (b36_digit d) = Some (int d)"
  by (simp add: digit36_def schar_b36_digit)

lemma b36_letter_props:
  assumes "10 \<le> d" "d < 36"
  shows "\<not> schar (b36_digit d) < 65" "\<not> isspace (b36_digit d)" "b36_digit d \<noteq> CHR ''-''"
    "b36_digit d \<noteq> CHR ''+''"
proof -
  have s: "schar (b36_digit d) = 55 + int d"
    using assms by (simp add: schar_b36_digit)
  show "\<not> schar (b36_digit d) < 65" using assms s by simp
  show "\<not> isspace (b36_digit d)" using assms s by (simp add: isspace_def)
  show "b36_digit d \<noteq> CHR ''-''" using assms s schar_minus by auto
  show "b36_digit d \<noteq> CHR ''+''" using assms s schar_plus by auto
qed

subsection \<open>Blank fields\<close>

lemma skip_spaces_blank:
  "i \<le> n \<Longrightarrow> skip_spaces (replicate n (CHR '' '') @ rest) n i = Inr n"
proof (induction "n - i" arbitrary: i)
  case 0
  then show ?case by (simp add: skip_spaces.simps)
next
  case (Suc k)
  then have "i < n" by simp
  moreover have "skip_spaces (replicate n (CHR '' '') @ rest) n (i + 1) = Inr n"
    using Suc by simp
  ultimately show ?case
    by (subst skip_spaces.simps) (simp add: peek_def nth_append space_props)
qed

text \<open>
  With one more byte behind the field (as in the 88-byte line buffer of the reader),
  a blank field reads as zero, whatever that byte is.
\<close>

lemma read_int_blank_next:
  "read_int (replicate n (CHR '' '') @ c # rest) n = Inr 0"
  using skip_spaces_blank [of 0 n "c # rest"]
  by (simp add: read_int_def ebind_def read_sign_def peek_def nth_append read_digits.simps)

lemma read_double_blank_next:
  "read_double (replicate n (CHR '' '') @ c # rest) n = Inr 0"
  using skip_spaces_blank [of 0 n "c # rest"]
  by (simp add: read_double_def ebind_def read_sign_def peek_def nth_append read_digits_d.simps)

lemma ltrim_blank: "ltrim (replicate n (CHR '' '') @ rest) n = Inr (rest, 0)"
proof (induction n)
  case 0
  show ?case by (simp add: ltrim.simps)
next
  case (Suc n)
  then show ?case by (subst ltrim.simps) (simp add: peek_def space_props)
qed

text \<open>
  \<open>read_string\<close> on a blank field returns the empty string and stays inside the
  field: with no byte behind the field at all (\<open>rest = []\<close>) it still succeeds.
\<close>

lemma read_string_blank: "read_string (replicate n (CHR '' '') @ rest) n = Inr []"
  by (simp add: read_string_def ebind_def ltrim_blank find_eol.simps rtrim.simps)

text \<open>
  Claim C4 (column safety of the scanners on a blank field). The claim says that on a
  buffer of exactly \<open>field_length\<close> spaces \<open>read_int\<close> and \<open>read_double\<close> return 0
  and read no byte at or beyond index \<open>field_length\<close>. The source does not do that:
  after the loop over the spaces \<open>i\<close> equals \<open>field_length\<close>, and the sign test
  \<open>p[i] == '-'\<close> reads \<open>p[field_length]\<close>, the first byte behind the buffer. In the
  model the read is out of bounds, for every field length.
\<close>

theorem blank_field_read_past_end:
  "read_int (replicate n (CHR '' '')) n = Inl OutOfBounds \<and>
   read_double (replicate n (CHR '' '')) n = Inl OutOfBounds"
proof
  show "read_int (replicate n (CHR '' '')) n = Inl OutOfBounds"
    using skip_spaces_blank [of 0 n "[]"]
    by (simp add: read_int_def ebind_def read_sign_def peek_def)
  show "read_double (replicate n (CHR '' '')) n = Inl OutOfBounds"
    using skip_spaces_blank [of 0 n "[]"]
    by (simp add: read_double_def ebind_def read_sign_def peek_def)
qed

subsection \<open>read_charge\<close>

text \<open>
  Claim C7, as the source has it. \<open>read_charge\<close> reads \<open>2+\<close> and \<open>+2\<close> as 2,
  \<open>2-\<close> as -2 and a blank pair as 0, and it fails on \<open>2X\<close>. In general: if the
  second byte is a digit, the first byte is taken as the sign, otherwise if the first
  byte is a digit the second byte is the sign. With a sign that is \<open>+\<close>, \<open>-\<close>,
  NUL or white space the result is the value of the digit (\<open>digit - '0'\<close>, from 0
  to 9), negated for \<open>-\<close>; with any other sign the call fails with the message
  "Wrong format for charge: " followed by the digit and the sign. These are the only
  failures. A pair without any digit is read as 0 and does not fail.
\<close>

theorem read_charge_layouts:
  "read_charge (CHR ''2'') (CHR ''+'') = Inr 2 \<and>
   read_charge (CHR ''+'') (CHR ''2'') = Inr 2 \<and>
   read_charge (CHR ''2'') (CHR ''-'') = Inr (- 2) \<and>
   read_charge (CHR '' '') (CHR '' '') = Inr 0 \<and>
   read_charge (CHR ''2'') (CHR ''X'') = Inl (Failure ''Wrong format for charge: 2X'') \<and>
   ((\<exists>e. read_charge digit sign = Inl e) =
      (if is_digit sign
       then digit \<noteq> CHR ''+'' \<and> digit \<noteq> CHR ''-'' \<and> digit \<noteq> NUL \<and> \<not> isspace digit
       else is_digit digit \<and>
            sign \<noteq> CHR ''+'' \<and> sign \<noteq> CHR ''-'' \<and> sign \<noteq> NUL \<and> \<not> isspace sign)) \<and>
   (\<not> is_digit digit \<and> \<not> is_digit sign \<longrightarrow> read_charge digit sign = Inr 0) \<and>
   read_charge (CHR ''7'') (CHR ''+'') = Inr 7 \<and>
   read_charge (CHR ''-'') (CHR ''3'') = Inr (- 3) \<and>
   (is_digit digit \<and> \<not> is_digit sign \<longrightarrow>
      read_charge digit sign =
        (if sign = CHR ''+'' \<or> sign = CHR ''-'' \<or> sign = NUL \<or> isspace sign
         then Inr ((schar digit - 48) * (if sign = CHR ''-'' then - 1 else 1))
         else Inl (Failure (''Wrong format for charge: '' @ [digit, sign])))) \<and>
   (is_digit sign \<longrightarrow>
      read_charge digit sign =
        (if digit = CHR ''+'' \<or> digit = CHR ''-'' \<or> digit = NUL \<or> isspace digit
         then Inr ((schar sign - 48) * (if digit = CHR ''-'' then - 1 else 1))
         else Inl (Failure (''Wrong format for charge: '' @ [sign, digit])))) \<and>
   (is_digit digit \<longrightarrow> 0 \<le> schar digit - 48 \<and> schar digit - 48 \<le> 9)"
proof -
  have ex: "read_charge (CHR ''2'') (CHR ''+'') = Inr 2"
    "read_charge (CHR ''+'') (CHR ''2'') = Inr 2"
    "read_charge (CHR ''2'') (CHR ''-'') = Inr (- 2)"
    "read_charge (CHR '' '') (CHR '' '') = Inr 0"
    "read_charge (CHR ''2'') (CHR ''X'') = Inl (Failure ''Wrong format for charge: 2X'')"
    "read_charge (CHR ''7'') (CHR ''+'') = Inr 7"
    "read_charge (CHR ''-'') (CHR ''3'') = Inr (- 3)"
    by (simp_all add: read_charge_def is_digit_def isspace_def schar_def NUL_def)
  have nd: "\<not> is_digit (CHR '' '')"
    by (simp add: is_digit_def schar_def)
  have fails: "(\<exists>e. read_charge digit sign = Inl e) =
      (if is_digit sign
       then digit \<noteq> CHR ''+'' \<and> digit \<noteq> CHR ''-'' \<and> digit \<noteq> NUL \<and> \<not> isspace digit
       else is_digit digit \<and>
            sign \<noteq> CHR ''+'' \<and> sign \<noteq> CHR ''-'' \<and> sign \<noteq> NUL \<and> \<not> isspace sign)"
    using nd by (auto simp add: read_charge_def isspace_def schar_def)
  have zero: "\<not> is_digit digit \<and> \<not> is_digit sign \<longrightarrow> read_charge digit sign = Inr 0"
    by (simp add: read_charge_def)
  have ds: "is_digit digit \<and> \<not> is_digit sign \<longrightarrow>
      read_charge digit sign =
        (if sign = CHR ''+'' \<or> sign = CHR ''-'' \<or> sign = NUL \<or> isspace sign
         then Inr ((schar digit - 48) * (if sign = CHR ''-'' then - 1 else 1))
         else Inl (Failure (''Wrong format for charge: '' @ [digit, sign])))"
    using nd by (auto simp add: read_charge_def)
  have sd: "is_digit sign \<longrightarrow>
      read_charge digit sign =
        (if digit = CHR ''+'' \<or> digit = CHR ''-'' \<or> digit = NUL \<or> isspace digit
         then Inr ((schar sign - 48) * (if digit = CHR ''-'' then - 1 else 1))
         else Inl (Failure (''Wrong format for charge: '' @ [sign, digit])))"
    using nd by (auto simp add: read_charge_def)
  have rng: "is_digit digit \<longrightarrow> 0 \<le> schar digit - 48 \<and> schar digit - 48 \<le> 9"
    by (simp add: is_digit_def)
  from ex fails zero ds sd rng show ?thesis by blast
qed

theorem read_charge_layouts_witness:
  "is_digit (CHR ''3'') \<and> read_charge (CHR ''-'') (CHR ''3'') = Inr (- 3) \<and>
   is_digit (CHR ''9'') \<and> \<not> is_digit (CHR ''-'') \<and>
   read_charge (CHR ''9'') (CHR ''-'') = Inr (- 9) \<and>
   \<not> is_digit (CHR ''Q'') \<and> \<not> is_digit (CHR ''?'') \<and>
   read_charge (CHR ''Q'') (CHR ''?'') = Inr 0"
  using read_charge_layouts [of "CHR ''Q''" "CHR ''?''"]
    read_charge_layouts [of "CHR ''9''" "CHR ''-''"]
    read_charge_layouts [of "CHR ''-''" "CHR ''3''"]
  by (simp add: is_digit_def schar_def isspace_def NUL_def)

text \<open>
  The claim as stated, "fails on every input pair that matches neither layout", is
  false: \<open>XY\<close> is neither digit-sign nor sign-digit, and it is read as 0.
\<close>

theorem read_charge_no_failure_counterexample:
  "read_charge (CHR ''X'') (CHR ''Y'') = Inr 0"
  by (simp add: read_charge_def is_digit_def schar_def)

subsection \<open>read_snic and hybrid-36\<close>

lemma read_int4_1:
  assumes "d0 < 10"
  shows "read_int (CHR '' '' # CHR '' '' # CHR '' '' # dec_digit d0 # c # rest) 4 = Inr (int d0)"
  using assms
  by (simp add: read_int_def ebind_def read_sign_def peek_def skip_spaces.simps
      read_digits.simps dec_digit_props space_props schar_dec_digit)

lemma read_int4_2:
  assumes "d1 < 10" "d0 < 10"
  shows "read_int (CHR '' '' # CHR '' '' # dec_digit d1 # dec_digit d0 # c # rest) 4
         = Inr (int d1 * 10 + int d0)"
  using assms
  by (simp add: read_int_def ebind_def read_sign_def peek_def skip_spaces.simps
      read_digits.simps dec_digit_props space_props schar_dec_digit)

lemma read_int4_3:
  assumes "d2 < 10" "d1 < 10" "d0 < 10"
  shows "read_int (CHR '' '' # dec_digit d2 # dec_digit d1 # dec_digit d0 # c # rest) 4
         = Inr ((int d2 * 10 + int d1) * 10 + int d0)"
  using assms
  by (simp add: read_int_def ebind_def read_sign_def peek_def skip_spaces.simps
      read_digits.simps dec_digit_props space_props schar_dec_digit)

lemma read_int4_4:
  assumes "d3 < 10" "d2 < 10" "d1 < 10" "d0 < 10"
  shows "read_int (dec_digit d3 # dec_digit d2 # dec_digit d1 # dec_digit d0 # c # rest) 4
         = Inr (((int d3 * 10 + int d2) * 10 + int d1) * 10 + int d0)"
  using assms
  by (simp add: read_int_def ebind_def read_sign_def peek_def skip_spaces.simps
      read_digits.simps dec_digit_props space_props schar_dec_digit)

lemma strtol36_4:
  assumes "10 \<le> d3" "d3 < 36" "d2 < 36" "d1 < 36" "d0 < 36"
  shows "strtol36 [b36_digit d3, b36_digit d2, b36_digit d1, b36_digit d0]
         = ((int d3 * 36 + int d2) * 36 + int d1) * 36 + int d0"
  using assms
  by (simp add: strtol36_def b36_letter_props digit36_b36_digit)

lemma base36_digits:
  "((v div 46656 * 36 + v div 1296 mod 36) * 36 + v div 36 mod 36) * 36 + v mod 36 = (v::nat)"
proof -
  have a: "v div 1296 = v div 36 div 36" and b: "v div 46656 = v div 36 div 36 div 36"
    by (simp_all add: div_mult2_eq)
  have "v div 36 div 36 div 36 * 36 + v div 36 div 36 mod 36 = v div 36 div 36"
    by (rule div_mult_mod_eq)
  moreover have "v div 36 div 36 * 36 + v div 36 mod 36 = v div 36"
    by (rule div_mult_mod_eq)
  moreover have "v div 36 * 36 + v mod 36 = v"
    by (rule div_mult_mod_eq)
  ultimately show ?thesis
    by (simp only: a b)
qed

lemma base10_digits:
  "((n div 1000 * 10 + n div 100 mod 10) * 10 + n div 10 mod 10) * 10 + n mod 10 = (n::nat)"
proof -
  have a: "n div 100 = n div 10 div 10" and b: "n div 1000 = n div 10 div 10 div 10"
    by (simp_all add: div_mult2_eq)
  have "n div 10 div 10 div 10 * 10 + n div 10 div 10 mod 10 = n div 10 div 10"
    by (rule div_mult_mod_eq)
  moreover have "n div 10 div 10 * 10 + n div 10 mod 10 = n div 10"
    by (rule div_mult_mod_eq)
  moreover have "n div 10 * 10 + n mod 10 = n"
    by (rule div_mult_mod_eq)
  ultimately show ?thesis
    by (simp only: a b)
qed

lemma base36_digits_int:
  "((int (v div 46656) * 36 + int (v div 1296 mod 36)) * 36 + int (v div 36 mod 36)) * 36
     + int (v mod 36) = int v"
proof -
  have "int (((v div 46656 * 36 + v div 1296 mod 36) * 36 + v div 36 mod 36) * 36 + v mod 36) = int v"
    by (simp only: base36_digits)
  then show ?thesis by (simp only: of_nat_add of_nat_mult of_nat_numeral)
qed

lemma base10_digits_int:
  "((int (n div 1000) * 10 + int (n div 100 mod 10)) * 10 + int (n div 10 mod 10)) * 10
     + int (n mod 10) = int n"
proof -
  have "int (((n div 1000 * 10 + n div 100 mod 10) * 10 + n div 10 mod 10) * 10 + n mod 10) = int n"
    by (simp only: base10_digits)
  then show ?thesis by (simp only: of_nat_add of_nat_mult of_nat_numeral)
qed

lemma read_snic_dec:
  assumes "n < 10000"
  shows "read_snic (hy36encode4 n @ c # rest) = Inr (int n, blank_to_nul c)"
proof -
  consider "n < 10" | "10 \<le> n" "n < 100" | "100 \<le> n" "n < 1000" | "1000 \<le> n" "n < 10000"
    using assms by linarith
  then show ?thesis
  proof cases
    case 1
    then show ?thesis
      by (simp add: hy36encode4_def read_snic_def ebind_def peek_def space_props read_int4_1
          blank_to_nul_def)
  next
    case 2
    have "int (n div 10) * 10 + int (n mod 10) = int n"
      using base10_digits_int [of n] 2 by simp
    with 2 show ?thesis
      by (simp add: hy36encode4_def read_snic_def ebind_def peek_def space_props read_int4_2
          blank_to_nul_def)
  next
    case 3
    have "(int (n div 100) * 10 + int (n div 10 mod 10)) * 10 + int (n mod 10) = int n"
      using base10_digits_int [of n] 3 by simp
    with 3 show ?thesis
      by (simp add: hy36encode4_def read_snic_def ebind_def peek_def space_props read_int4_3
          blank_to_nul_def)
  next
    case 4
    with base10_digits_int [of n] show ?thesis
      by (simp add: hy36encode4_def read_snic_def ebind_def peek_def read_int4_4
          dec_digit_props blank_to_nul_def)
  qed
qed

lemma read_snic_b36:
  assumes "10000 \<le> n" "n \<le> 1223055"
  shows "read_snic (hy36encode4 n @ c # rest) = Inr (int n, blank_to_nul c)"
proof -
  define v where "v = n - 10000 + 466560"
  have v: "466560 \<le> v" "v < 1679616" "int v - 466560 + 10000 = int n"
    using assms by (simp_all add: v_def)
  have d3: "10 \<le> v div 46656" "v div 46656 < 36"
    using v by simp_all
  have enc: "hy36encode4 n = [b36_digit (v div 46656), b36_digit (v div 1296 mod 36),
               b36_digit (v div 36 mod 36), b36_digit (v mod 36)]"
    using assms by (simp add: hy36encode4_def v_def Let_def)
  have "strtol36 [b36_digit (v div 46656), b36_digit (v div 1296 mod 36),
               b36_digit (v div 36 mod 36), b36_digit (v mod 36)] = int v"
    using d3 by (simp only: strtol36_4 [OF d3] mod_less_divisor zero_less_numeral
        base36_digits_int)
  then have "read_base36 4 (hy36encode4 n @ c # rest) = Inr (int v)"
    by (simp add: enc read_base36_def)
  moreover have "peek (hy36encode4 n @ c # rest) 0 = Inr (b36_digit (v div 46656))"
    "peek (hy36encode4 n @ c # rest) 4 = Inr c"
    by (simp_all add: enc peek_def)
  ultimately show ?thesis
    using d3 v(3) by (simp add: read_snic_def ebind_def b36_letter_props blank_to_nul_def)
qed

text \<open>
  Claim C3, as the source has it. A field whose first byte is below \<open>'A'\<close> is read as
  a signed decimal number, any other as base-36 minus 466560 plus 10000. \<open>9999\<close>
  decodes to 9999, \<open>A000\<close> to 10000 and \<open>ZZZZ\<close> to 1223055; decoding the
  four-column encoding of \<open>n\<close> gives \<open>n\<close> back for every \<open>n\<close> up to 1223055, the
  largest number four columns hold. The byte \<open>c\<close> behind the field is the insertion
  code column, which \<open>read_snic\<close> reads as well.
\<close>

theorem read_snic_hybrid36:
  "(5 \<le> length s \<longrightarrow>
      read_snic s =
        ebind (if schar (s ! 0) < 65 then read_int s 4
               else Inr (strtol36 (take 4 s) - 466560 + 10000))
          (\<lambda>num. Inr (num, blank_to_nul (s ! 4)))) \<and>
   read_snic (''9999'' @ c # rest) = Inr (9999, blank_to_nul c) \<and>
   read_snic (''A000'' @ c # rest) = Inr (10000, blank_to_nul c) \<and>
   read_snic (''ZZZZ'' @ c # rest) = Inr (1223055, blank_to_nul c) \<and>
   (n \<le> 1223055 \<longrightarrow> read_snic (hy36encode4 n @ c # rest) = Inr (int n, blank_to_nul c))"
proof -
  have shape: "5 \<le> length s \<longrightarrow>
      read_snic s =
        ebind (if schar (s ! 0) < 65 then read_int s 4
               else Inr (strtol36 (take 4 s) - 466560 + 10000))
          (\<lambda>num. Inr (num, blank_to_nul (s ! 4)))"
    by (simp add: read_snic_def ebind_def peek_def read_base36_def split: sum.splits)
  have e1: "read_snic (''9999'' @ c # rest) = Inr (9999, blank_to_nul c)"
    by (simp add: read_snic_def ebind_def peek_def schar_def read_int_def read_sign_def
        skip_spaces.simps read_digits.simps isspace_def is_digit_def)
  have e2: "read_snic (''A000'' @ c # rest) = Inr (10000, blank_to_nul c)"
    by (simp add: read_snic_def ebind_def peek_def schar_def read_base36_def strtol36_def
        isspace_def digit36_def)
  have e3: "read_snic (''ZZZZ'' @ c # rest) = Inr (1223055, blank_to_nul c)"
    by (simp add: read_snic_def ebind_def peek_def schar_def read_base36_def strtol36_def
        isspace_def digit36_def)
  have rt: "n \<le> 1223055 \<longrightarrow> read_snic (hy36encode4 n @ c # rest) = Inr (int n, blank_to_nul c)"
    using read_snic_dec [of n c rest] read_snic_b36 [of n c rest] by (cases "n < 10000") simp_all
  from shape e1 e2 e3 rt show ?thesis by blast
qed

theorem read_snic_hybrid36_witness:
  "5 \<le> length ''  -5A'' \<and> read_snic ''  -5A'' = Inr (- 5, CHR ''A'') \<and>
   (12345::nat) \<le> 1223055 \<and> read_snic ''A1T5 '' = Inr (12345, NUL)"
proof -
  have a: "read_int ''  -5A'' 4 = Inr (- 5)"
    by (simp add: read_int_def ebind_def read_sign_def peek_def skip_spaces.simps
        read_digits.simps isspace_def is_digit_def schar_def)
  have b: "hy36encode4 12345 = ''A1T5''"
    by (simp add: hy36encode4_def b36_digit_def char_of_nat_eval)
  show ?thesis
    using read_snic_hybrid36 [of "''  -5A''" "CHR '' ''" "[]" 12345] a b
    by (simp add: ebind_def schar_def blank_to_nul_def)
qed

text \<open>
  The claim as stated has \<open>ZZZZ\<close> decode to 2436111. By the claim's own rule (base-36
  minus 466560 plus 10000) and in the source it decodes to 1223055.
\<close>

theorem read_snic_ZZZZ_counterexample:
  "read_snic ''ZZZZ '' = Inr (1223055, NUL) \<and> (1223055::int) \<noteq> 2436111"
  by (simp add: read_snic_def ebind_def peek_def schar_def read_base36_def strtol36_def
      isspace_def digit36_def NUL_def blank_to_nul_def)

section \<open>Properties of the unit cell\<close>

subsection \<open>The transforms computed from the six parameters\<close>

lemma sin_deg_90 [simp]: "sin_deg fsin 90 = 1"
  by (simp add: sin_deg_def)

lemma cos_deg_90 [simp]: "cos_deg fcos 90 = 0"
  by (simp add: cos_deg_def)

lemma vec_add_zero: "vec_add v (0, 0, 0) = v"
  by (cases v) auto

lemma calc_matrices:
  assumes ne: "\<not> explicit_matrices cell0"
    and ok: "calculate_properties fsin fcos cell0 = (cell, None)"
    and abc: "cell_a cell0 \<noteq> 0" "cell_b cell0 \<noteq> 0" "cell_c cell0 \<noteq> 0"
    and flat: "cos_alphar cell * cos_alphar cell < 1"
  shows "mat_mul (mat (cell_frac cell)) (mat (cell_orth cell)) = identity33"
    and "vec (cell_frac cell) = (0, 0, 0)" and "vec (cell_orth cell) = (0, 0, 0)"
proof -
  define sa where "sa = sin_deg fsin (alpha cell0)"
  define sb where "sb = sin_deg fsin (beta cell0)"
  define sg where "sg = sin_deg fsin (gamma cell0)"
  define ca where "ca = cos_deg fcos (alpha cell0)"
  define cb where "cb = cos_deg fcos (beta cell0)"
  define cg where "cg = cos_deg fcos (gamma cell0)"
  define K where "K = (cb * cg - ca) / sg"
  define sar where "sar = sqrt (1 - K / sb * (K / sb))"
  note defs = sa_def [symmetric] sb_def [symmetric] sg_def [symmetric] ca_def [symmetric]
    cb_def [symmetric] cg_def [symmetric] K_def [symmetric] sar_def [symmetric]
  have sines: "\<not> (sa = 0 \<or> sb = 0 \<or> sg = 0)"
  proof
    assume "sa = 0 \<or> sb = 0 \<or> sg = 0"
    then have "snd (calculate_properties fsin fcos cell0) \<noteq> None"
      unfolding sa_def sb_def sg_def by (simp add: calculate_properties_def Let_def)
    with ok show False by simp
  qed
  have cell: "cell = cell0\<lparr>volume := cell_a cell0 * cell_b cell0 * cell_c cell0 *
                 sqrt (1 - ca * ca - cb * cb - cg * cg + 2 * ca * cb * cg),
               ar := cell_b cell0 * cell_c cell0 * sa /
                 (cell_a cell0 * cell_b cell0 * cell_c cell0 *
                   sqrt (1 - ca * ca - cb * cb - cg * cg + 2 * ca * cb * cg)),
               br := cell_a cell0 * cell_c cell0 * sb /
                 (cell_a cell0 * cell_b cell0 * cell_c cell0 *
                   sqrt (1 - ca * ca - cb * cb - cg * cg + 2 * ca * cb * cg)),
               cr := cell_a cell0 * cell_b cell0 * sg /
                 (cell_a cell0 * cell_b cell0 * cell_c cell0 *
                   sqrt (1 - ca * ca - cb * cb - cg * cg + 2 * ca * cb * cg)),
               cos_alphar := K / sb,
               cos_betar := (ca * cg - cb) / (sa * sg),
               cos_gammar := (ca * cb - cg) / (sa * sb),
               cell_orth := \<lparr>mat = ((cell_a cell0, cell_b cell0 * cg, cell_c cell0 * cb),
                  (0, cell_b cell0 * sg, - cell_c cell0 * K), (0, 0, cell_c cell0 * sb * sar)),
                  vec = (0, 0, 0)\<rparr>,
               cell_frac := \<lparr>mat = ((1 / cell_a cell0, - cg / (sg * cell_a cell0),
                    - (cg * K + cb * sg) / (sar * sb * sg * cell_a cell0)),
                  (0, 1 / (cell_b cell0 * sg), K / sb / (sar * sg * cell_b cell0)),
                  (0, 0, 1 / (cell_c cell0 * sb * sar))),
                  vec = (0, 0, 0)\<rparr>\<rparr>"
    using ok ne sines unfolding calculate_properties_def Let_def defs
    by simp
  have car: "cos_alphar cell = K / sb"
    by (subst cell) simp
  have "0 < 1 - K / sb * (K / sb)"
    using flat unfolding car by simp
  then have "0 < sar"
    unfolding sar_def by (rule real_sqrt_gt_zero)
  then have sar: "sar \<noteq> 0"
    by simp
  show "mat_mul (mat (cell_frac cell)) (mat (cell_orth cell)) = identity33"
    using abc sines sar by (subst cell, subst cell) (simp add: identity33_def field_simps)
  show "vec (cell_frac cell) = (0, 0, 0)" "vec (cell_orth cell) = (0, 0, 0)"
    by (subst cell, simp)+
qed

text \<open>
  In exact arithmetic the closed form of \<open>frac\<close> is the inverse of \<open>orth\<close> wherever
  no division by zero occurs: for a cell set from six parameters with no explicit
  matrices adopted, \<open>calculate_properties\<close> succeeding, edges \<open>a\<close>, \<open>b\<close>, \<open>c\<close> that
  are not zero and \<open>cos\<^sup>2 alpha* < 1\<close> (the square root that gives \<open>sin alpha*\<close> is
  taken of a positive number), the product of \<open>frac.mat\<close> and \<open>orth.mat\<close> is the
  identity and \<open>fractionalize (orthogonalize f) = f\<close>. The sine and cosine may be any
  functions. This says nothing about the rounding of the doubles of the source.
\<close>

lemma frac_orth_inverse_exact:
  assumes "\<not> explicit_matrices cell0"
    and "UnitCell_set fsin fcos cell0 a b c alpha' beta' gamma' = (cell, None)"
    and "gamma' \<noteq> 0" and "a \<noteq> 0" and "b \<noteq> 0" and "c \<noteq> 0"
    and "cos_alphar cell * cos_alphar cell < 1"
  shows "mat_mul (mat (cell_frac cell)) (mat (cell_orth cell)) = identity33 \<and>
         fractionalize cell (orthogonalize cell f) = f"
proof -
  let ?c1 = "cell0\<lparr>cell_a := a, cell_b := b, cell_c := c,
                    alpha := alpha', beta := beta', gamma := gamma'\<rparr>"
  have ok: "calculate_properties fsin fcos ?c1 = (cell, None)"
    using assms(2,3) by (simp add: UnitCell_set_def)
  have ne: "\<not> explicit_matrices ?c1"
    using assms(1) by simp
  have abc: "cell_a ?c1 \<noteq> 0" "cell_b ?c1 \<noteq> 0" "cell_c ?c1 \<noteq> 0"
    using assms(4-6) by simp_all
  note m = calc_matrices [OF ne ok abc assms(7)]
  obtain f0 f1 f2 where f: "f = (f0, f1, f2)"
    by (cases f) auto
  obtain o00 o01 o02 o10 o11 o12 o20 o21 o22
    where o: "mat (cell_orth cell) = ((o00, o01, o02), (o10, o11, o12), (o20, o21, o22))"
    by (metis prod_cases3)
  obtain p00 p01 p02 p10 p11 p12 p20 p21 p22
    where p: "mat (cell_frac cell) = ((p00, p01, p02), (p10, p11, p12), (p20, p21, p22))"
    by (metis prod_cases3)
  have assoc: "mat_vec (mat (cell_frac cell)) (mat_vec (mat (cell_orth cell)) f)
        = mat_vec (mat_mul (mat (cell_frac cell)) (mat (cell_orth cell))) f"
    unfolding o p f by (simp add: algebra_simps)
  have "fractionalize cell (orthogonalize cell f) = f"
    unfolding fractionalize_def orthogonalize_def Transform_apply_def m(2,3)
    using assoc unfolding m(1) by (simp add: f identity33_def vec_add_zero)
  with m(1) show ?thesis by simp
qed

lemma frac_orth_inverse_exact_example:
  "\<not> explicit_matrices UnitCell_default \<and>
   snd (UnitCell_set sin cos UnitCell_default 30 40 50 90 90 90) = None \<and>
   mat_mul (mat (cell_frac (fst (UnitCell_set sin cos UnitCell_default 30 40 50 90 90 90))))
           (mat (cell_orth (fst (UnitCell_set sin cos UnitCell_default 30 40 50 90 90 90))))
     = identity33 \<and>
   fractionalize (fst (UnitCell_set sin cos UnitCell_default 30 40 50 90 90 90))
     (orthogonalize (fst (UnitCell_set sin cos UnitCell_default 30 40 50 90 90 90)) (1 / 2, 1 / 4, 3))
     = (1 / 2, 1 / 4, 3)"
proof -
  define cell where "cell = fst (UnitCell_set sin cos UnitCell_default 30 40 50 90 90 90)"
  have r: "UnitCell_set sin cos UnitCell_default 30 40 50 90 90 90 = (cell, None)"
    unfolding cell_def
    by (simp add: UnitCell_set_def calculate_properties_def UnitCell_default_def Let_def
        sin_deg_90 cos_deg_90)
  have ne: "\<not> explicit_matrices UnitCell_default"
    by (simp add: UnitCell_default_def)
  have flat: "cos_alphar cell * cos_alphar cell < 1"
    unfolding cell_def
    by (simp add: UnitCell_set_def calculate_properties_def UnitCell_default_def Let_def
        sin_deg_90 cos_deg_90)
  have s: "snd (UnitCell_set sin cos UnitCell_default 30 40 50 90 90 90) = None"
    by (simp add: r)
  from frac_orth_inverse_exact [OF ne r _ _ _ _ flat, of "(1 / 2, 1 / 4, 3)"]
  have "mat_mul (mat (cell_frac cell)) (mat (cell_orth cell)) = identity33 \<and>
        fractionalize cell (orthogonalize cell (1 / 2, 1 / 4, 3)) = (1 / 2, 1 / 4, 3)"
    by simp
  with ne s show ?thesis unfolding cell_def by blast
qed


text \<open>
  The same happens for a flat cell: with the angles 60, 60 and 120 no sine is zero,
  \<open>cos alpha* = -1\<close>, and the last row of \<open>orth.mat\<close> is zero.
\<close>

lemma sixty: "pi / 180 * 60 = pi / 3" "pi / 180 * 120 = 2 * pi / 3"
  by simp_all

lemma flat_cell_singular:
  "snd (UnitCell_set sin cos UnitCell_default 10 10 10 60 60 120) = None \<and>
   cos_alphar (fst (UnitCell_set sin cos UnitCell_default 10 10 10 60 60 120)) = - 1 \<and>
   mat (cell_orth (fst (UnitCell_set sin cos UnitCell_default 10 10 10 60 60 120)))
     = ((10, - 5, 5), (0, 5 * sqrt 3, 5 * sqrt 3), (0, 0, 0))"
proof -
  have s: "sin_deg sin 60 = sqrt 3 / 2" "sin_deg sin 120 = sqrt 3 / 2"
    "cos_deg cos 60 = 1 / 2" "cos_deg cos 120 = - (1 / 2)"
    by (simp_all add: sin_deg_def cos_deg_def sixty sin_60 cos_60 sin_120 cos_120)
  have q: "sqrt 3 * sqrt 3 = 3" by simp
  show ?thesis
    by (simp add: UnitCell_set_def calculate_properties_def UnitCell_default_def Let_def s q
        field_simps)
qed

subsection \<open>The nearest image in a cubic cell\<close>

lemma cubic_cell:
  assumes "\<not> explicit_matrices cell0"
  shows "UnitCell_set fsin fcos cell0 10 10 10 90 90 90 =
    (cell0\<lparr>cell_a := 10, cell_b := 10, cell_c := 10, alpha := 90, beta := 90, gamma := 90,
           volume := 1000, ar := 1 / 10, br := 1 / 10, cr := 1 / 10,
           cos_alphar := 0, cos_betar := 0, cos_gammar := 0,
           cell_orth := \<lparr>mat = ((10, 0, 0), (0, 10, 0), (0, 0, 10)), vec = (0, 0, 0)\<rparr>,
           cell_frac := \<lparr>mat = ((1 / 10, 0, 0), (0, 1 / 10, 0), (0, 0, 1 / 10)), vec = (0, 0, 0)\<rparr>\<rparr>,
     None)"
  using assms by (simp add: UnitCell_set_def calculate_properties_def Let_def)

lemma nearest_image_cubic_value:
  assumes "\<not> explicit_matrices cell0" and "images cell0 = []"
  shows "find_nearest_image (fst (UnitCell_set fsin fcos cell0 10 10 10 90 90 90))
           (1 / 10, 1 / 10, 1 / 10) (98 / 10, 98 / 10, 98 / 10) Unspecified
         = \<lparr>dist_sq = Some (27 / 100), box = (1, 1, 1), sym_id = 0\<rparr>"
  using assms
  by (simp add: cubic_cell find_nearest_image_def is_crystal_def fractionalize_def
      Transform_apply_def dist_sq_vec_def orthogonalize_def below_def iround_def
      box_is_zero_def Let_def)

text \<open>
  Claim C6, as the source has it. In a cell set to \<open>a = b = c = 10\<close> with right
  angles (from any cell without adopted matrices and without symmetry images),
  \<open>find_nearest_image\<close> for \<open>ref = (0.1, 0.1, 0.1)\<close>, \<open>pos = (9.8, 9.8, 9.8)\<close> and
  \<open>Unspecified\<close> returns \<open>box = (1, 1, 1)\<close>, \<open>sym_id = 0\<close> and the squared distance
  0.27: the distance is the square root of 0.27, about 0.52.
\<close>

theorem nearest_image_cubic_cell:
  assumes "\<not> explicit_matrices cell0" and "images cell0 = []"
  shows "find_nearest_image (fst (UnitCell_set fsin fcos cell0 10 10 10 90 90 90))
           (1 / 10, 1 / 10, 1 / 10) (98 / 10, 98 / 10, 98 / 10) Unspecified
         = \<lparr>dist_sq = Some (27 / 100), box = (1, 1, 1), sym_id = 0\<rparr> \<and>
         image_dist (find_nearest_image (fst (UnitCell_set fsin fcos cell0 10 10 10 90 90 90))
           (1 / 10, 1 / 10, 1 / 10) (98 / 10, 98 / 10, 98 / 10) Unspecified)
         = Some (sqrt (27 / 100))"
  using nearest_image_cubic_value [OF assms, of fsin fcos]
  by (simp add: image_dist_def)

theorem nearest_image_cubic_cell_witness:
  "\<not> explicit_matrices UnitCell_default \<and> images UnitCell_default = [] \<and>
   find_nearest_image (fst (UnitCell_set sin cos UnitCell_default 10 10 10 90 90 90))
     (1 / 10, 1 / 10, 1 / 10) (98 / 10, 98 / 10, 98 / 10) Unspecified
   = \<lparr>dist_sq = Some (27 / 100), box = (1, 1, 1), sym_id = 0\<rparr>"
proof -
  have a: "\<not> explicit_matrices UnitCell_default" and b: "images UnitCell_default = []"
    by (simp_all add: UnitCell_default_def)
  from nearest_image_cubic_cell [OF a b, of sin cos] a b show ?thesis by simp
qed

text \<open>
  The claim as stated gives the distance as 0.9. The displacement to the image is
  \<open>(-0.3, -0.3, -0.3)\<close>, whose length is the square root of \<open>3 * 0.09\<close>, which is less
  than 0.6.
\<close>

theorem nearest_image_distance_counterexample:
  "image_dist (find_nearest_image (fst (UnitCell_set sin cos UnitCell_default 10 10 10 90 90 90))
     (1 / 10, 1 / 10, 1 / 10) (98 / 10, 98 / 10, 98 / 10) Unspecified) = Some (sqrt (27 / 100)) \<and>
   sqrt (27 / 100) < 6 / 10 \<and> sqrt (27 / 100) \<noteq> 9 / 10"
proof -
  have a: "\<not> explicit_matrices UnitCell_default" and b: "images UnitCell_default = []"
    by (simp_all add: UnitCell_default_def)
  have d: "image_dist (find_nearest_image (fst (UnitCell_set sin cos UnitCell_default 10 10 10 90 90 90))
     (1 / 10, 1 / 10, 1 / 10) (98 / 10, 98 / 10, 98 / 10) Unspecified) = Some (sqrt (27 / 100))"
    using nearest_image_cubic_value [OF a b, of sin cos] by (simp add: image_dist_def)
  have "sqrt (27 / 100) < sqrt ((6 / 10)\<^sup>2)"
    by (subst real_sqrt_less_iff) (simp add: power2_eq_square)
  then have lt: "sqrt (27 / 100) < 6 / 10"
    by simp
  then have "sqrt (27 / 100) \<noteq> 9 / 10"
    by simp
  with d lt show ?thesis by blast
qed

subsection \<open>Failure of set\<close>

text \<open>
  \<open>set\<close> with \<open>gamma \<noteq> 0\<close> fails exactly when the sine the library returns for one
  of the angles (1 for an angle of exactly 90) is zero.
\<close>

lemma set_fails_iff:
  assumes "gamma' \<noteq> 0"
  shows "snd (UnitCell_set fsin fcos cell a b c alpha' beta' gamma') =
     (if sin_deg fsin alpha' = 0 \<or> sin_deg fsin beta' = 0 \<or> sin_deg fsin gamma' = 0
      then Some (Failure ''Impossible angle - N*180deg.'') else None)"
  using assms by (simp add: UnitCell_set_def calculate_properties_def Let_def)

text \<open>
  With the sine of the reals these are the angles that are a multiple of 180 degrees.
\<close>

lemma sin_deg_zero_iff:
  "(sin_deg sin x = 0) = (\<exists>k::int. x = 180 * of_int k)"
proof (cases "x = 90")
  case True
  have "(90::real) \<noteq> 180 * of_int k" for k :: int
  proof
    assume "(90::real) = 180 * of_int k"
    then have "(1::real) = of_int (2 * k)" by simp
    then have "(1::int) = 2 * k" by linarith
    then show False by presburger
  qed
  with True show ?thesis by simp
next
  case False
  have "(sin (pi / 180 * x) = 0) = (\<exists>k::int. pi / 180 * x = of_int k * pi)"
    by (rule sin_zero_iff_int2)
  also have "\<dots> = (\<exists>k::int. x = 180 * of_int k)"
  proof -
    have "(pi / 180 * x = of_int k * pi) = (x = 180 * of_int k)" for k :: int
    proof -
      have "(pi / 180 * x = of_int k * pi) = (pi * (x / 180) = pi * of_int k)"
        by (simp add: mult.commute)
      also have "\<dots> = (x / 180 = of_int k)"
        by simp
      also have "\<dots> = (x = 180 * of_int k)"
        by (simp add: field_simps)
      finally show ?thesis .
    qed
    then show ?thesis by simp
  qed
  finally show ?thesis using False by (simp add: sin_deg_def)
qed

lemma set_fails_real_sine:
  assumes "gamma' \<noteq> 0"
  shows "(snd (UnitCell_set sin fcos cell a b c alpha' beta' gamma')
            = Some (Failure ''Impossible angle - N*180deg.'')) =
         (\<exists>k::int. alpha' = 180 * of_int k \<or> beta' = 180 * of_int k \<or> gamma' = 180 * of_int k)"
    and "(snd (UnitCell_set sin fcos cell a b c alpha' beta' gamma') = None) =
         (\<not> (\<exists>k::int. alpha' = 180 * of_int k \<or> beta' = 180 * of_int k \<or>
                      gamma' = 180 * of_int k))"
  unfolding set_fails_iff [OF assms] sin_deg_zero_iff by auto

text \<open>
  C9. For the angles 90, 90 and 180 \<open>set\<close> fails when the sine is exact. The source
  tests \<open>std::sin(deg2rad * 180) == 0\<close>, and the sine that the library returns for the
  double nearest to \<open>pi\<close> is not zero: with any sine that is not zero at \<open>pi\<close> the
  call does not fail, stores the angle 180 and computes the volume
  \<open>a * b * c * sqrt (1 - cos\<^sup>2 pi)\<close>.
\<close>

theorem set_accepts_180:
  "snd (UnitCell_set sin fcos cell a b c 90 90 180)
     = Some (Failure ''Impossible angle - N*180deg.'') \<and>
   (fsin pi \<noteq> 0 \<longrightarrow>
      snd (UnitCell_set fsin fcos cell a b c 90 90 180) = None \<and>
      gamma (fst (UnitCell_set fsin fcos cell a b c 90 90 180)) = 180 \<and>
      volume (fst (UnitCell_set fsin fcos cell a b c 90 90 180))
        = a * b * c * sqrt (1 - fcos pi * fcos pi))"
  by (simp add: UnitCell_set_def calculate_properties_def Let_def sin_deg_def cos_deg_def)

theorem set_accepts_180_witness:
  "(\<lambda>x. sin x + 1 / 10 ^ 16) pi \<noteq> 0 \<and>
   snd (UnitCell_set (\<lambda>x. sin x + 1 / 10 ^ 16) cos UnitCell_default 10 10 10 90 90 180) = None \<and>
   gamma (fst (UnitCell_set (\<lambda>x. sin x + 1 / 10 ^ 16) cos UnitCell_default 10 10 10 90 90 180))
     = 180"
  using set_accepts_180 [of cos UnitCell_default 10 10 10 "\<lambda>x. sin x + 1 / 10 ^ 16"]
  by simp

subsection \<open>Adopted matrices\<close>

lemma set_matrices_from_fract_cases:
  "set_matrices_from_fract cell0 f = cell0 \<or>
   set_matrices_from_fract cell0 f =
     cell0\<lparr>cell_frac := f, cell_orth := Transform_inverse f, explicit_matrices := True\<rparr>"
  by (simp add: set_matrices_from_fract_def)

lemma calculate_properties_fails:
  "\<not> no_sine_zero fsin cell \<Longrightarrow>
   calculate_properties fsin fcos cell = (cell, Some (Failure ''Impossible angle - N*180deg.''))"
  by (auto simp add: calculate_properties_def no_sine_zero_def Let_def)

lemma calculate_properties_explicit:
  assumes "no_sine_zero fsin cell" and "explicit_matrices cell"
  shows "calculate_properties fsin fcos cell =
    (let ca = cos_deg fcos (alpha cell); cb = cos_deg fcos (beta cell);
         cg = cos_deg fcos (gamma cell); sa = sin_deg fsin (alpha cell);
         sb = sin_deg fsin (beta cell); sg = sin_deg fsin (gamma cell);
         vol = cell_a cell * cell_b cell * cell_c cell *
               sqrt (1 - ca * ca - cb * cb - cg * cg + 2 * ca * cb * cg)
     in (cell\<lparr>volume := vol,
               ar := cell_b cell * cell_c cell * sa / vol,
               br := cell_a cell * cell_c cell * sb / vol,
               cr := cell_a cell * cell_b cell * sg / vol,
               cos_alphar := (cb * cg - ca) / sg / sb,
               cos_betar := (ca * cg - cb) / (sa * sg),
               cos_gammar := (ca * cb - cg) / (sa * sb)\<rparr>, None))"
  using assms by (simp add: calculate_properties_def no_sine_zero_def Let_def)

lemma calculate_properties_frame:
  assumes "explicit_matrices cell" and "calculate_properties fsin fcos cell = (cell', err)"
  shows "cell_frac cell' = cell_frac cell \<and> cell_orth cell' = cell_orth cell \<and>
         explicit_matrices cell'"
proof (cases "no_sine_zero fsin cell")
  case True
  have c: "cell' = fst (calculate_properties fsin fcos cell)"
    using assms(2) by simp
  show ?thesis
    unfolding c calculate_properties_explicit [OF True assms(1)]
    by (simp add: Let_def assms(1))
next
  case False
  from calculate_properties_fails [OF False, of fcos] assms
  show ?thesis by simp
qed

lemma set_frame:
  assumes "explicit_matrices cell"
    and "UnitCell_set fsin fcos cell a b c alpha' beta' gamma' = (cell', err)"
  shows "cell_frac cell' = cell_frac cell \<and> cell_orth cell' = cell_orth cell \<and>
         explicit_matrices cell'"
proof (cases "gamma' = 0")
  case True
  with assms show ?thesis by (simp add: UnitCell_set_def)
next
  case False
  let ?c1 = "cell\<lparr>cell_a := a, cell_b := b, cell_c := c,
                  alpha := alpha', beta := beta', gamma := gamma'\<rparr>"
  have "calculate_properties fsin fcos ?c1 = (cell', err)"
    using assms(2) False by (simp add: UnitCell_set_def)
  moreover have "explicit_matrices ?c1" using assms(1) by simp
  ultimately show ?thesis
    using calculate_properties_frame [of ?c1 fsin fcos cell' err] by simp
qed

lemma later_calls_frame:
  assumes "later_calls fsin fcos cell cell'" and "explicit_matrices cell"
  shows "cell_frac cell' = cell_frac cell \<and> cell_orth cell' = cell_orth cell \<and>
         explicit_matrices cell'"
  using assms
proof (induction rule: later_calls.induct)
  case (no_call cell)
  then show ?case by simp
next
  case (call_set cell cell1 a b c alpha' beta' gamma' cell2 err)
  then show ?case using set_frame [of cell1 fsin fcos a b c alpha' beta' gamma' cell2 err] by simp
next
  case (call_calculate_properties cell cell1 cell2 err)
  then show ?case using calculate_properties_frame [of cell1 fsin fcos cell2 err] by simp
qed

lemma calculate_properties_params:
  assumes "calculate_properties fsin fcos cell = (cell', err)"
  shows "cell_a cell' = cell_a cell \<and> cell_b cell' = cell_b cell \<and> cell_c cell' = cell_c cell \<and>
         alpha cell' = alpha cell \<and> beta cell' = beta cell \<and> gamma cell' = gamma cell"
proof (cases "no_sine_zero fsin cell")
  case False
  from calculate_properties_fails [OF False, of fcos] assms
  show ?thesis by simp
next
  case True
  then have n: "\<not> (sin_deg fsin (alpha cell) = 0 \<or> sin_deg fsin (beta cell) = 0 \<or>
      sin_deg fsin (gamma cell) = 0)"
    by (simp add: no_sine_zero_def)
  have c: "cell' = fst (calculate_properties fsin fcos cell)"
    using assms by simp
  show ?thesis
    unfolding c using n by (simp add: calculate_properties_def Let_def)
qed

text \<open>
  Claim C10, as the source has it. Once \<open>explicit_matrices\<close> is true (only
  \<open>set_matrices_from_fract\<close> sets it), no later call to \<open>set\<close> or
  \<open>calculate_properties\<close> changes \<open>frac\<close> and \<open>orth\<close>, and the flag stays true. A call
  to \<open>set\<close> with \<open>gamma = 0\<close> changes nothing at all. A call with \<open>gamma \<noteq> 0\<close>
  stores the six parameters; when no sine is zero it computes the volume and the
  reciprocal parameters from them, and otherwise it fails and leaves the volume and the
  reciprocal parameters as they were.
\<close>

theorem explicit_matrices_frame:
  assumes "explicit_matrices cell"
    and "later_calls fsin fcos cell cell1"
    and "UnitCell_set fsin fcos cell1 a b c alpha' beta' gamma' = (cell2, err)"
  shows "cell_frac cell2 = cell_frac cell \<and> cell_orth cell2 = cell_orth cell \<and>
     explicit_matrices cell2 \<and>
     (if gamma' = 0 then cell2 = cell1 \<and> err = None
      else cell_a cell2 = a \<and> cell_b cell2 = b \<and> cell_c cell2 = c \<and>
           alpha cell2 = alpha' \<and> beta cell2 = beta' \<and> gamma cell2 = gamma' \<and>
           (if no_sine_zero fsin cell2
            then err = None \<and>
                 volume cell2 = a * b * c *
                   sqrt (1 - cos_deg fcos alpha' * cos_deg fcos alpha'
                           - cos_deg fcos beta' * cos_deg fcos beta'
                           - cos_deg fcos gamma' * cos_deg fcos gamma'
                           + 2 * cos_deg fcos alpha' * cos_deg fcos beta' * cos_deg fcos gamma') \<and>
                 ar cell2 = b * c * sin_deg fsin alpha' / volume cell2 \<and>
                 br cell2 = a * c * sin_deg fsin beta' / volume cell2 \<and>
                 cr cell2 = a * b * sin_deg fsin gamma' / volume cell2 \<and>
                 cos_alphar cell2 = (cos_deg fcos beta' * cos_deg fcos gamma' - cos_deg fcos alpha')
                                      / sin_deg fsin gamma' / sin_deg fsin beta' \<and>
                 cos_betar cell2 = (cos_deg fcos alpha' * cos_deg fcos gamma' - cos_deg fcos beta')
                                      / (sin_deg fsin alpha' * sin_deg fsin gamma') \<and>
                 cos_gammar cell2 = (cos_deg fcos alpha' * cos_deg fcos beta' - cos_deg fcos gamma')
                                      / (sin_deg fsin alpha' * sin_deg fsin beta')
            else err = Some (Failure ''Impossible angle - N*180deg.'') \<and>
                 volume cell2 = volume cell1 \<and> ar cell2 = ar cell1 \<and> br cell2 = br cell1 \<and>
                 cr cell2 = cr cell1 \<and> cos_alphar cell2 = cos_alphar cell1 \<and>
                 cos_betar cell2 = cos_betar cell1 \<and> cos_gammar cell2 = cos_gammar cell1))"
proof -
  have e1: "explicit_matrices cell1" and f1: "cell_frac cell1 = cell_frac cell"
    and o1: "cell_orth cell1 = cell_orth cell"
    using later_calls_frame [OF assms(2,1)] by simp_all
  have frame: "cell_frac cell2 = cell_frac cell \<and> cell_orth cell2 = cell_orth cell \<and>
     explicit_matrices cell2"
    using set_frame [OF e1 assms(3)] f1 o1 by simp
  show ?thesis
  proof (cases "gamma' = 0")
    case True
    with assms(3) frame show ?thesis by (simp add: UnitCell_set_def)
  next
    case False
    let ?c1 = "cell1\<lparr>cell_a := a, cell_b := b, cell_c := c,
                    alpha := alpha', beta := beta', gamma := gamma'\<rparr>"
    have cp: "calculate_properties fsin fcos ?c1 = (cell2, err)"
      using assms(3) False by (simp add: UnitCell_set_def)
    have e: "explicit_matrices ?c1" using e1 by simp
    have params: "cell_a cell2 = a \<and> cell_b cell2 = b \<and> cell_c cell2 = c \<and>
           alpha cell2 = alpha' \<and> beta cell2 = beta' \<and> gamma cell2 = gamma'"
      using calculate_properties_params [OF cp] by simp
    have nz: "no_sine_zero fsin cell2 = no_sine_zero fsin ?c1"
      using params by (simp add: no_sine_zero_def)
    show ?thesis
    proof (cases "no_sine_zero fsin ?c1")
      case True
      have r: "(cell2, err) = calculate_properties fsin fcos ?c1"
        using cp by simp
      have c2: "cell2 = fst (calculate_properties fsin fcos ?c1)"
        and er: "err = snd (calculate_properties fsin fcos ?c1)"
        using cp by simp_all
      have rest: "err = None \<and>
                 volume cell2 = a * b * c *
                   sqrt (1 - cos_deg fcos alpha' * cos_deg fcos alpha'
                           - cos_deg fcos beta' * cos_deg fcos beta'
                           - cos_deg fcos gamma' * cos_deg fcos gamma'
                           + 2 * cos_deg fcos alpha' * cos_deg fcos beta' * cos_deg fcos gamma') \<and>
                 ar cell2 = b * c * sin_deg fsin alpha' / volume cell2 \<and>
                 br cell2 = a * c * sin_deg fsin beta' / volume cell2 \<and>
                 cr cell2 = a * b * sin_deg fsin gamma' / volume cell2 \<and>
                 cos_alphar cell2 = (cos_deg fcos beta' * cos_deg fcos gamma' - cos_deg fcos alpha')
                                      / sin_deg fsin gamma' / sin_deg fsin beta' \<and>
                 cos_betar cell2 = (cos_deg fcos alpha' * cos_deg fcos gamma' - cos_deg fcos beta')
                                      / (sin_deg fsin alpha' * sin_deg fsin gamma') \<and>
                 cos_gammar cell2 = (cos_deg fcos alpha' * cos_deg fcos beta' - cos_deg fcos gamma')
                                      / (sin_deg fsin alpha' * sin_deg fsin beta')"
        unfolding c2 er calculate_properties_explicit [OF True e]
        by (simp add: Let_def)
      from frame params rest False True nz show ?thesis by simp
    next
      case nsz: False
      from calculate_properties_fails [OF nsz, of fcos] cp
      have "cell2 = ?c1" and "err = Some (Failure ''Impossible angle - N*180deg.'')"
        by simp_all
      with frame params False nsz nz show ?thesis by simp
    qed
  qed
qed

lemma adopted_example_value:
  "adopted_example =
     \<lparr>cell_a = 10, cell_b = 10, cell_c = 10, alpha = 90, beta = 90, gamma = 90,
      cell_orth = \<lparr>mat = ((20, 0, 0), (0, 20, 0), (0, 0, 20)), vec = (0, 0, 0)\<rparr>,
      cell_frac = \<lparr>mat = ((1 / 20, 0, 0), (0, 1 / 20, 0), (0, 0, 1 / 20)), vec = (0, 0, 0)\<rparr>,
      volume = 1000, ar = 1 / 10, br = 1 / 10, cr = 1 / 10,
      cos_alphar = 0, cos_betar = 0, cos_gammar = 0,
      explicit_matrices = True, images = []\<rparr>"
  by (simp add: adopted_example_def set_matrices_from_fract_def UnitCell_set_def
      calculate_properties_def UnitCell_default_def Let_def sin_deg_90 cos_deg_90
      Transform_inverse_def)

theorem explicit_matrices_frame_witness:
  "explicit_matrices adopted_example \<and>
   later_calls sin cos adopted_example adopted_example \<and>
   snd (UnitCell_set sin cos adopted_example 20 20 20 90 90 90) = None \<and>
   cell_frac (fst (UnitCell_set sin cos adopted_example 20 20 20 90 90 90))
     = cell_frac adopted_example \<and>
   cell_orth (fst (UnitCell_set sin cos adopted_example 20 20 20 90 90 90))
     = cell_orth adopted_example \<and>
   cell_a (fst (UnitCell_set sin cos adopted_example 20 20 20 90 90 90)) = 20 \<and>
   volume (fst (UnitCell_set sin cos adopted_example 20 20 20 90 90 90)) = 8000"
proof -
  define cell2 where "cell2 = fst (UnitCell_set sin cos adopted_example 20 20 20 90 90 90)"
  define err where "err = snd (UnitCell_set sin cos adopted_example 20 20 20 90 90 90)"
  have e: "explicit_matrices adopted_example"
    by (simp add: adopted_example_value)
  have l: "later_calls sin cos adopted_example adopted_example"
    by (rule no_call)
  have r: "UnitCell_set sin cos adopted_example 20 20 20 90 90 90 = (cell2, err)"
    by (simp add: cell2_def err_def)
  have ok: "err = None"
    unfolding err_def by (simp add: set_fails_iff sin_deg_90)
  have nz: "no_sine_zero sin cell2"
    unfolding cell2_def
    by (simp add: no_sine_zero_def UnitCell_set_def calculate_properties_def Let_def
        sin_deg_90 cos_deg_90 adopted_example_value)
  from explicit_matrices_frame [OF e l r] nz
  have "cell_frac cell2 = cell_frac adopted_example \<and>
        cell_orth cell2 = cell_orth adopted_example \<and> cell_a cell2 = 20 \<and>
        volume cell2 = 8000"
    by (simp add: cos_deg_90)
  with e l ok show ?thesis
    unfolding cell2_def err_def by simp
qed

text \<open>
  The claim as stated has every later call to \<open>set\<close> update \<open>a\<close>, \<open>b\<close>, \<open>c\<close>. A
  call with \<open>gamma = 0\<close> is ignored by the source ("ignore empty/partial CRYST1"):
  \<open>a\<close> stays 10 when \<open>set(20, 20, 20, 90, 90, 0)\<close> is called.
\<close>

theorem set_ignored_counterexample:
  "explicit_matrices adopted_example \<and>
   cell_a (fst (UnitCell_set sin cos adopted_example 20 20 20 90 90 0)) = 10"
  by (simp add: UnitCell_set_def adopted_example_value)

section \<open>Properties of the entity setter\<close>

subsection \<open>The loops of finalize\<close>

lemma mons_equal_iff: "length a = length b \<Longrightarrow> mons_equal a b = (a = b)"
  by (induction a b rule: list_induct2) auto

lemma same_entity_iff: "same_entity a b = (a \<noteq> [] \<and> a = b)"
  by (auto simp add: same_entity_def mons_equal_iff)

lemma differs_iff:
  "differs e x = (sequence (snd x) = [] \<or> sequence (snd x) \<noteq> sequence (snd e))"
  by (auto simp add: differs_def same_entity_iff)





lemma first_occurrences_keeps_empty:
  "x \<in> set xs \<Longrightarrow> sequence (snd x) = [] \<Longrightarrow> x \<in> set (first_occurrences xs)"
proof (induction xs rule: first_occurrences.induct)
  case 1
  then show ?case by simp
next
  case (2 e es)
  show ?case
  proof (cases "x = e")
    case True
    then show ?thesis by simp
  next
    case False
    with 2(2) have "x \<in> set es" by simp
    with 2(3) have "x \<in> set (filter (differs e) es)" by (simp add: differs_iff)
    from 2(1) [OF this 2(3)] show ?thesis by simp
  qed
qed




subsection \<open>The invariant of the loops\<close>









subsection \<open>The pointers of the chains and the serial numbers\<close>

lemma set_for_chain_props:
  assumes "set_for_chain s m name type = (p, s', m')"
  shows "m' name = Some p" and "m \<subseteq>\<^sub>m m'" and "models s' = models s"
    and "\<exists>extra. entities s' = entities s @ extra"
proof -
  have "m' name = Some p \<and> m \<subseteq>\<^sub>m m' \<and> models s' = models s \<and>
        (\<exists>extra. entities s' = entities s @ extra)"
  proof (cases "m name")
    case None
    with assms have "m' = m(name \<mapsto> p)"
      and "s' = s\<lparr>entities := entities s @
                   [(p, \<lparr>entity_id = [], entity_type = type, sequence = []\<rparr>)]\<rparr>"
      by (auto simp add: set_for_chain_def Let_def)
    with None show ?thesis by (auto simp add: map_le_def)
  next
    case (Some q)
    with assms have "m' = m" "s' = s" "p = q"
      by (auto simp add: set_for_chain_def)
    with Some show ?thesis by simp
  qed
  then show "m' name = Some p" and "m \<subseteq>\<^sub>m m'" and "models s' = models s"
    and "\<exists>extra. entities s' = entities s @ extra"
    by blast+
qed










subsection \<open>Chains with the same sequence share the earliest entity\<close>



section \<open>Properties of the reader\<close>

subsection \<open>Evaluation of the reader on a given file\<close>

lemma fgets_bytes_line:
  "LF \<notin> set cs \<Longrightarrow> length cs < n \<Longrightarrow> fgets_bytes n (cs @ LF # rest) = (cs @ [LF], rest)"
proof (induction cs arbitrary: n)
  case Nil
  then show ?case by (cases n) simp_all
next
  case (Cons c cs)
  then show ?case by (cases n) auto
qed

lemma replicate_NUL_7: "replicate 7 NUL = [NUL, NUL, NUL, NUL, NUL, NUL, NUL]"
  by (simp add: numeral_eq_Suc)

lemmas eval_scanners = ebind_def peek_def schar_def isspace_def is_digit_def read_sign_def
  skip_spaces.simps read_digits.simps read_digits_d.simps read_fraction.simps ltrim.simps
  find_eol.simps rtrim.simps read_int_def read_double_def read_string_def

lemmas eval_records = is_rec_def is_record_type_def record_key_def c_int_def cstr_def NUL_def
  LF_def CR_def

lemma fgets_bytes_numeral:
  "fgets_bytes (numeral k) (c # input) =
     (if c = LF then ([c], input)
      else case fgets_bytes (pred_numeral k) input of (cs, rest) \<Rightarrow> (c # cs, rest))"
  by (simp add: numeral_eq_Suc)

lemma fgets_bytes_numeral_Nil: "fgets_bytes (numeral k) [] = ([], [])"
  by (simp add: numeral_eq_Suc)

lemmas eval_lines = copy_line_from_stream_def fgets_bytes_numeral fgets_bytes_numeral_Nil
  c_string_def

subsection \<open>The matrix accumulator\<close>

text \<open>
  The MTRIX and SCALE branches set the accumulator back to the identity when the third
  row has been read; the ORIGX branch stores the accumulator and leaves it as it is.
\<close>

lemma on_mtrix_resets:
  assumes "on_mtrix r line len = Inr r'" and "read_matrix (matrix r) line len = Inr (3, m)"
  shows "matrix r' = identity44"
  using assms by (auto simp add: on_mtrix_def ebind_def split: if_splits sum.splits)

lemma on_scale_resets:
  assumes "on_scale r line len = Inr r'" and "read_matrix (matrix r) line len = Inr (3, m)"
  shows "matrix r' = identity44"
  using assms by (auto simp add: on_scale_def ebind_def)

lemma on_origx_keeps:
  assumes "on_origx r line len = Inr r'" and "read_matrix (matrix r) line len = Inr (3, m)"
  shows "matrix r' = m \<and> origx (st r') = m"
  using assms by (auto simp add: on_origx_def ebind_def)

lemma origx_run:
  "read_records sin cos origx_file (replicate 88 NUL) Reader_init = Inr origx_final"
  apply (simp add: origx_file_def)
  apply (subst read_records.simps)
  apply (simp add: eval_lines eval_records)
  apply (simp add: dispatch_def eval_records eval_scanners on_origx_def read_matrix_def to_schar_def)
  apply (subst read_records.simps)
  apply (simp add: eval_lines eval_records)
  apply (simp add: dispatch_def eval_records eval_scanners on_origx_def read_matrix_def to_schar_def)
  apply (subst read_records.simps)
  apply (simp add: eval_lines eval_records)
  apply (simp add: dispatch_def eval_records eval_scanners on_origx_def read_matrix_def to_schar_def)
  apply (subst read_records.simps)
  apply (simp add: eval_lines eval_records Reader_init_def find_or_add_model_def
      Structure_default_def identity44_def origx_final_def)
  done

text \<open>
  C8. At the end of a file that consists of the three records ORIGX1, ORIGX2 and ORIGX3
  of the matrix with 2 on its diagonal, three lines have been read, the accumulator
  is the matrix that was stored in \<open>st.origx\<close>, and it is not the identity.
\<close>

theorem origx_accumulator_not_reset:
  "\<exists>r. read_records sin cos origx_file (replicate 88 NUL) Reader_init = Inr r \<and>
       line_num r = 3 \<and> origx (st r) = matrix r \<and> matrix r \<noteq> identity44"
  by (simp add: origx_run origx_final_def identity44_def)

subsection \<open>Records that leave the chains alone\<close>

lemma skeleton_length [simp]: "length (skeleton r) = length (models (st r))"
  by (simp add: skeleton_def)

lemma skeleton_nth:
  "mi < length (models (st r)) \<Longrightarrow>
   skeleton r ! mi = (model_name (models (st r) ! mi),
                      map chain_names (chains (models (st r) ! mi)))"
  by (simp add: skeleton_def)

lemma chain_inv_cong:
  assumes "skeleton r' = skeleton r" and "has_ter r' = has_ter r"
    and "model_ptr r' = model_ptr r" and "chain_ptr r' = chain_ptr r"
    and "resi_ptr r' = resi_ptr r"
  shows "chain_inv r' = chain_inv r"
  unfolding chain_inv_def assms ..

lemma chain_inv_None: "chain_ptr r = None \<Longrightarrow> chain_inv r"
  by (simp add: chain_inv_def)

lemma put_model_fields [simp]:
  "has_ter (put_model r mi m) = has_ter r"
  "model_ptr (put_model r mi m) = model_ptr r"
  "chain_ptr (put_model r mi m) = chain_ptr r"
  "resi_ptr (put_model r mi m) = resi_ptr r"
  "models (st (put_model r mi m)) = (models (st r))[mi := m]"
  by (simp_all add: put_model_def)

lemma list_update_same_image:
  assumes "i < length xs \<Longrightarrow> f x = f (xs ! i)"
  shows "map f (xs[i := x]) = map f xs"
proof (cases "i < length xs")
  case True
  with assms have "f x = map f xs ! i" by simp
  then show ?thesis by (simp add: map_update)
next
  case False
  then have "length xs \<le> i" by simp
  then have "xs[i := x] = xs" by (rule list_update_beyond)
  then show ?thesis by simp
qed

lemma skeleton_put_model:
  assumes "mi < length (models (st r)) \<Longrightarrow>
           model_name m = model_name (models (st r) ! mi) \<and>
           map chain_names (chains m) = map chain_names (chains (models (st r) ! mi))"
  shows "skeleton (put_model r mi m) = skeleton r"
  unfolding skeleton_def put_model_fields
  by (rule list_update_same_image) (simp add: assms)

lemma skeleton_put_chain:
  assumes "mi < length (models (st r)) \<Longrightarrow> ci < length (chains (models (st r) ! mi)) \<Longrightarrow>
           chain_names c = chain_names (chains (models (st r) ! mi) ! ci)"
  shows "skeleton (put_chain r (mi, ci) c) = skeleton r"
  unfolding put_chain_def prod.case Let_def
  by (rule skeleton_put_model) (simp add: list_update_same_image assms)

lemma skeleton_put_residue: "skeleton (put_residue r p res) = skeleton r"
proof -
  obtain mi ci ri where p: "p = (mi, ci, ri)" by (cases p)
  show ?thesis
    unfolding p put_residue_def prod.case Let_def
    by (rule skeleton_put_chain) (simp add: chain_names_def)
qed

lemma put_chain_fields [simp]:
  "has_ter (put_chain r p c) = has_ter r"
  "model_ptr (put_chain r p c) = model_ptr r"
  "chain_ptr (put_chain r p c) = chain_ptr r"
  "resi_ptr (put_chain r p c) = resi_ptr r"
  by (cases p; simp add: put_chain_def Let_def)+

lemma put_residue_fields [simp]:
  "has_ter (put_residue r p res) = has_ter r"
  "model_ptr (put_residue r p res) = model_ptr r"
  "chain_ptr (put_residue r p res) = chain_ptr r"
  "resi_ptr (put_residue r p res) = resi_ptr r"
  by (cases p; simp add: put_residue_def Let_def)+

lemma chain_inv_put_residue: "chain_inv (put_residue r p res) = chain_inv r"
  by (rule chain_inv_cong) (simp_all add: skeleton_put_residue)

lemma unmoved_inv: "unmoved r r' \<Longrightarrow> chain_inv r' = chain_inv r"
  unfolding unmoved_def by (intro chain_inv_cong) simp_all

lemma unmoved_refl: "unmoved r r"
  by (simp add: unmoved_def)

lemma unmoved_trans: "unmoved r r1 \<Longrightarrow> unmoved r1 r2 \<Longrightarrow> unmoved r r2"
  by (simp add: unmoved_def)

lemma unmoved_line_num: "unmoved r (r\<lparr>line_num := n\<rparr>)"
  by (simp add: unmoved_def skeleton_def)

lemma unmoved_conn_records: "unmoved r (r\<lparr>conn_records := cs\<rparr>)"
  by (simp add: unmoved_def skeleton_def)

lemma unmoved_matrix: "unmoved r (r\<lparr>matrix := m\<rparr>)"
  by (simp add: unmoved_def skeleton_def)

lemma unmoved_st:
  "models s = models (st r) \<Longrightarrow> unmoved r (r\<lparr>st := s\<rparr>)"
  by (simp add: unmoved_def skeleton_def)

lemma unmoved_st_setter:
  "models s = models (st r) \<Longrightarrow> unmoved r (r\<lparr>st := s, ent_setter := e\<rparr>)"
  by (simp add: unmoved_def skeleton_def)

lemma unmoved_st_matrix:
  "models s = models (st r) \<Longrightarrow> unmoved r (r\<lparr>st := s, matrix := m\<rparr>)"
  by (simp add: unmoved_def skeleton_def)

lemma ebind_Inr: "ebind x f = Inr y \<Longrightarrow> \<exists>v. x = Inr v \<and> f v = Inr y"
  by (cases x) (simp_all add: ebind_def)

lemma on_seqres_unmoved:
  assumes "on_seqres r line = Inr r'"
  shows "unmoved r r'"
proof -
  from assms obtain name where
    a: "(case set_for_chain (st r) (ent_setter r) name Polymer of
          (ent, s1, setter1) \<Rightarrow>
            ebind (seqres_loop line 19 ent (entities s1)) (\<lambda>ents.
            Inr (r\<lparr>st := s1\<lparr>entities := ents\<rparr>, ent_setter := setter1\<rparr>))) = Inr r'"
    unfolding on_seqres_def by (blast dest: ebind_Inr)
  obtain ent s1 setter1 where s: "set_for_chain (st r) (ent_setter r) name Polymer
      = (ent, s1, setter1)"
    by (metis prod_cases3)
  from a s obtain ents where "r' = r\<lparr>st := s1\<lparr>entities := ents\<rparr>, ent_setter := setter1\<rparr>"
    by (auto dest: ebind_Inr)
  moreover have "models (s1\<lparr>entities := ents\<rparr>) = models (st r)"
    using set_for_chain_props(3) [OF s] by simp
  ultimately show ?thesis by (simp add: unmoved_st_setter)
qed

lemma on_cryst1_unmoved:
  assumes "on_cryst1 fsin fcos r line len = Inr r'"
  shows "unmoved r r'"
proof (cases "len > 54")
  case False
  with assms show ?thesis by (simp add: on_cryst1_def unmoved_refl)
next
  case True
  with assms obtain a b c al be ga where
    "(case UnitCell_set fsin fcos (st_cell (st r)) a b c al be ga of
        (cell', Some e) \<Rightarrow> Inl e
      | (cell', None) \<Rightarrow> Inr (r\<lparr>st := (st r)\<lparr>st_cell := cell'\<rparr>\<rparr>)) = Inr r'"
    unfolding on_cryst1_def by (simp only: if_True) (blast dest: ebind_Inr)
  then obtain cell' where "r' = r\<lparr>st := (st r)\<lparr>st_cell := cell'\<rparr>\<rparr>"
    by (auto split: prod.splits option.splits)
  then show ?thesis by (simp add: unmoved_st)
qed

lemma on_mtrix_unmoved:
  assumes "on_mtrix r line len = Inr r'"
  shows "unmoved r r'"
  using assms
  by (auto simp add: on_mtrix_def unmoved_matrix unmoved_st_matrix split: if_splits
      dest!: ebind_Inr)

lemma on_scale_unmoved:
  assumes "on_scale r line len = Inr r'"
  shows "unmoved r r'"
  using assms
  by (auto simp add: on_scale_def unmoved_matrix unmoved_st_matrix split: if_splits
      dest!: ebind_Inr)

lemma on_origx_unmoved:
  assumes "on_origx r line len = Inr r'"
  shows "unmoved r r'"
  using assms
  by (auto simp add: on_origx_def unmoved_matrix unmoved_st_matrix split: if_splits
      dest!: ebind_Inr)

lemma unmoved_put_residue: "unmoved r (put_residue r p res)"
  by (simp add: unmoved_def skeleton_put_residue)

lemma on_anisou_unmoved:
  assumes "on_anisou r line = Inr r'"
  shows "unmoved r r'"
  using assms
  by (auto simp add: on_anisou_def wrong_def Let_def unmoved_put_residue
      split: option.splits if_splits dest!: ebind_Inr)

lemma on_model_closed:
  assumes "on_model r line = Inr r'"
  shows "chain_ptr r' = None \<and> has_ter r' = has_ter r"
  using assms
  by (auto simp add: on_model_def wrong_def Let_def split: if_splits prod.splits
      dest!: ebind_Inr)

lemma on_ter_closed:
  assumes "on_ter r = Inr r'"
  shows "chain_ptr r' = None \<and> set (has_ter r) \<subseteq> set (has_ter r')"
  using assms
  by (auto simp add: on_ter_def split: option.splits dest!: ebind_Inr)

subsection \<open>The current chain\<close>

lemma skeleton_chain:
  assumes "valid_chain r mi ci"
  shows "fst (skeleton r ! mi) = model_name (models (st r) ! mi)"
    and "length (snd (skeleton r ! mi)) = length (chains (models (st r) ! mi))"
    and "snd (skeleton r ! mi) ! ci = (chain_name (chain_at r mi ci), auth_name (chain_at r mi ci))"
  using assms by (simp_all add: valid_chain_def skeleton_nth chain_at_def chain_names_def)

lemma skeleton_valid:
  "mi < length (skeleton r) \<Longrightarrow> ci < length (snd (skeleton r ! mi)) \<Longrightarrow> valid_chain r mi ci"
  by (simp add: valid_chain_def skeleton_nth)

lemma skeleton_eq_names:
  assumes "skeleton r' = skeleton r" and "valid_chain r mi ci"
  shows "valid_chain r' mi ci"
    and "model_name (models (st r') ! mi) = model_name (models (st r) ! mi)"
    and "chain_name (chain_at r' mi ci) = chain_name (chain_at r mi ci)"
    and "auth_name (chain_at r' mi ci) = auth_name (chain_at r mi ci)"
proof -
  from assms(2) have "mi < length (skeleton r)" "ci < length (snd (skeleton r ! mi))"
    by (simp_all add: valid_chain_def skeleton_nth)
  then have "mi < length (skeleton r')" "ci < length (snd (skeleton r' ! mi))"
    by (simp_all only: assms(1))
  then show v: "valid_chain r' mi ci" by (rule skeleton_valid)
  from skeleton_chain(1) [OF v] skeleton_chain(1) [OF assms(2)]
  show "model_name (models (st r') ! mi) = model_name (models (st r) ! mi)"
    by (simp add: assms(1))
  from skeleton_chain(3) [OF v] skeleton_chain(3) [OF assms(2)]
  show "chain_name (chain_at r' mi ci) = chain_name (chain_at r mi ci)"
    and "auth_name (chain_at r' mi ci) = auth_name (chain_at r mi ci)"
    by (simp_all add: assms(1))
qed

lemma chain_inv_current:
  assumes "chain_inv r" and "chain_ptr r = Some (mi, ci)"
  shows "model_ptr r = Some mi" and "valid_chain r mi ci"
    and "chain_name (chain_at r mi ci) =
         closed_name (has_ter r) (model_name (models (st r) ! mi)) (auth_name (chain_at r mi ci))"
    and "resi_ptr r = Some (mj, cj, ri) \<Longrightarrow> mj = mi \<and> cj = ci"
proof -
  from assms have a: "model_ptr r = Some mi" "mi < length (skeleton r)"
    "ci < length (snd (skeleton r ! mi))"
    "fst (snd (skeleton r ! mi) ! ci) =
       closed_name (has_ter r) (fst (skeleton r ! mi)) (snd (snd (skeleton r ! mi) ! ci))"
    by (simp_all add: chain_inv_def)
  show "model_ptr r = Some mi" by (rule a(1))
  from a(2,3) show v: "valid_chain r mi ci" by (rule skeleton_valid)
  from a(4) show "chain_name (chain_at r mi ci) =
         closed_name (has_ter r) (model_name (models (st r) ! mi)) (auth_name (chain_at r mi ci))"
    by (simp add: skeleton_chain [OF v])
  from assms show "resi_ptr r = Some (mj, cj, ri) \<Longrightarrow> mj = mi \<and> cj = ci"
    by (simp add: chain_inv_def)
qed

lemma chain_invI:
  assumes "chain_ptr r = Some (mi, ci)" and "model_ptr r = Some mi" and "valid_chain r mi ci"
    and "chain_name (chain_at r mi ci) =
         closed_name (has_ter r) (model_name (models (st r) ! mi)) (auth_name (chain_at r mi ci))"
    and "\<And>mj cj ri. resi_ptr r = Some (mj, cj, ri) \<Longrightarrow> mj = mi \<and> cj = ci"
  shows "chain_inv r"
proof -
  have "case resi_ptr r of None \<Rightarrow> True | Some (mj, cj, ri) \<Rightarrow> mj = mi \<and> cj = ci"
    using assms(5) by (auto split: option.splits)
  with assms(1-4) show ?thesis
    by (simp add: chain_inv_def skeleton_chain [OF assms(3)] valid_chain_def
        del: skeleton_length)
      (simp add: valid_chain_def)
qed

lemma get_model_Inr:
  "get_model r mi = Inr m \<Longrightarrow> mi < length (models (st r)) \<and> m = models (st r) ! mi"
  by (auto simp add: get_model_def split: if_splits)

lemma get_chain_Inr:
  "get_chain r (mi, ci) = Inr c \<Longrightarrow> valid_chain r mi ci \<and> c = chain_at r mi ci"
  by (auto simp add: get_chain_def valid_chain_def chain_at_def split: if_splits
      dest!: ebind_Inr get_model_Inr)

lemma get_residue_Inr:
  "get_residue r (mi, ci, ri) = Inr res \<Longrightarrow>
   valid_chain r mi ci \<and> ri < length (residues (chain_at r mi ci)) \<and>
   res = residues (chain_at r mi ci) ! ri"
  by (auto simp add: get_residue_def split: if_splits dest!: ebind_Inr get_chain_Inr)

lemma find_first_Some: "find_first P xs = Some i \<Longrightarrow> i < length xs \<and> P (xs ! i)"
proof (induction xs arbitrary: i)
  case Nil
  then show ?case by simp
next
  case (Cons x xs)
  show ?case
  proof (cases "P x")
    case True
    with Cons.prems show ?thesis by simp
  next
    case False
    with Cons.prems obtain j where "find_first P xs = Some j" "i = Suc j"
      by auto
    with Cons.IH [of j] show ?thesis by simp
  qed
qed

lemma find_or_add_chain_props:
  assumes "find_or_add_chain m name = (ci, m')"
  shows "model_name m' = model_name m" and "ci < length (chains m')"
    and "chain_name (chains m' ! ci) = name"
proof -
  show "model_name m' = model_name m"
    using assms by (auto simp add: find_or_add_chain_def split: option.splits)
  show "ci < length (chains m')" and "chain_name (chains m' ! ci) = name"
    using assms
    by (auto simp add: find_or_add_chain_def nth_append split: option.splits
        dest: find_first_Some)
qed

lemma find_or_add_residue_props:
  assumes "find_or_add_residue c rid = (ri, c')"
  shows "chain_names c' = chain_names c" and "ri < length (residues c')"
  using assms
  by (auto simp add: find_or_add_residue_def chain_names_def split: option.splits
      dest: find_first_Some)

lemma open_chain_props:
  assumes inv: "chain_inv r" and mp: "model_ptr r = Some mj"
    and oc: "open_chain r X = Inr r1"
  shows "\<exists>ci. chain_ptr r1 = Some (mj, ci) \<and> valid_chain r1 mj ci \<and>
              auth_name (chain_at r1 mj ci) = X \<and>
              model_name (models (st r1) ! mj) = model_name (models (st r) ! mj) \<and>
              chain_inv r1 \<and> has_ter r1 = has_ter r \<and> model_ptr r1 = Some mj"
proof -
  define test :: "error + bool" where "test =
    (case chain_ptr r of
       None \<Rightarrow> Inr True
     | Some p \<Rightarrow> ebind (get_chain r p) (\<lambda>c. Inr (X \<noteq> auth_name c)))"
  define k :: "nat \<Rightarrow> Model \<Rightarrow> error + Reader" where "k = (\<lambda>mi m.
    let ter = (model_name m @ ''/'' @ X) \<in> set (has_ter r)
    in case find_or_add_chain m (X @ (if ter then ''_H'' else [])) of
         (ci, m') \<Rightarrow>
           let c = chains m' ! ci;
               m'' = m'\<lparr>chains := (chains m')[ci := c\<lparr>auth_name := X\<rparr>]\<rparr>
           in Inr ((put_model r mi m'')\<lparr>chain_ptr := Some (mi, ci), resi_ptr := None\<rparr>))"
  have "open_chain r X =
      ebind test (\<lambda>other.
        if other then
          (case model_ptr r of
             None \<Rightarrow> wrong r ''ATOM/HETATM between models''
           | Some mi \<Rightarrow> ebind (get_model r mi) (k mi))
        else Inr r)"
    unfolding open_chain_def test_def k_def by (rule refl)
  with oc obtain other where o: "test = Inr other"
    and rest: "(if other then
          (case model_ptr r of
             None \<Rightarrow> wrong r ''ATOM/HETATM between models''
           | Some mi \<Rightarrow> ebind (get_model r mi) (k mi))
        else Inr r) = Inr r1"
    by (auto dest: ebind_Inr)
  show ?thesis
  proof (cases other)
    case False
    with rest have r1: "r1 = r" by simp
    from o False obtain mi ci c where p: "chain_ptr r = Some (mi, ci)"
      and g: "get_chain r (mi, ci) = Inr c" and a: "X = auth_name c"
      unfolding test_def by (auto split: option.splits dest!: ebind_Inr)
    from chain_inv_current(1) [OF inv p] mp have mi: "mi = mj" by simp
    from get_chain_Inr [OF g] a have "valid_chain r mj ci" "auth_name (chain_at r mj ci) = X"
      by (simp_all add: mi)
    with p inv mp show ?thesis unfolding r1 mi by blast
  next
    case True
    with rest mp have "ebind (get_model r mj) (k mj) = Inr r1" by simp
    then obtain m where gm: "get_model r mj = Inr m" and b: "k mj m = Inr r1"
      by (auto dest: ebind_Inr)
    from get_model_Inr [OF gm] have mj: "mj < length (models (st r))"
      and m: "m = models (st r) ! mj" by simp_all
    let ?name = "closed_name (has_ter r) (model_name m) X"
    obtain ci m' where f: "find_or_add_chain m ?name = (ci, m')"
      by (cases "find_or_add_chain m ?name")
    let ?m = "m'\<lparr>chains := (chains m')[ci := (chains m' ! ci)\<lparr>auth_name := X\<rparr>]\<rparr>"
    from b f have r1: "r1 = (put_model r mj ?m)\<lparr>chain_ptr := Some (mj, ci), resi_ptr := None\<rparr>"
      by (simp add: k_def closed_name_def Let_def)
    note fp = find_or_add_chain_props [OF f]
    have ms: "models (st r1) = (models (st r))[mj := ?m]"
      by (simp add: r1)
    have at: "models (st r1) ! mj = ?m"
      using mj by (simp add: ms)
    have v: "valid_chain r1 mj ci"
      using mj fp(2) by (simp add: valid_chain_def ms)
    have c: "chain_at r1 mj ci = (chains m' ! ci)\<lparr>auth_name := X\<rparr>"
      using fp(2) by (simp add: chain_at_def at)
    have mn: "model_name (models (st r1) ! mj) = model_name m"
      by (simp add: at fp(1))
    have cp: "chain_ptr r1 = Some (mj, ci)" and mp1: "model_ptr r1 = Some mj"
      and ht: "has_ter r1 = has_ter r" and rp: "resi_ptr r1 = None"
      by (simp_all add: r1 mp)
    have "chain_inv r1"
      using cp mp1 v
    proof (rule chain_invI)
      show "chain_name (chain_at r1 mj ci) =
          closed_name (has_ter r1) (model_name (models (st r1) ! mj)) (auth_name (chain_at r1 mj ci))"
        by (simp add: c mn ht fp(3))
    next
      fix mk ck rk
      assume "resi_ptr r1 = Some (mk, ck, rk)"
      with rp show "mk = mj \<and> ck = ci" by simp
    qed
    with cp v c mn m ht mp1 show ?thesis by simp
  qed
qed

lemma select_residue_props:
  assumes inv: "chain_inv r" and cp: "chain_ptr r = Some (mi, ci)"
    and sr: "select_residue r rid = Inr r'"
  shows "skeleton r' = skeleton r \<and> has_ter r' = has_ter r \<and> model_ptr r' = model_ptr r \<and>
         chain_ptr r' = chain_ptr r \<and> (\<exists>ri. resi_ptr r' = Some (mi, ci, ri))"
proof -
  define test :: "error + bool" where "test =
    (case resi_ptr r of
       None \<Rightarrow> Inr True
     | Some p \<Rightarrow> ebind (get_residue r p) (\<lambda>res. Inr (\<not> matches res rid)))"
  define k :: "nat \<Rightarrow> nat \<Rightarrow> Chain \<Rightarrow> error + Reader" where "k = (\<lambda>mi ci c.
    case find_or_add_residue c rid of
      (ri, c') \<Rightarrow> Inr ((put_chain r (mi, ci) c')\<lparr>resi_ptr := Some (mi, ci, ri)\<rparr>))"
  have "select_residue r rid =
      ebind test (\<lambda>other.
        if other then
          (case chain_ptr r of
             None \<Rightarrow> Inl NullPointer
           | Some (mi, ci) \<Rightarrow> ebind (get_chain r (mi, ci)) (k mi ci))
        else Inr r)"
    unfolding select_residue_def test_def k_def by (rule refl)
  with sr obtain other where o: "test = Inr other"
    and rest: "(if other then
          (case chain_ptr r of
             None \<Rightarrow> Inl NullPointer
           | Some (mi, ci) \<Rightarrow> ebind (get_chain r (mi, ci)) (k mi ci))
        else Inr r) = Inr r'"
    by (auto dest: ebind_Inr)
  show ?thesis
  proof (cases other)
    case False
    with rest have r': "r' = r" by simp
    from o False obtain mj cj ri where rp: "resi_ptr r = Some (mj, cj, ri)"
      unfolding test_def by (auto split: option.splits)
    from chain_inv_current(4) [OF inv cp rp] rp show ?thesis
      unfolding r' by simp
  next
    case True
    with rest cp have "ebind (get_chain r (mi, ci)) (k mi ci) = Inr r'" by simp
    then obtain c where gc: "get_chain r (mi, ci) = Inr c" and b: "k mi ci c = Inr r'"
      by (auto dest: ebind_Inr)
    obtain ri c' where f: "find_or_add_residue c rid = (ri, c')"
      by (cases "find_or_add_residue c rid")
    from b f have r': "r' = (put_chain r (mi, ci) c')\<lparr>resi_ptr := Some (mi, ci, ri)\<rparr>"
      by (simp add: k_def)
    have "chain_names c' = chain_names (chains (models (st r) ! mi) ! ci)"
      using find_or_add_residue_props(1) [OF f] get_chain_Inr [OF gc]
      by (simp add: chain_at_def)
    then have "skeleton (put_chain r (mi, ci) c') = skeleton r"
      by (intro skeleton_put_chain)
    then have "skeleton r' = skeleton r"
      by (simp add: r' skeleton_def)
    then show ?thesis by (simp add: r')
  qed
qed

lemma append_atom_props:
  assumes ap: "append_atom r atom = Inr r'" and rp: "resi_ptr r = Some (mi, ci, ri)"
  shows "unmoved r r'" and "valid_chain r' mi ci"
    and "ri < length (residues (chain_at r' mi ci))"
    and "atoms (residues (chain_at r' mi ci) ! ri) =
         atoms (residues (chain_at r mi ci) ! ri) @ [atom]"
proof -
  from ap rp obtain res where g: "get_residue r (mi, ci, ri) = Inr res"
    and r': "r' = put_residue r (mi, ci, ri) (res\<lparr>atoms := atoms res @ [atom]\<rparr>)"
    by (auto simp add: append_atom_def dest!: ebind_Inr)
  from get_residue_Inr [OF g] have v: "valid_chain r mi ci"
    and ri: "ri < length (residues (chain_at r mi ci))"
    and res: "res = residues (chain_at r mi ci) ! ri"
    by simp_all
  show "unmoved r r'" unfolding r' by (rule unmoved_put_residue)
  from v ri show "valid_chain r' mi ci" and "ri < length (residues (chain_at r' mi ci))"
    and "atoms (residues (chain_at r' mi ci) ! ri) =
         atoms (residues (chain_at r mi ci) ! ri) @ [atom]"
    by (simp_all add: r' res put_residue_def put_chain_def put_model_def Let_def
        valid_chain_def chain_at_def)
qed

lemma open_chain_model:
  assumes inv: "chain_inv r" and oc: "open_chain r X = Inr r1"
  shows "\<exists>mj. model_ptr r = Some mj"
proof (cases "model_ptr r")
  case (Some mj)
  then show ?thesis by simp
next
  case None
  have "chain_ptr r = None"
  proof (cases "chain_ptr r")
    case (Some p)
    obtain mi ci where "p = (mi, ci)" by (cases p)
    with Some chain_inv_current(1) [OF inv, of mi ci] None show ?thesis by simp
  qed simp
  with None oc show ?thesis
    by (simp add: open_chain_def ebind_def wrong_def)
qed

lemma on_atom_props:
  assumes inv: "chain_inv r" and oa: "on_atom r line len = Inr r'"
  shows "\<exists>X mj ci ri atom old.
     read_string (drop 20 line) 2 = Inr X \<and> model_ptr r = Some mj \<and>
     chain_ptr r' = Some (mj, ci) \<and> resi_ptr r' = Some (mj, ci, ri) \<and>
     valid_chain r' mj ci \<and> ri < length (residues (chain_at r' mj ci)) \<and>
     model_name (models (st r') ! mj) = model_name (models (st r) ! mj) \<and>
     auth_name (chain_at r' mj ci) = X \<and>
     chain_name (chain_at r' mj ci) =
       closed_name (has_ter r) (model_name (models (st r) ! mj)) X \<and>
     read_atom line len = Inr atom \<and>
     atoms (residues (chain_at r' mj ci) ! ri) = old @ [atom] \<and>
     chain_inv r' \<and> has_ter r' = has_ter r"
proof -
  from oa have "\<exists>X r1 rid r2 atom.
      read_string (drop 20 line) 2 = Inr X \<and> open_chain r X = Inr r1 \<and>
      select_residue r1 rid = Inr r2 \<and> read_atom line len = Inr atom \<and>
      append_atom r2 atom = Inr r'"
    by (clarsimp simp add: on_atom_def wrong_def split: if_splits dest!: ebind_Inr) blast
  then obtain X r1 rid r2 atom where
    rs: "read_string (drop 20 line) 2 = Inr X" and oc: "open_chain r X = Inr r1"
    and sr: "select_residue r1 rid = Inr r2" and ra: "read_atom line len = Inr atom"
    and ap: "append_atom r2 atom = Inr r'"
    by blast
  from open_chain_model [OF inv oc] obtain mj where mp: "model_ptr r = Some mj" ..
  from open_chain_props [OF inv mp oc] obtain ci where
    cp1: "chain_ptr r1 = Some (mj, ci)" and v1: "valid_chain r1 mj ci"
    and au1: "auth_name (chain_at r1 mj ci) = X"
    and mn1: "model_name (models (st r1) ! mj) = model_name (models (st r) ! mj)"
    and inv1: "chain_inv r1" and ht1: "has_ter r1 = has_ter r" and mp1: "model_ptr r1 = Some mj"
    by blast
  from chain_inv_current(3) [OF inv1 cp1]
  have cn1: "chain_name (chain_at r1 mj ci) =
      closed_name (has_ter r) (model_name (models (st r) ! mj)) X"
    by (simp add: ht1 mn1 au1)
  from select_residue_props [OF inv1 cp1 sr] obtain ri where
    sk2: "skeleton r2 = skeleton r1" and ht2: "has_ter r2 = has_ter r1"
    and mp2: "model_ptr r2 = model_ptr r1" and cp2: "chain_ptr r2 = chain_ptr r1"
    and rp2: "resi_ptr r2 = Some (mj, ci, ri)"
    by blast
  note n2 = skeleton_eq_names [OF sk2 v1]
  note a = append_atom_props [OF ap rp2]
  from a(1) have sk3: "skeleton r' = skeleton r2" and ht3: "has_ter r' = has_ter r2"
    and mp3: "model_ptr r' = model_ptr r2" and cp3: "chain_ptr r' = chain_ptr r2"
    and rp3: "resi_ptr r' = resi_ptr r2"
    by (simp_all add: unmoved_def)
  note n3 = skeleton_eq_names [OF sk3 n2(1)]
  have cp: "chain_ptr r' = Some (mj, ci)" by (simp add: cp3 cp2 cp1)
  have mp': "model_ptr r' = Some mj" by (simp add: mp3 mp2 mp1)
  have rp: "resi_ptr r' = Some (mj, ci, ri)" by (simp add: rp3 rp2)
  have ht: "has_ter r' = has_ter r" by (simp add: ht3 ht2 ht1)
  have mn: "model_name (models (st r') ! mj) = model_name (models (st r) ! mj)"
    by (simp add: n3(2) n2(2) mn1)
  have au: "auth_name (chain_at r' mj ci) = X" by (simp add: n3(4) n2(4) au1)
  have cn: "chain_name (chain_at r' mj ci) =
      closed_name (has_ter r) (model_name (models (st r) ! mj)) X"
    by (simp add: n3(3) n2(3) cn1)
  have "chain_inv r'"
    using cp mp' a(2)
  proof (rule chain_invI)
    show "chain_name (chain_at r' mj ci) =
        closed_name (has_ter r') (model_name (models (st r') ! mj)) (auth_name (chain_at r' mj ci))"
      by (simp add: cn ht mn au)
  next
    fix mk ck rk
    assume "resi_ptr r' = Some (mk, ck, rk)"
    with rp show "mk = mj \<and> ck = ci" by simp
  qed
  with rs mp cp rp a(2) a(3) a(4) mn au cn ra ht show ?thesis by blast
qed

lemma dispatch_cases:
  assumes "dispatch fsin fcos r line len = Inr (r', stop)"
    and "rn = r\<lparr>line_num := line_num r + 1\<rparr>"
  shows "on_atom rn line len = Inr r' \<or> on_anisou rn line = Inr r' \<or>
         on_seqres rn line = Inr r' \<or> on_cryst1 fsin fcos rn line len = Inr r' \<or>
         on_mtrix rn line len = Inr r' \<or> on_model rn line = Inr r' \<or>
         r' = on_endmdl rn \<or> on_ter rn = Inr r' \<or> on_scale rn line len = Inr r' \<or>
         on_origx rn line len = Inr r' \<or> r' = rn \<or>
         r' = rn\<lparr>conn_records := conn_records rn @ [c_string line]\<rparr>"
  using assms(1) unfolding dispatch_def Let_def assms(2) [symmetric]
  by (auto split: if_splits dest!: ebind_Inr)

lemma dispatch_step:
  assumes inv: "chain_inv r" and d: "dispatch fsin fcos r line len = Inr (r', stop)"
  shows "chain_inv r' \<and> set (has_ter r) \<subseteq> set (has_ter r')"
proof -
  define rn where "rn = r\<lparr>line_num := line_num r + 1\<rparr>"
  have u: "unmoved r rn" unfolding rn_def by (rule unmoved_line_num)
  then have invn: "chain_inv rn" and ht: "has_ter rn = has_ter r"
    using inv by (simp_all add: unmoved_inv) (simp add: unmoved_def)
  have un: "unmoved rn x \<Longrightarrow> chain_inv x \<and> set (has_ter r) \<subseteq> set (has_ter x)" for x
    using invn ht by (simp add: unmoved_inv) (simp add: unmoved_def)
  have cl: "chain_ptr x = None \<Longrightarrow> set (has_ter rn) \<subseteq> set (has_ter x) \<Longrightarrow>
      chain_inv x \<and> set (has_ter r) \<subseteq> set (has_ter x)" for x
    using ht by (simp add: chain_inv_None)
  from dispatch_cases [OF d rn_def]
  consider "on_atom rn line len = Inr r'" | "on_anisou rn line = Inr r'"
    | "on_seqres rn line = Inr r'" | "on_cryst1 fsin fcos rn line len = Inr r'"
    | "on_mtrix rn line len = Inr r'" | "on_model rn line = Inr r'"
    | "r' = on_endmdl rn" | "on_ter rn = Inr r'" | "on_scale rn line len = Inr r'"
    | "on_origx rn line len = Inr r'" | "r' = rn"
    | "r' = rn\<lparr>conn_records := conn_records rn @ [c_string line]\<rparr>"
    by blast
  then show ?thesis
  proof cases
    case 1
    from on_atom_props [OF invn 1] ht show ?thesis by auto
  next
    case 2
    then show ?thesis by (intro un on_anisou_unmoved)
  next
    case 3
    then show ?thesis by (intro un on_seqres_unmoved)
  next
    case 4
    then show ?thesis by (intro un on_cryst1_unmoved)
  next
    case 5
    then show ?thesis by (intro un on_mtrix_unmoved)
  next
    case 6
    from on_model_closed [OF 6] show ?thesis by (intro cl) simp_all
  next
    case 7
    then show ?thesis by (intro cl) (simp_all add: on_endmdl_def)
  next
    case 8
    from on_ter_closed [OF 8] show ?thesis by (intro cl) simp_all
  next
    case 9
    then show ?thesis by (intro un on_scale_unmoved)
  next
    case 10
    then show ?thesis by (intro un on_origx_unmoved)
  next
    case 11
    then show ?thesis by (intro un) (simp add: unmoved_refl)
  next
    case 12
    then show ?thesis by (intro un) (simp add: unmoved_conn_records)
  qed
qed

lemma reaches_inv:
  "reaches fsin fcos r r' \<Longrightarrow> chain_inv r \<Longrightarrow>
   chain_inv r' \<and> set (has_ter r) \<subseteq> set (has_ter r')"
proof (induction rule: reaches.induct)
  case (start r)
  then show ?case by simp
next
  case (turn r r1 line len r2 stop)
  from turn.IH [OF turn.prems] have "chain_inv r1" and s: "set (has_ter r) \<subseteq> set (has_ter r1)"
    by simp_all
  from dispatch_step [OF this(1) turn.hyps(2)] s show ?case by auto
qed

lemma chain_inv_init: "chain_inv Reader_init"
  by (rule chain_inv_None)
    (simp add: Reader_init_def find_or_add_model_def Structure_default_def)

lemma reaches_front:
  "reaches fsin fcos r1 r' \<Longrightarrow> dispatch fsin fcos r line len = Inr (r1, stop) \<Longrightarrow>
   reaches fsin fcos r r'"
proof (induction rule: reaches.induct)
  case (start r1)
  from reaches.start this show ?case by (rule reaches.turn)
next
  case (turn r1 r2 line' len' r3 stop')
  from turn.IH [OF turn.prems] turn.hyps(2) show ?case by (rule reaches.turn)
qed

lemma read_records_reaches:
  "read_records fsin fcos input line r = Inr r' \<Longrightarrow> reaches fsin fcos r r'"
proof (induction fsin fcos input line r rule: read_records.induct)
  case (1 fsin fcos input line r)
  obtain line' len rest where c: "copy_line_from_stream line 82 input = (line', len, rest)"
    by (metis prod_cases3)
  show ?case
  proof (cases "len = 0")
    case True
    with 1(2) c have "r' = r" by (simp add: read_records.simps)
    then show ?thesis by (simp add: reaches.start)
  next
    case False
    with 1(2) c obtain r1 stop where d: "dispatch fsin fcos r line' len = Inr (r1, stop)"
      and rest: "if stop then r' = r1 else read_records fsin fcos rest line' r1 = Inr r'"
      by (auto simp add: read_records.simps [of fsin fcos input] split: sum.splits if_splits)
    show ?thesis
    proof (cases stop)
      case True
      with rest have "r' = r1" by simp
      with reaches.turn [OF reaches.start d] show ?thesis by simp
    next
      case stop: False
      with rest have "read_records fsin fcos rest line' r1 = Inr r'" by simp
      from 1(1) [OF c [symmetric] refl False d refl stop this]
      have "reaches fsin fcos r1 r'" .
      then show ?thesis using d by (rule reaches_front)
    qed
  qed
qed

subsection \<open>TER closes a chain name\<close>

lemma is_rec_key:
  assumes "is_rec line a" and "is_rec line b"
  shows "record_key (cstr a 0) (cstr a 1) (cstr a 2) (cstr a 3) =
         record_key (cstr b 0) (cstr b 1) (cstr b 2) (cstr b 3)"
  using assms by (auto simp add: is_rec_def is_record_type_def dest!: ebind_Inr)

lemma ter_key: "record_key (cstr ''TER'' 0) (cstr ''TER'' 1) (cstr ''TER'' 2) (cstr ''TER'' 3) = 0x54455200"
  by (simp add: record_key_def c_int_def cstr_def NUL_def)

lemma ter_excludes:
  assumes "is_rec line ''TER''"
    and "record_key (cstr b 0) (cstr b 1) (cstr b 2) (cstr b 3) \<noteq> 0x54455200"
  shows "\<not> is_rec line b"
  using is_rec_key [OF assms(1), of b] assms(2) unfolding ter_key by auto

lemma ter_only:
  assumes "is_rec line ''TER''"
  shows "\<not> is_rec line ''ATOM''" and "\<not> is_rec line ''HETATM''"
    and "\<not> is_rec line ''ANISOU''" and "\<not> is_rec line ''REMARK''"
    and "\<not> is_rec line ''CONECT''" and "\<not> is_rec line ''SEQRES''"
    and "\<not> is_rec line ''HEADER''" and "\<not> is_rec line ''TITLE''"
    and "\<not> is_rec line ''KEYWDS''" and "\<not> is_rec line ''EXPDTA''"
    and "\<not> is_rec line ''CRYST1''" and "\<not> is_rec line ''MTRIXn''"
    and "\<not> is_rec line ''MODEL''" and "\<not> is_rec line ''ENDMDL''"
  by (rule ter_excludes [OF assms]; simp add: record_key_def c_int_def cstr_def)+

lemma dispatch_ter:
  assumes "is_rec line ''TER''" and "dispatch fsin fcos r line len = Inr (r', stop)"
  shows "on_ter (r\<lparr>line_num := line_num r + 1\<rparr>) = Inr r'"
  using assms(2) unfolding dispatch_def Let_def
  by (simp add: ter_only [OF assms(1)] assms(1) split: if_splits) (auto dest: ebind_Inr)

lemma dispatch_atom:
  assumes "is_rec line ''ATOM'' \<or> is_rec line ''HETATM''"
    and "dispatch fsin fcos r line len = Inr (r', stop)"
  shows "on_atom (r\<lparr>line_num := line_num r + 1\<rparr>) line len = Inr r'"
  using assms(2) unfolding dispatch_def Let_def
  by (simp add: assms(1) split: if_splits) (auto dest: ebind_Inr)

lemma closed_name_ter:
  "(mname @ ''/'' @ auth) \<in> set ters \<Longrightarrow> closed_name ters mname auth = auth @ ''_H''"
  by (simp add: closed_name_def)

lemma closed_name_other:
  "closed_name ters mname auth \<noteq> auth \<Longrightarrow> (mname @ ''/'' @ auth) \<in> set ters"
  by (simp add: closed_name_def split: if_splits)

lemma on_ter_key:
  assumes inv: "chain_inv r" and cp: "chain_ptr r = Some (mi, ci)"
    and ot: "on_ter r = Inr r'"
    and x: "chain_name (chain_at r mi ci) = X \<or> auth_name (chain_at r mi ci) = X"
  shows "(model_name (models (st r) ! mi) @ ''/'' @ X) \<in> set (has_ter r')"
proof -
  note cur = chain_inv_current [OF inv cp]
  from ot cp cur(1) obtain m c where gm: "get_model r mi = Inr m"
    and gc: "get_chain r (mi, ci) = Inr c"
    and r': "r' = r\<lparr>has_ter := has_ter r @ [model_name m @ ''/'' @ chain_name c],
                    chain_ptr := None\<rparr>"
    by (auto simp add: on_ter_def dest!: ebind_Inr)
  from get_model_Inr [OF gm] get_chain_Inr [OF gc]
  have m: "m = models (st r) ! mi" and c: "c = chain_at r mi ci" by simp_all
  have ht: "set (has_ter r') = insert (model_name m @ ''/'' @ chain_name c) (set (has_ter r))"
    by (simp add: r')
  show ?thesis
  proof (cases "chain_name c = X")
    case True
    then show ?thesis unfolding ht m by simp
  next
    case False
    with x c have au: "auth_name c = X" by simp
    from cur(3) False have "closed_name (has_ter r) (model_name m) X \<noteq> X"
      by (simp add: c [symmetric] m [symmetric] au)
    then have "(model_name m @ ''/'' @ X) \<in> set (has_ter r)"
      by (rule closed_name_other)
    then show ?thesis unfolding ht m by simp
  qed
qed

lemmas eval_atom = on_atom_def open_chain_def select_residue_def read_atom_def append_atom_def
  get_model_def get_chain_def get_residue_def put_model_def put_chain_def put_residue_def
  find_or_add_chain_def find_or_add_residue_def matches_def read_snic_def read_charge_def
  blank_to_nul_def clear_case_bit_def wrong_def char_of_nat_eval

lemma atom_line_step: "dispatch sin cos Reader_init atom_line 81 = Inr (after_atom, False)"
  apply (simp add: atom_line_def replicate_NUL_7 Reader_init_def find_or_add_model_def
      Structure_default_def)
  apply (simp add: dispatch_def eval_records eval_scanners eval_atom)
  apply (simp add: after_atom_def chain_A_def NUL_def)
  done

lemma ter_line_is_ter: "is_rec ter_line ''TER''"
  by (simp add: ter_line_def eval_records eval_scanners)

lemma ter_line_step: "dispatch sin cos after_atom ter_line 81 = Inr (after_ter, False)"
  apply (simp add: ter_line_def replicate_NUL_7 after_atom_def)
  apply (simp add: dispatch_def eval_records eval_scanners on_ter_def get_model_def get_chain_def)
  apply (simp add: after_ter_def after_atom_def chain_A_def)
  done

lemma hetatm_line_is_hetatm: "is_rec hetatm_line ''HETATM''"
  by (simp add: hetatm_line_def eval_records eval_scanners)

lemma hetatm_line_chain: "read_string (drop 20 hetatm_line) 2 = Inr ''A''"
  by (simp add: hetatm_line_def eval_records eval_scanners)

lemma hetatm_line_step: "dispatch sin cos after_ter hetatm_line 81 = Inr (after_hetatm, False)"
  apply (simp add: hetatm_line_def replicate_NUL_7 after_ter_def after_atom_def chain_A_def)
  apply (simp add: dispatch_def eval_records eval_scanners eval_atom)
  apply (simp add: after_hetatm_def chain_A_def chain_A_H_def NUL_def)
  done

lemma after_atom_reached: "reaches sin cos Reader_init after_atom"
  using reaches.start atom_line_step by (rule reaches.turn)

text \<open>
  C1. Let the reader, in a state that the loop reaches from its initial state, have a
  current chain whose name or \<open>auth_name\<close> is \<open>X\<close>, and let it process a TER record
  there. In every state that the loop reaches afterwards and whose current model has
  the name of the model of that chain, an ATOM or HETATM record whose chain columns
  read \<open>X\<close> and that is processed without error makes current a chain of that model
  whose name is \<open>X_H\<close> and whose \<open>auth_name\<close> is \<open>X\<close>, and its atom is the last atom
  of the current residue, a residue of this chain.
\<close>

theorem ter_closes_chain:
  assumes "reaches fsin fcos Reader_init r1"
    and "chain_ptr r1 = Some (mi, ci)"
    and "chain_name (chain_at r1 mi ci) = X \<or> auth_name (chain_at r1 mi ci) = X"
    and "is_rec line1 ''TER''"
    and "dispatch fsin fcos r1 line1 len1 = Inr (r2, stop1)"
    and "reaches fsin fcos r2 r3"
    and "model_ptr r3 = Some mj"
    and "model_name (models (st r3) ! mj) = model_name (models (st r1) ! mi)"
    and "is_rec line ''ATOM'' \<or> is_rec line ''HETATM''"
    and "read_string (drop 20 line) 2 = Inr X"
    and "dispatch fsin fcos r3 line len = Inr (r4, stop)"
  shows "\<exists>cj ri atom old.
           chain_ptr r4 = Some (mj, cj) \<and> resi_ptr r4 = Some (mj, cj, ri) \<and>
           valid_chain r4 mj cj \<and> ri < length (residues (chain_at r4 mj cj)) \<and>
           model_name (models (st r4) ! mj) = model_name (models (st r1) ! mi) \<and>
           chain_name (chain_at r4 mj cj) = X @ ''_H'' \<and>
           auth_name (chain_at r4 mj cj) = X \<and>
           read_atom line len = Inr atom \<and>
           atoms (residues (chain_at r4 mj cj) ! ri) = old @ [atom]"
proof -
  let ?M = "model_name (models (st r1) ! mi)"
  define rn1 where "rn1 = r1\<lparr>line_num := line_num r1 + 1\<rparr>"
  define rn3 where "rn3 = r3\<lparr>line_num := line_num r3 + 1\<rparr>"
  have inv1: "chain_inv r1"
    using reaches_inv [OF assms(1) chain_inv_init] by simp
  have u1: "unmoved r1 rn1" unfolding rn1_def by (rule unmoved_line_num)
  have invn1: "chain_inv rn1" using inv1 by (simp add: unmoved_inv [OF u1])
  have same1: "st rn1 = st r1" "chain_ptr rn1 = chain_ptr r1"
    by (simp_all add: rn1_def)
  have ot: "on_ter rn1 = Inr r2"
    unfolding rn1_def using assms(4,5) by (rule dispatch_ter)
  have "(model_name (models (st rn1) ! mi) @ ''/'' @ X) \<in> set (has_ter r2)"
    using invn1 _ ot
  proof (rule on_ter_key)
    show "chain_ptr rn1 = Some (mi, ci)" by (simp add: same1 assms(2))
    show "chain_name (chain_at rn1 mi ci) = X \<or> auth_name (chain_at rn1 mi ci) = X"
      using assms(3) by (simp add: chain_at_def same1)
  qed
  then have key2: "(?M @ ''/'' @ X) \<in> set (has_ter r2)"
    by (simp add: same1)
  have inv2: "chain_inv r2"
    using dispatch_step [OF inv1 assms(5)] by simp
  from reaches_inv [OF assms(6) inv2] have inv3: "chain_inv r3"
    and sub: "set (has_ter r2) \<subseteq> set (has_ter r3)"
    by simp_all
  from key2 sub have key3: "(?M @ ''/'' @ X) \<in> set (has_ter r3)" by (rule rev_subsetD)
  have u3: "unmoved r3 rn3" unfolding rn3_def by (rule unmoved_line_num)
  have invn3: "chain_inv rn3" using inv3 by (simp add: unmoved_inv [OF u3])
  have same3: "st rn3 = st r3" "model_ptr rn3 = model_ptr r3" "has_ter rn3 = has_ter r3"
    by (simp_all add: rn3_def)
  have oa: "on_atom rn3 line len = Inr r4"
    unfolding rn3_def using assms(9,11) by (rule dispatch_atom)
  from on_atom_props [OF invn3 oa] obtain X' mj' cj ri atom old where
    p: "read_string (drop 20 line) 2 = Inr X'" "model_ptr rn3 = Some mj'"
       "chain_ptr r4 = Some (mj', cj)" "resi_ptr r4 = Some (mj', cj, ri)"
       "valid_chain r4 mj' cj" "ri < length (residues (chain_at r4 mj' cj))"
       "model_name (models (st r4) ! mj') = model_name (models (st rn3) ! mj')"
       "auth_name (chain_at r4 mj' cj) = X'"
       "chain_name (chain_at r4 mj' cj) =
          closed_name (has_ter rn3) (model_name (models (st rn3) ! mj')) X'"
       "read_atom line len = Inr atom"
       "atoms (residues (chain_at r4 mj' cj) ! ri) = old @ [atom]"
    by blast
  from p(1) assms(10) have X': "X' = X" by simp
  from p(2) assms(7) have mj': "mj' = mj" by (simp add: same3)
  have mn: "model_name (models (st r4) ! mj) = ?M"
    using p(7) by (simp add: mj' same3 assms(8))
  have "chain_name (chain_at r4 mj cj) = closed_name (has_ter r3) ?M X"
    using p(9) by (simp add: mj' X' same3 assms(8))
  also have "\<dots> = X @ ''_H''"
    using key3 by (rule closed_name_ter)
  finally have cn: "chain_name (chain_at r4 mj cj) = X @ ''_H''" .
  from p(3,4,5,6,8,10,11) mn cn show ?thesis
    unfolding mj' X' by blast
qed

theorem ter_closes_chain_witness:
  "reaches sin cos Reader_init after_atom \<and>
   dispatch sin cos after_atom ter_line 81 = Inr (after_ter, False) \<and>
   dispatch sin cos after_ter hetatm_line 81 = Inr (after_hetatm, False) \<and>
   (\<exists>cj ri atom old.
      chain_ptr after_hetatm = Some (0, cj) \<and> resi_ptr after_hetatm = Some (0, cj, ri) \<and>
      valid_chain after_hetatm 0 cj \<and> ri < length (residues (chain_at after_hetatm 0 cj)) \<and>
      model_name (models (st after_hetatm) ! 0) = model_name (models (st after_atom) ! 0) \<and>
      chain_name (chain_at after_hetatm 0 cj) = ''A'' @ ''_H'' \<and>
      auth_name (chain_at after_hetatm 0 cj) = ''A'' \<and>
      read_atom hetatm_line 81 = Inr atom \<and>
      atoms (residues (chain_at after_hetatm 0 cj) ! ri) = old @ [atom])"
proof -
  have "chain_ptr after_atom = Some (0, 0)"
    by (simp add: after_atom_def)
  moreover have "chain_name (chain_at after_atom 0 0) = ''A'' \<or>
      auth_name (chain_at after_atom 0 0) = ''A''"
    by (simp add: after_atom_def chain_at_def chain_A_def)
  moreover have "model_ptr after_ter = Some 0"
    by (simp add: after_ter_def after_atom_def)
  moreover have "model_name (models (st after_ter) ! 0) = model_name (models (st after_atom) ! 0)"
    by (simp add: after_ter_def)
  moreover have "is_rec hetatm_line ''ATOM'' \<or> is_rec hetatm_line ''HETATM''"
    by (simp add: hetatm_line_is_hetatm)
  moreover note ter_closes_chain [OF after_atom_reached _ _ ter_line_is_ter ter_line_step
      reaches.start _ _ _ hetatm_line_chain hetatm_line_step]
  ultimately show ?thesis
    using after_atom_reached ter_line_step hetatm_line_step by blast
qed

end
